theory Spec2Isabelle
  imports Complex_Main "HOL-Library.Multiset"
begin

section \<open>Data model\<close>

text \<open>
  The solver of \<^verbatim>\<open>src/Solver.h\<close> works on three kinds of data.  The headers that
  declare them (\<^verbatim>\<open>Joints.h\<close>, \<^verbatim>\<open>RigidBody.h\<close>, \<^verbatim>\<open>Vector2.h\<close>, \<^verbatim>\<open>base/SIMD.h\<close>) are
  not part of the sources at hand, so the records below list exactly the fields that
  \<^verbatim>\<open>Solver.h\<close> reads and writes, under the names it uses; a \<^verbatim>\<open>Vector2f\<close> field \<^verbatim>\<open>v\<close> is
  flattened into \<^verbatim>\<open>v_x\<close> and \<^verbatim>\<open>v_y\<close>.

  Conventions of the embedding:
  \<^item> A \<^verbatim>\<open>float\<close> is a value of the type \<open>cfloat\<close> of the next section: an IEEE 754
    binary32 number, with NaN, the two infinities, and every operation rounded to
    nearest.  The operators \<open>+\<close>, \<open>-\<close>, \<open>*\<close>, \<open><\<close>, \<open>\<le>\<close> and \<open>\<bar>_\<bar>\<close> on \<open>cfloat\<close> are the
    operations of the source on \<^verbatim>\<open>float\<close>.
  \<^item> An \<^verbatim>\<open>int\<close> that is an array index or a count is a \<^typ>\<open>nat\<close>; the iteration index and
    the \<^verbatim>\<open>lastIteration\<close> tags, which start at \<open>-1\<close>, are \<^typ>\<open>int\<close>.  No arithmetic on
    them gets near the 32-bit range (the largest value is an iteration budget).
  \<^item> A pointer and a count (\<^verbatim>\<open>RigidBody* bodies, int bodiesCount\<close>), a \<^verbatim>\<open>std::vector\<close> and an
    \<^verbatim>\<open>AlignedArray\<close> are lists.  The pointers \<^verbatim>\<open>joint.body1\<close>, \<^verbatim>\<open>joint.body2\<close> of the AoS
    backend are the indices \<^verbatim>\<open>body1Index\<close>, \<^verbatim>\<open>body2Index\<close> into the body list.
  \<^item> Reading or writing an array out of range is undefined behaviour in the source.
    The functions below are total (\<open>xs ! i\<close>, \<open>xs[i := v]\<close>); the theorems assume
    indices in range wherever a result depends on it.
\<close>

section \<open>Floats\<close>

text \<open>
  A \<^verbatim>\<open>float\<close> of the source is an IEEE 754 binary32 value: NaN, one of the two
  infinities, or a finite number.  A finite number is kept as the real it denotes.
  Not represented: the sign of a zero (there is one zero, as for the comparisons of
  the source, for which \<open>-0 = +0\<close>), and the sign and payload of a NaN.  Every \<^verbatim>\<open>float\<close>
  operation of the source is taken to be the one binary32 operation it denotes, in
  the default rounding mode and with gradual underflow (no contraction into fused
  operations, no wider intermediate precision, no flush-to-zero).
\<close>

datatype cfloat = NaN | PosInf | NegInf | Finite real

text \<open>
  Rounding to nearest, ties to even.  \<open>quantum x\<close> is the distance between the
  binary32 numbers around \<open>x\<close>: \<open>2^(e - 23)\<close> in the binade \<open>2^e \<le> \<bar>x\<bar> < 2^(e + 1)\<close>, and
  \<open>2^-149\<close> below the smallest normal number \<open>2^-126\<close>.  \<open>round32 x\<close> is the multiple of
  the quantum nearest to \<open>x\<close>, the even multiple when two are equally near, and an
  infinity when that multiple is beyond the largest binary32 number, that is, when
  it reaches \<open>2^128\<close>.
\<close>

definition round_half_even :: "real \<Rightarrow> int" where
  "round_half_even y =
     (let f = \<lfloor>y\<rfloor>
      in if y - of_int f < 1 / 2 then f
         else if 1 / 2 < y - of_int f then f + 1
         else if even f then f else f + 1)"

definition quantum :: "real \<Rightarrow> real" where
  "quantum x =
     (if \<bar>x\<bar> < 2 powr (- 126) then 2 powr (- 149)
      else 2 powr (of_int \<lfloor>log 2 \<bar>x\<bar>\<rfloor> - 23))"

definition round32 :: "real \<Rightarrow> cfloat" where
  "round32 x =
     (let r = quantum x * of_int (round_half_even (x / quantum x))
      in if 2 ^ 128 \<le> \<bar>r\<bar> then (if 0 < x then PosInf else NegInf) else Finite r)"

text \<open>
  The operations of the source on \<^verbatim>\<open>float\<close>: \<^verbatim>\<open>0.0f\<close> and \<^verbatim>\<open>1.0f\<close>, unary minus, \<^verbatim>\<open>+\<close>, \<^verbatim>\<open>-\<close>,
  \<^verbatim>\<open>*\<close>, \<^verbatim>\<open>fabsf\<close>, \<^verbatim>\<open><\<close> and \<^verbatim>\<open><=\<close> (\<^verbatim>\<open>a > b\<close> is \<open>b < a\<close>).  An operation with a NaN operand gives
  NaN, and a comparison with a NaN operand is false; \<open>\<infinity> - \<infinity>\<close> and \<open>\<infinity> * 0\<close> are NaN.
\<close>

instantiation cfloat :: "{zero, one, plus, minus, uminus, times, abs, ord}"
begin

definition zero_cfloat :: cfloat where
  "zero_cfloat = Finite 0"

definition one_cfloat :: cfloat where
  "one_cfloat = Finite 1"

fun uminus_cfloat :: "cfloat \<Rightarrow> cfloat" where
  "uminus_cfloat NaN = NaN"
| "uminus_cfloat PosInf = NegInf"
| "uminus_cfloat NegInf = PosInf"
| "uminus_cfloat (Finite x) = Finite (- x)"

fun plus_cfloat :: "cfloat \<Rightarrow> cfloat \<Rightarrow> cfloat" where
  "plus_cfloat NaN b = NaN"
| "plus_cfloat a NaN = NaN"
| "plus_cfloat PosInf NegInf = NaN"
| "plus_cfloat NegInf PosInf = NaN"
| "plus_cfloat PosInf b = PosInf"
| "plus_cfloat a PosInf = PosInf"
| "plus_cfloat NegInf b = NegInf"
| "plus_cfloat a NegInf = NegInf"
| "plus_cfloat (Finite x) (Finite y) = round32 (x + y)"

definition minus_cfloat :: "cfloat \<Rightarrow> cfloat \<Rightarrow> cfloat" where
  "minus_cfloat a b = a + (- b)"

fun times_cfloat :: "cfloat \<Rightarrow> cfloat \<Rightarrow> cfloat" where
  "times_cfloat NaN b = NaN"
| "times_cfloat a NaN = NaN"
| "times_cfloat (Finite x) (Finite y) = round32 (x * y)"
| "times_cfloat PosInf PosInf = PosInf"
| "times_cfloat PosInf NegInf = NegInf"
| "times_cfloat NegInf PosInf = NegInf"
| "times_cfloat NegInf NegInf = PosInf"
| "times_cfloat PosInf (Finite y) = (if y = 0 then NaN else if 0 < y then PosInf else NegInf)"
| "times_cfloat NegInf (Finite y) = (if y = 0 then NaN else if 0 < y then NegInf else PosInf)"
| "times_cfloat (Finite x) PosInf = (if x = 0 then NaN else if 0 < x then PosInf else NegInf)"
| "times_cfloat (Finite x) NegInf = (if x = 0 then NaN else if 0 < x then NegInf else PosInf)"

fun abs_cfloat :: "cfloat \<Rightarrow> cfloat" where
  "abs_cfloat NaN = NaN"
| "abs_cfloat PosInf = PosInf"
| "abs_cfloat NegInf = PosInf"
| "abs_cfloat (Finite x) = Finite \<bar>x\<bar>"

fun less_cfloat :: "cfloat \<Rightarrow> cfloat \<Rightarrow> bool" where
  "less_cfloat NaN b = False"
| "less_cfloat a NaN = False"
| "less_cfloat (Finite x) (Finite y) = (x < y)"
| "less_cfloat a NegInf = False"
| "less_cfloat PosInf b = False"
| "less_cfloat NegInf b = True"
| "less_cfloat a PosInf = True"

fun less_eq_cfloat :: "cfloat \<Rightarrow> cfloat \<Rightarrow> bool" where
  "less_eq_cfloat NaN b = False"
| "less_eq_cfloat a NaN = False"
| "less_eq_cfloat (Finite x) (Finite y) = (x \<le> y)"
| "less_eq_cfloat NegInf b = True"
| "less_eq_cfloat a PosInf = True"
| "less_eq_cfloat a NegInf = False"
| "less_eq_cfloat PosInf b = False"

instance ..

end

text \<open>
  \<^verbatim>\<open>std::max(a, b)\<close> (line 629) is \<^verbatim>\<open>(a < b) ? b : a\<close>.  \<open>max_ps\<close> is the x86 instruction
  \<^verbatim>\<open>maxps\<close> behind \<^verbatim>\<open>_mm256_max_ps(a, b)\<close> (lines 1012, 1138): \<^verbatim>\<open>a > b ? a : b\<close>, so it gives
  its second operand when one of the two is NaN.
\<close>

definition std_max :: "cfloat \<Rightarrow> cfloat \<Rightarrow> cfloat" where
  "std_max a b = (if a < b then b else a)"

definition max_ps :: "cfloat \<Rightarrow> cfloat \<Rightarrow> cfloat" where
  "max_ps a b = (if a > b then a else b)"

text \<open>
  The sign bit, as far as the type has it: set for a negative number and for the
  negative infinity.  The kernels use it only through \<open>flipsign\<close>, whose result they
  keep only when the second argument exceeds a cap in absolute value, which a NaN
  or a zero never does unless the cap is negative.
\<close>

fun sign_bit :: "cfloat \<Rightarrow> bool" where
  "sign_bit NaN = False"
| "sign_bit PosInf = False"
| "sign_bit NegInf = True"
| "sign_bit (Finite x) = (x < 0)"

text \<open>
  The fused multiply-add \<open>a * b + c\<close>: the exact product and sum, rounded once.  A
  finite product leaves an infinite or NaN \<open>c\<close> as it is.
\<close>

fun fma32 :: "cfloat \<Rightarrow> cfloat \<Rightarrow> cfloat \<Rightarrow> cfloat" where
  "fma32 (Finite x) (Finite y) (Finite z) = round32 (x * y + z)"
| "fma32 (Finite x) (Finite y) c = c"
| "fma32 a b c = a * b + c"

text \<open>
  The conversion \<^verbatim>\<open>float(i)\<close> of an integer, and the division of the diagnostic (lines
  425, 551).  A zero divisor is the positive zero there (it is \<^verbatim>\<open>float\<close> of a count), so
  a non-zero number over zero is the infinity of its sign, and \<open>0 / 0\<close> is NaN.
\<close>

definition float_of_int :: "int \<Rightarrow> cfloat" where
  "float_of_int i = round32 (of_int i)"

fun float_div :: "cfloat \<Rightarrow> cfloat \<Rightarrow> cfloat" where
  "float_div NaN b = NaN"
| "float_div a NaN = NaN"
| "float_div (Finite x) (Finite y) =
     (if y = 0 then (if x = 0 then NaN else if 0 < x then PosInf else NegInf)
      else round32 (x / y))"
| "float_div (Finite x) b = Finite 0"
| "float_div PosInf (Finite y) = (if 0 \<le> y then PosInf else NegInf)"
| "float_div NegInf (Finite y) = (if 0 \<le> y then NegInf else PosInf)"
| "float_div a b = NaN"

text \<open>
  A finite value of the type is a binary32 number when rounding leaves it as it is.
  Every result of an operation above is one; the hypotheses \<open>binary32 v\<close> of the
  theorems say it of the values that a solve starts from.
\<close>

fun binary32 :: "cfloat \<Rightarrow> bool" where
  "binary32 (Finite x) = (round32 x = Finite x)"
| "binary32 a = True"

section \<open>The records\<close>

record Limiter =
  normalProjector1_x :: cfloat
  normalProjector1_y :: cfloat
  normalProjector2_x :: cfloat
  normalProjector2_y :: cfloat
  angularProjector1 :: cfloat
  angularProjector2 :: cfloat
  compMass1_linear_x :: cfloat
  compMass1_linear_y :: cfloat
  compMass2_linear_x :: cfloat
  compMass2_linear_y :: cfloat
  compMass1_angular :: cfloat
  compMass2_angular :: cfloat
  compInvMass :: cfloat
  accumulatedImpulse :: cfloat
  dstVelocity :: cfloat
  dstDisplacingVelocity :: cfloat
  accumulatedDisplacingImpulse :: cfloat

record ContactJoint =
  body1Index :: nat
  body2Index :: nat
  normalLimiter :: Limiter
  frictionLimiter :: Limiter

record RigidBody =
  velocity_x :: cfloat
  velocity_y :: cfloat
  angularVelocity :: cfloat
  displacingVelocity_x :: cfloat
  displacingVelocity_y :: cfloat
  displacingAngularVelocity :: cfloat
  lastIteration :: int
  lastDisplacementIteration :: int

text \<open>
  \<^verbatim>\<open>Solver::SolveBody\<close> (lines 93-99).  Its fields carry the prefix \<open>sb_\<close> because the
  record \<open>RigidBody\<close> has fields of the same names.
\<close>

record SolveBody =
  sb_velocity_x :: cfloat
  sb_velocity_y :: cfloat
  sb_angularVelocity :: cfloat
  sb_lastIteration :: int

section \<open>Grouping: \<^verbatim>\<open>Solver::SolvePrepareIndicesSoA\<close>\<close>

text \<open>
  The scratch arrays the grouping pass works on (lines 106-109): the per-body tags
  \<^verbatim>\<open>jointGroup_bodies\<close>, the work list \<^verbatim>\<open>jointGroup_joints\<close> (its \<^verbatim>\<open>size\<close> is the length
  of the list) and the output \<^verbatim>\<open>joint_index\<close>.
\<close>

record GroupState =
  jointGroup_bodies :: "nat list"
  jointGroup_joints :: "nat list"
  joint_index :: "nat list"

text \<open>
  The inner scan, lines 364-384.  \<open>i\<close> and \<open>groupSize\<close> are the loop's two counters;
  the function returns the final \<open>groupSize\<close> with the arrays.  The removal
  \<^verbatim>\<open>jointGroup_joints[i] = jointGroup_joints[size - 1]; size--\<close> overwrites slot \<open>i\<close>
  with the last entry and drops the last slot.
\<close>

function gather_group ::
  "ContactJoint list \<Rightarrow> nat \<Rightarrow> nat \<Rightarrow> nat \<Rightarrow> nat \<Rightarrow> nat \<Rightarrow> GroupState \<Rightarrow> nat \<times> GroupState"
where
  "gather_group contactJoints groupSizeTarget tag groupOffset i groupSize s =
     (if i < length (jointGroup_joints s) \<and> groupSize < groupSizeTarget then
        (let jointIndex = jointGroup_joints s ! i;
             joint = contactJoints ! jointIndex
         in if jointGroup_bodies s ! body1Index joint < tag
               \<and> jointGroup_bodies s ! body2Index joint < tag
            then gather_group contactJoints groupSizeTarget tag groupOffset i (groupSize + 1)
                   (s\<lparr>jointGroup_bodies :=
                        (jointGroup_bodies s)[body1Index joint := tag, body2Index joint := tag],
                      joint_index := (joint_index s)[groupOffset + groupSize := jointIndex],
                      jointGroup_joints :=
                        butlast ((jointGroup_joints s)[i := last (jointGroup_joints s)])\<rparr>)
            else gather_group contactJoints groupSizeTarget tag groupOffset (i + 1) groupSize s)
      else (groupSize, s))"
  by pat_completeness auto
termination
  by (relation "measure (\<lambda>(js, k, t, off, i, g, s). length (jointGroup_joints s) - i)") auto

declare gather_group.simps [simp del]

text \<open>
  The outer loop, lines 357-390.  It need not terminate for every argument (with
  \<open>groupSizeTarget = 0\<close> no round accepts a joint and none breaks), so it returns an
  option: \<open>None\<close> stands for a run that never returns.  The result is the final
  \<open>groupOffset\<close> with the arrays.
\<close>

partial_function (option) group_rounds ::
  "ContactJoint list \<Rightarrow> nat \<Rightarrow> nat \<Rightarrow> nat \<Rightarrow> GroupState \<Rightarrow> (nat \<times> GroupState) option"
where
  "group_rounds contactJoints groupSizeTarget tag groupOffset s =
     (if length (jointGroup_joints s) \<ge> groupSizeTarget then
        (case gather_group contactJoints groupSizeTarget (tag + 1) groupOffset 0 0 s of
           (groupSize, s') \<Rightarrow>
             if groupSize < groupSizeTarget then Some (groupOffset + groupSize, s')
             else group_rounds contactJoints groupSizeTarget (tag + 1) (groupOffset + groupSize) s')
      else Some (groupOffset, s))"

text \<open>
  \<^verbatim>\<open>Solver::SolvePrepareIndicesSoA\<close>, lines 329-398.  \<open>joint_index0\<close> is the content of
  \<^verbatim>\<open>joint_index\<close> on entry: the caller has resized it to \<open>jointCount\<close> entries (line
  451) and their values are whatever the previous step left.  The result is the
  array \<^verbatim>\<open>joint_index\<close> on return with the returned \<^verbatim>\<open>int\<close>.
\<close>

definition SolvePrepareIndicesSoA ::
  "ContactJoint list \<Rightarrow> nat list \<Rightarrow> nat \<Rightarrow> nat \<Rightarrow> (nat list \<times> nat) option"
where
  "SolvePrepareIndicesSoA contactJoints joint_index0 bodiesCount groupSizeTarget =
     (let jointCount = length contactJoints in
      if groupSizeTarget = 1 then
        Some (fold (\<lambda>i ji. ji[i := i]) [0..<jointCount] joint_index0, jointCount)
      else
        (case group_rounds contactJoints groupSizeTarget 0 0
                \<lparr>jointGroup_bodies = replicate bodiesCount 0,
                 jointGroup_joints = [0..<jointCount],
                 joint_index = joint_index0\<rparr> of
           None \<Rightarrow> None
         | Some (groupOffset, s) \<Rightarrow>
             Some (fold (\<lambda>i ji. ji[groupOffset + i := jointGroup_joints s ! i])
                     [0..<length (jointGroup_joints s)] (joint_index s),
                   (groupOffset div groupSizeTarget) * groupSizeTarget)))"

text \<open>Body indices of every joint lie inside the body array.\<close>

definition joints_valid :: "nat \<Rightarrow> ContactJoint list \<Rightarrow> bool" where
  "joints_valid bodiesCount contactJoints =
     list_all (\<lambda>j. body1Index j < bodiesCount \<and> body2Index j < bodiesCount) contactJoints"

text \<open>No joint connects a body with itself.\<close>

definition no_self_joint :: "ContactJoint list \<Rightarrow> bool" where
  "no_self_joint contactJoints = list_all (\<lambda>j. body1Index j \<noteq> body2Index j) contactJoints"

text \<open>
  The body indices used by the joints that \<^verbatim>\<open>joint_index\<close> selects in the window
  \<open>[start, start + K)\<close>: \<open>2K\<close> entries, two per joint.
\<close>

definition window_bodies :: "ContactJoint list \<Rightarrow> nat list \<Rightarrow> nat \<Rightarrow> nat \<Rightarrow> nat list" where
  "window_bodies contactJoints ji start K =
     concat (map (\<lambda>k. [body1Index (contactJoints ! (ji ! k)), body2Index (contactJoints ! (ji ! k))])
               [start ..< start + K])"

text \<open>
  Invariants of the two loops, used in the proofs below.  \<open>perm_inv n acc s\<close>: the first
  \<open>acc\<close> slots of \<^verbatim>\<open>joint_index\<close> and the work list together hold every joint index
  below \<open>n\<close> exactly once.  \<open>round_inv\<close>: the bodies of the joints accepted in the
  current round carry the round's tag and are pairwise distinct.  \<open>windows_distinct\<close>:
  every full window below \<open>bnd\<close> uses pairwise distinct bodies.
\<close>

definition perm_inv :: "nat \<Rightarrow> nat \<Rightarrow> GroupState \<Rightarrow> bool" where
  "perm_inv n acc s \<longleftrightarrow>
     length (joint_index s) = n \<and> acc + length (jointGroup_joints s) = n \<and>
     mset (take acc (joint_index s)) + mset (jointGroup_joints s) = mset [0..<n]"

definition round_inv :: "ContactJoint list \<Rightarrow> nat \<Rightarrow> nat \<Rightarrow> nat \<Rightarrow> GroupState \<Rightarrow> bool" where
  "round_inv js t off gs s \<longleftrightarrow>
     (\<forall>b. b \<in> set (window_bodies js (joint_index s) off gs) \<longrightarrow> jointGroup_bodies s ! b = t) \<and>
     distinct (window_bodies js (joint_index s) off gs)"

definition windows_distinct :: "ContactJoint list \<Rightarrow> nat \<Rightarrow> nat \<Rightarrow> nat list \<Rightarrow> bool" where
  "windows_distinct js K bnd ji \<longleftrightarrow>
     (\<forall>g. K * g + K \<le> bnd \<longrightarrow> distinct (window_bodies js ji (K * g) K))"

subsection \<open>An example scene\<close>

text \<open>
  A limiter and a joint with every coefficient zero, and a scene of five such joints
  over nine bodies; joints 0 and 1 share body 1.
\<close>

definition rest_limiter :: Limiter where
  "rest_limiter = \<lparr>normalProjector1_x = 0, normalProjector1_y = 0, normalProjector2_x = 0,
     normalProjector2_y = 0, angularProjector1 = 0, angularProjector2 = 0,
     compMass1_linear_x = 0, compMass1_linear_y = 0, compMass2_linear_x = 0,
     compMass2_linear_y = 0, compMass1_angular = 0, compMass2_angular = 0,
     compInvMass = 0, accumulatedImpulse = 0, dstVelocity = 0, dstDisplacingVelocity = 0,
     accumulatedDisplacingImpulse = 0\<rparr>"

definition rest_joint :: "nat \<Rightarrow> nat \<Rightarrow> ContactJoint" where
  "rest_joint b1 b2 = \<lparr>body1Index = b1, body2Index = b2,
     normalLimiter = rest_limiter, frictionLimiter = rest_limiter\<rparr>"

definition chain_scene :: "ContactJoint list" where
  "chain_scene = [rest_joint 0 1, rest_joint 1 2, rest_joint 3 4, rest_joint 5 6, rest_joint 7 8]"


section \<open>The iteration kernels\<close>

text \<open>
  The two tunables, lines 119-120.  The literals \<^verbatim>\<open>1e-4f\<close> and \<^verbatim>\<open>0.3f\<close> denote the binary32
  numbers nearest to the decimals: \<open>13743895 / 2^37\<close> (bits \<^verbatim>\<open>0x38D1B717\<close>) and
  \<open>5033165 / 2^24\<close> (bits \<^verbatim>\<open>0x3E99999A\<close>), which is a little above \<open>3 / 10\<close>.
\<close>

definition kProductiveImpulse :: cfloat where
  "kProductiveImpulse = Finite (13743895 / 2 ^ 37)"

definition kFrictionCoefficient :: cfloat where
  "kFrictionCoefficient = Finite (5033165 / 2 ^ 24)"

text \<open>
  The run of six \<^verbatim>\<open>dV -= projector * velocity\<close> statements that every kernel starts a
  limiter with (lines 570-578, 594-602, 658-666, 769-777, 793-801, 1292-1300), in the
  source's order.  \<open>dV\<close> is the value the run starts from.
\<close>

definition subtract_projections ::
  "Limiter \<Rightarrow> cfloat \<Rightarrow> cfloat \<Rightarrow> cfloat \<Rightarrow> cfloat \<Rightarrow> cfloat \<Rightarrow> cfloat \<Rightarrow> cfloat \<Rightarrow> cfloat"
where
  "subtract_projections l dV v1x v1y w1 v2x v2y w2 =
     dV - normalProjector1_x l * v1x - normalProjector1_y l * v1y - angularProjector1 l * w1
        - normalProjector2_x l * v2x - normalProjector2_y l * v2y - angularProjector2 l * w2"

subsection \<open>AoS backend\<close>

text \<open>
  Lines 582-583 and 670-671:
  \<^verbatim>\<open>if (delta + accumulated < 0.0f) delta = -accumulated;\<close>
\<close>

definition clamp_AoS :: "cfloat \<Rightarrow> cfloat \<Rightarrow> cfloat" where
  "clamp_AoS deltaImpulse accumulated =
     (if deltaImpulse + accumulated < 0 then - accumulated else deltaImpulse)"

text \<open>
  Lines 606-617, the friction cap of the AoS kernel: from the reaction force, the
  friction accumulator and the unclamped friction delta to the clamped delta.
\<close>

definition friction_cap_AoS :: "cfloat \<Rightarrow> cfloat \<Rightarrow> cfloat \<Rightarrow> cfloat" where
  "friction_cap_AoS reactionForce accImpulse frictionDeltaImpulse =
     (let frictionForce = accImpulse + frictionDeltaImpulse;
          frictionCoefficient = kFrictionCoefficient
      in if \<bar>frictionForce\<bar> > reactionForce * frictionCoefficient then
           (let dir = (if frictionForce > 0 then 1 else - 1);
                frictionForce = dir * reactionForce * frictionCoefficient
            in frictionForce - accImpulse)
         else frictionDeltaImpulse)"

text \<open>
  Three consecutive \<^verbatim>\<open>+=\<close> on one body through its pointer (lines 585-587, 588-590,
  621-623, 625-627 and, for the displacing channel, 673-675, 677-679).
\<close>

definition add_velocity :: "RigidBody \<Rightarrow> cfloat \<Rightarrow> cfloat \<Rightarrow> cfloat \<Rightarrow> RigidBody" where
  "add_velocity b dx dy dw =
     b\<lparr>velocity_x := velocity_x b + dx, velocity_y := velocity_y b + dy,
       angularVelocity := angularVelocity b + dw\<rparr>"

definition add_displacingVelocity :: "RigidBody \<Rightarrow> cfloat \<Rightarrow> cfloat \<Rightarrow> cfloat \<Rightarrow> RigidBody" where
  "add_displacingVelocity b dx dy dw =
     b\<lparr>displacingVelocity_x := displacingVelocity_x b + dx,
       displacingVelocity_y := displacingVelocity_y b + dy,
       displacingAngularVelocity := displacingAngularVelocity b + dw\<rparr>"

text \<open>
  The six reads a limiter's run of \<^verbatim>\<open>dV -=\<close> makes of the two bodies (lines 572-578,
  596-602), and of their displacing channel (lines 660-666).
\<close>

definition relative_velocity_AoS :: "Limiter \<Rightarrow> cfloat \<Rightarrow> RigidBody \<Rightarrow> RigidBody \<Rightarrow> cfloat" where
  "relative_velocity_AoS l dV body1 body2 =
     subtract_projections l dV
       (velocity_x body1) (velocity_y body1) (angularVelocity body1)
       (velocity_x body2) (velocity_y body2) (angularVelocity body2)"

definition relative_displacingVelocity_AoS :: "Limiter \<Rightarrow> cfloat \<Rightarrow> RigidBody \<Rightarrow> RigidBody \<Rightarrow> cfloat" where
  "relative_displacingVelocity_AoS l dV body1 body2 =
     subtract_projections l dV
       (displacingVelocity_x body1) (displacingVelocity_y body1) (displacingAngularVelocity body1)
       (displacingVelocity_x body2) (displacingVelocity_y body2) (displacingAngularVelocity body2)"

text \<open>
  The six writes that apply an impulse (lines 585-590, 621-627, and 673-679 for the
  displacing channel): first the body behind \<^verbatim>\<open>body1\<close>, then the body behind \<^verbatim>\<open>body2\<close>.
  The bodies are read and written through the list in this order, so a joint whose
  two pointers name the same body behaves as in the source: the second \<^verbatim>\<open>+=\<close> sees
  the first one's result.
\<close>

definition apply_impulse_AoS :: "Limiter \<Rightarrow> cfloat \<Rightarrow> nat \<Rightarrow> nat \<Rightarrow> RigidBody list \<Rightarrow> RigidBody list" where
  "apply_impulse_AoS l deltaImpulse body1 body2 bodies =
     (let bodies = bodies[body1 := add_velocity (bodies ! body1)
              (compMass1_linear_x l * deltaImpulse) (compMass1_linear_y l * deltaImpulse)
              (compMass1_angular l * deltaImpulse)];
          bodies = bodies[body2 := add_velocity (bodies ! body2)
              (compMass2_linear_x l * deltaImpulse) (compMass2_linear_y l * deltaImpulse)
              (compMass2_angular l * deltaImpulse)]
      in bodies)"

definition apply_displacingImpulse_AoS ::
  "Limiter \<Rightarrow> cfloat \<Rightarrow> nat \<Rightarrow> nat \<Rightarrow> RigidBody list \<Rightarrow> RigidBody list" where
  "apply_displacingImpulse_AoS l deltaImpulse body1 body2 bodies =
     (let bodies = bodies[body1 := add_displacingVelocity (bodies ! body1)
              (compMass1_linear_x l * deltaImpulse) (compMass1_linear_y l * deltaImpulse)
              (compMass1_angular l * deltaImpulse)];
          bodies = bodies[body2 := add_displacingVelocity (bodies ! body2)
              (compMass2_linear_x l * deltaImpulse) (compMass2_linear_y l * deltaImpulse)
              (compMass2_angular l * deltaImpulse)]
      in bodies)"

text \<open>Lines 633-634 and 685-686: the two tags of a productive joint.\<close>

definition mark_lastIteration :: "int \<Rightarrow> nat \<Rightarrow> nat \<Rightarrow> RigidBody list \<Rightarrow> RigidBody list" where
  "mark_lastIteration iterationIndex body1 body2 bodies =
     (let bodies = bodies[body1 := (bodies ! body1)\<lparr>lastIteration := iterationIndex\<rparr>];
          bodies = bodies[body2 := (bodies ! body2)\<lparr>lastIteration := iterationIndex\<rparr>]
      in bodies)"

definition mark_lastDisplacementIteration :: "int \<Rightarrow> nat \<Rightarrow> nat \<Rightarrow> RigidBody list \<Rightarrow> RigidBody list" where
  "mark_lastDisplacementIteration iterationIndex body1 body2 bodies =
     (let bodies = bodies[body1 := (bodies ! body1)\<lparr>lastDisplacementIteration := iterationIndex\<rparr>];
          bodies = bodies[body2 := (bodies ! body2)\<lparr>lastDisplacementIteration := iterationIndex\<rparr>]
      in bodies)"

text \<open>
  Lines 570-636: what the AoS impulse kernel does to a joint it does not skip: the
  normal limiter (lines 570-592), the friction limiter against the updated
  velocities (lines 594-627), and the productivity test (lines 629-636).
\<close>

definition impulse_update_AoS ::
  "int \<Rightarrow> nat \<Rightarrow> bool \<times> RigidBody list \<times> ContactJoint list
     \<Rightarrow> bool \<times> RigidBody list \<times> ContactJoint list"
where
  "impulse_update_AoS iterationIndex jointIndex st =
     (case st of (productive, bodies, contactJoints) \<Rightarrow>
       (let joint = contactJoints ! jointIndex;
            body1 = body1Index joint;
            body2 = body2Index joint;
            n = normalLimiter joint;
            f = frictionLimiter joint;
            normaldV = relative_velocity_AoS n (dstVelocity n) (bodies ! body1) (bodies ! body2);
            normalDeltaImpulse = clamp_AoS (normaldV * compInvMass n) (accumulatedImpulse n);
            bodies = apply_impulse_AoS n normalDeltaImpulse body1 body2 bodies;
            n = n\<lparr>accumulatedImpulse := accumulatedImpulse n + normalDeltaImpulse\<rparr>;
            frictiondV = relative_velocity_AoS f 0 (bodies ! body1) (bodies ! body2);
            frictionDeltaImpulse = friction_cap_AoS (accumulatedImpulse n) (accumulatedImpulse f)
                (frictiondV * compInvMass f);
            f = f\<lparr>accumulatedImpulse := accumulatedImpulse f + frictionDeltaImpulse\<rparr>;
            bodies = apply_impulse_AoS f frictionDeltaImpulse body1 body2 bodies;
            contactJoints = contactJoints[jointIndex := joint\<lparr>normalLimiter := n, frictionLimiter := f\<rparr>];
            cumulativeImpulse = std_max \<bar>normalDeltaImpulse\<bar> \<bar>frictionDeltaImpulse\<bar>
        in if cumulativeImpulse > kProductiveImpulse then
             (True, mark_lastIteration iterationIndex body1 body2 bodies, contactJoints)
           else (productive, bodies, contactJoints)))"

text \<open>Lines 562-568: the body of the loop, with the early-out test of line 567.\<close>

definition impulse_joint_AoS ::
  "int \<Rightarrow> nat \<Rightarrow> bool \<times> RigidBody list \<times> ContactJoint list
     \<Rightarrow> bool \<times> RigidBody list \<times> ContactJoint list"
where
  "impulse_joint_AoS iterationIndex jointIndex st =
     (case st of (productive, bodies, contactJoints) \<Rightarrow>
       (let joint = contactJoints ! jointIndex;
            body1 = bodies ! body1Index joint;
            body2 = bodies ! body2Index joint
        in if lastIteration body1 < iterationIndex - 1 \<and> lastIteration body2 < iterationIndex - 1
           then st
           else impulse_update_AoS iterationIndex jointIndex st))"

text \<open>
  \<^verbatim>\<open>Solver::SolveJointsImpulsesAoS\<close>, lines 554-640: the loop over
  \<open>[jointStart, jointStart + jointCount)\<close>, starting from \<^verbatim>\<open>productive = false\<close>.
\<close>

definition SolveJointsImpulsesAoS ::
  "nat \<Rightarrow> nat \<Rightarrow> int \<Rightarrow> RigidBody list \<times> ContactJoint list
     \<Rightarrow> bool \<times> RigidBody list \<times> ContactJoint list"
where
  "SolveJointsImpulsesAoS jointStart jointCount iterationIndex s =
     fold (impulse_joint_AoS iterationIndex) [jointStart ..< jointStart + jointCount]
       (False, fst s, snd s)"

text \<open>Lines 658-688: the displacement kernel on a joint it does not skip.\<close>

definition displacement_update_AoS ::
  "int \<Rightarrow> nat \<Rightarrow> bool \<times> RigidBody list \<times> ContactJoint list
     \<Rightarrow> bool \<times> RigidBody list \<times> ContactJoint list"
where
  "displacement_update_AoS iterationIndex jointIndex st =
     (case st of (productive, bodies, contactJoints) \<Rightarrow>
       (let joint = contactJoints ! jointIndex;
            body1 = body1Index joint;
            body2 = body2Index joint;
            n = normalLimiter joint;
            dV = relative_displacingVelocity_AoS n (dstDisplacingVelocity n) (bodies ! body1) (bodies ! body2);
            displacingDeltaImpulse = clamp_AoS (dV * compInvMass n) (accumulatedDisplacingImpulse n);
            bodies = apply_displacingImpulse_AoS n displacingDeltaImpulse body1 body2 bodies;
            n = n\<lparr>accumulatedDisplacingImpulse := accumulatedDisplacingImpulse n + displacingDeltaImpulse\<rparr>;
            contactJoints = contactJoints[jointIndex := joint\<lparr>normalLimiter := n\<rparr>]
        in if \<bar>displacingDeltaImpulse\<bar> > kProductiveImpulse then
             (True, mark_lastDisplacementIteration iterationIndex body1 body2 bodies, contactJoints)
           else (productive, bodies, contactJoints)))"

text \<open>Lines 650-656: the loop body with the early-out test of line 655.\<close>

definition displacement_joint_AoS ::
  "int \<Rightarrow> nat \<Rightarrow> bool \<times> RigidBody list \<times> ContactJoint list
     \<Rightarrow> bool \<times> RigidBody list \<times> ContactJoint list"
where
  "displacement_joint_AoS iterationIndex jointIndex st =
     (case st of (productive, bodies, contactJoints) \<Rightarrow>
       (let joint = contactJoints ! jointIndex;
            body1 = bodies ! body1Index joint;
            body2 = bodies ! body2Index joint
        in if lastDisplacementIteration body1 < iterationIndex - 1
              \<and> lastDisplacementIteration body2 < iterationIndex - 1
           then st
           else displacement_update_AoS iterationIndex jointIndex st))"

text \<open>\<^verbatim>\<open>Solver::SolveJointsDisplacementAoS\<close>, lines 642-692.\<close>

definition SolveJointsDisplacementAoS ::
  "nat \<Rightarrow> nat \<Rightarrow> int \<Rightarrow> RigidBody list \<times> ContactJoint list
     \<Rightarrow> bool \<times> RigidBody list \<times> ContactJoint list"
where
  "SolveJointsDisplacementAoS jointStart jointCount iterationIndex s =
     fold (displacement_joint_AoS iterationIndex) [jointStart ..< jointStart + jointCount]
       (False, fst s, snd s)"

subsection \<open>SoA backends: the vector primitives\<close>

text \<open>
  Modelled from the spec: the vector types and operations of \<^verbatim>\<open>base/SIMD.h\<close>
  (\<^verbatim>\<open>simd::VNf\<close>, \<^verbatim>\<open>VNi\<close>, \<^verbatim>\<open>VNb\<close>, \<^verbatim>\<open>max\<close>, \<^verbatim>\<open>abs\<close>, \<^verbatim>\<open>flipsign\<close>, \<^verbatim>\<open>select\<close>, \<^verbatim>\<open>none\<close>, \<^verbatim>\<open>any\<close>,
  \<^verbatim>\<open>loadindexed4\<close>, \<^verbatim>\<open>storeindexed4\<close>) are missing from the sources.  The spec (4.4,
  9 "SIMD abstraction") describes them as lane-wise arithmetic, lane-masked select,
  lane-wise comparison, gather of a 4-scalar \<^verbatim>\<open>SolveBody\<close> by indexed load and scatter
  by indexed store.  A vector of width \<open>VN\<close> is the list of its \<open>VN\<close> lanes, and a
  kernel's arithmetic is written once, for one lane.

  The arithmetic operators, \<^verbatim>\<open>abs\<close> and the comparison \<^verbatim>\<open>>\<close> of a vector are, in every
  lane, the operations of \<open>cfloat\<close>.  \<^verbatim>\<open>max\<close> is taken to be \<open>max_ps\<close>, the instruction that
  the 16-wide kernels of the sources use in the same place (lines 1012, 1138).

  \<open>flipsign x y\<close> flips the sign of \<open>x\<close> when the sign bit of \<open>y\<close> is set.  The spec words
  the step as \<^verbatim>\<open>copysign(cap, force)\<close>; the intrinsics of the 16-wide kernel, which are in
  the sources (lines 1047, 1114), compute \<open>x XOR (y AND signbit)\<close>, which is the reading
  taken here.

  \<open>select a b c\<close> is \<open>b\<close> in the lanes where \<open>c\<close> is set and \<open>a\<close> elsewhere
  (lines 815, 836: the first argument is the value kept).
\<close>

definition flipsign :: "cfloat \<Rightarrow> cfloat \<Rightarrow> cfloat" where
  "flipsign x y = (if sign_bit y then - x else x)"

definition select :: "'a \<Rightarrow> 'a \<Rightarrow> bool \<Rightarrow> 'a" where
  "select a b c = (if c then b else a)"

definition none :: "bool list \<Rightarrow> bool" where
  "none lanes = (\<not> list_ex (\<lambda>b. b) lanes)"

definition any :: "bool list \<Rightarrow> bool" where
  "any lanes = list_ex (\<lambda>b. b) lanes"

text \<open>
  \<open>loadindexed4\<close> gathers the bodies at the given indices, one per lane;
  \<open>storeindexed4\<close> scatters the lanes back, lane 0 first.
\<close>

definition loadindexed4 :: "SolveBody list \<Rightarrow> nat list \<Rightarrow> SolveBody list" where
  "loadindexed4 solveBodies indices = map (\<lambda>ix. solveBodies ! ix) indices"

definition storeindexed4 :: "SolveBody list \<Rightarrow> nat list \<Rightarrow> SolveBody list \<Rightarrow> SolveBody list" where
  "storeindexed4 lanes indices solveBodies =
     fold (\<lambda>(v, ix) sb. sb[ix := v]) (zip lanes indices) solveBodies"

subsection \<open>SoA backends: the kernel template\<close>

text \<open>
  \<^verbatim>\<open>ContactJointPacked<N>\<close> stores lane \<open>i mod N\<close> of block \<open>i div N\<close> for the joint at
  position \<open>i\<close>.  The embedding flattens the blocks: \<open>joint_packed ! i\<close> is that lane,
  and a lane is a \<open>ContactJoint\<close> record holding the copies of the joint's scalars
  that \<^verbatim>\<open>SolvePrepareSoA\<close> makes (lines 464-501).

  Lines 805-815, the friction cap of the template kernel.
\<close>

definition friction_cap_SoA :: "cfloat \<Rightarrow> cfloat \<Rightarrow> cfloat \<Rightarrow> cfloat" where
  "friction_cap_SoA reactionForce accImpulse frictionDeltaImpulse =
     (let frictionForce = accImpulse + frictionDeltaImpulse;
          reactionForceScaled = reactionForce * kFrictionCoefficient;
          frictionForceAbs = \<bar>frictionForce\<bar>;
          reactionForceScaledSigned = flipsign reactionForceScaled frictionForce;
          frictionDeltaImpulseAdjusted = reactionForceScaledSigned - accImpulse
      in select frictionDeltaImpulse frictionDeltaImpulseAdjusted (frictionForceAbs > reactionForceScaled))"

text \<open>
  The six reads a limiter's run of \<^verbatim>\<open>dV -=\<close> makes of the registers of the two
  bodies (lines 771-777, 795-801, 1294-1300).
\<close>

definition relative_velocity_SoA :: "Limiter \<Rightarrow> cfloat \<Rightarrow> SolveBody \<Rightarrow> SolveBody \<Rightarrow> cfloat" where
  "relative_velocity_SoA l dV body1 body2 =
     subtract_projections l dV
       (sb_velocity_x body1) (sb_velocity_y body1) (sb_angularVelocity body1)
       (sb_velocity_x body2) (sb_velocity_y body2) (sb_angularVelocity body2)"

text \<open>Three consecutive \<^verbatim>\<open>+=\<close> on the registers of one body (lines 783-785 and alike).\<close>

definition sb_add_velocity :: "SolveBody \<Rightarrow> cfloat \<Rightarrow> cfloat \<Rightarrow> cfloat \<Rightarrow> SolveBody" where
  "sb_add_velocity b dx dy dw =
     b\<lparr>sb_velocity_x := sb_velocity_x b + dx, sb_velocity_y := sb_velocity_y b + dy,
       sb_angularVelocity := sb_angularVelocity b + dw\<rparr>"

text \<open>
  Lines 736-840 for one lane: from the lane of the packed joint and the two loaded
  bodies to the lane with its two accumulators stored back (lines 827-828), the two
  bodies as they are scattered (lines 842-846) and the lane's \<^verbatim>\<open>productive\<close> bit.
\<close>

definition impulse_lane ::
  "int \<Rightarrow> ContactJoint \<Rightarrow> SolveBody \<Rightarrow> SolveBody \<Rightarrow> ContactJoint \<times> SolveBody \<times> SolveBody \<times> bool"
where
  "impulse_lane iterationIndex jointP body1 body2 =
     (let n = normalLimiter jointP;
          f = frictionLimiter jointP;
          normaldV = relative_velocity_SoA n (dstVelocity n) body1 body2;
          normalDeltaImpulse = normaldV * compInvMass n;
          normalDeltaImpulse = max_ps normalDeltaImpulse (- accumulatedImpulse n);
          body1 = sb_add_velocity body1
              (compMass1_linear_x n * normalDeltaImpulse) (compMass1_linear_y n * normalDeltaImpulse)
              (compMass1_angular n * normalDeltaImpulse);
          body2 = sb_add_velocity body2
              (compMass2_linear_x n * normalDeltaImpulse) (compMass2_linear_y n * normalDeltaImpulse)
              (compMass2_angular n * normalDeltaImpulse);
          n = n\<lparr>accumulatedImpulse := accumulatedImpulse n + normalDeltaImpulse\<rparr>;
          frictiondV = relative_velocity_SoA f 0 body1 body2;
          frictionDeltaImpulse = friction_cap_SoA (accumulatedImpulse n) (accumulatedImpulse f)
              (frictiondV * compInvMass f);
          f = f\<lparr>accumulatedImpulse := accumulatedImpulse f + frictionDeltaImpulse\<rparr>;
          body1 = sb_add_velocity body1
              (compMass1_linear_x f * frictionDeltaImpulse) (compMass1_linear_y f * frictionDeltaImpulse)
              (compMass1_angular f * frictionDeltaImpulse);
          body2 = sb_add_velocity body2
              (compMass2_linear_x f * frictionDeltaImpulse) (compMass2_linear_y f * frictionDeltaImpulse)
              (compMass2_angular f * frictionDeltaImpulse);
          cumulativeImpulse = max_ps \<bar>normalDeltaImpulse\<bar> \<bar>frictionDeltaImpulse\<bar>;
          productive = cumulativeImpulse > kProductiveImpulse;
          body1 = body1\<lparr>sb_lastIteration := select (sb_lastIteration body1) iterationIndex productive\<rparr>;
          body2 = body2\<lparr>sb_lastIteration := select (sb_lastIteration body2) iterationIndex productive\<rparr>
      in (jointP\<lparr>normalLimiter := n, frictionLimiter := f\<rparr>, body1, body2, productive))"

text \<open>Lines 1275-1327 for one lane: the displacement kernel.\<close>

definition displacement_lane ::
  "int \<Rightarrow> ContactJoint \<Rightarrow> SolveBody \<Rightarrow> SolveBody \<Rightarrow> ContactJoint \<times> SolveBody \<times> SolveBody \<times> bool"
where
  "displacement_lane iterationIndex jointP body1 body2 =
     (let n = normalLimiter jointP;
          dV = relative_velocity_SoA n (dstDisplacingVelocity n) body1 body2;
          displacingDeltaImpulse = dV * compInvMass n;
          displacingDeltaImpulse = max_ps displacingDeltaImpulse (- accumulatedDisplacingImpulse n);
          body1 = sb_add_velocity body1
              (compMass1_linear_x n * displacingDeltaImpulse) (compMass1_linear_y n * displacingDeltaImpulse)
              (compMass1_angular n * displacingDeltaImpulse);
          body2 = sb_add_velocity body2
              (compMass2_linear_x n * displacingDeltaImpulse) (compMass2_linear_y n * displacingDeltaImpulse)
              (compMass2_angular n * displacingDeltaImpulse);
          n = n\<lparr>accumulatedDisplacingImpulse := accumulatedDisplacingImpulse n + displacingDeltaImpulse\<rparr>;
          productive = \<bar>displacingDeltaImpulse\<bar> > kProductiveImpulse;
          body1 = body1\<lparr>sb_lastIteration := select (sb_lastIteration body1) iterationIndex productive\<rparr>;
          body2 = body2\<lparr>sb_lastIteration := select (sb_lastIteration body2) iterationIndex productive\<rparr>
      in (jointP\<lparr>normalLimiter := n\<rparr>, body1, body2, productive))"

text \<open>
  One trip through the loop of the template (lines 712-846, and 1251-1333 with
  \<open>displacement_lane\<close>) for the \<open>VN\<close> lanes that start at position \<open>i\<close>: gather both
  bodies of every lane (lines 720-724), leave the batch alone when no lane has a body
  whose tag is above \<open>iterationIndex - 2\<close> (lines 726-734), otherwise run the lane
  arithmetic on all lanes, store the accumulators, and scatter first the lanes' body
  1, then the lanes' body 2 (lines 842-846).  \<open>lane\<close> is the lane arithmetic.
\<close>

definition batch_SoA ::
  "(int \<Rightarrow> ContactJoint \<Rightarrow> SolveBody \<Rightarrow> SolveBody \<Rightarrow> ContactJoint \<times> SolveBody \<times> SolveBody \<times> bool)
     \<Rightarrow> nat \<Rightarrow> int \<Rightarrow> nat \<Rightarrow> bool \<times> SolveBody list \<times> ContactJoint list
     \<Rightarrow> bool \<times> SolveBody list \<times> ContactJoint list"
where
  "batch_SoA lane VN iterationIndex i st =
     (case st of (productive_any, solveBodies, joint_packed) \<Rightarrow>
       (let lanes = [i ..< i + VN];
            jointP = map (\<lambda>l. joint_packed ! l) lanes;
            body1 = loadindexed4 solveBodies (map body1Index jointP);
            body2 = loadindexed4 solveBodies (map body2Index jointP);
            body1_productive = map (\<lambda>b. sb_lastIteration b > iterationIndex - 2) body1;
            body2_productive = map (\<lambda>b. sb_lastIteration b > iterationIndex - 2) body2;
            body_productive = map2 (\<or>) body1_productive body2_productive
        in if none body_productive then st
           else
             (let res = map (\<lambda>(j, b1, b2). lane iterationIndex j b1 b2) (zip jointP (zip body1 body2));
                  joint_packed = fold (\<lambda>(l, r) jp. jp[l := fst r]) (zip lanes res) joint_packed;
                  productive = map (\<lambda>r. snd (snd (snd r))) res;
                  solveBodies = storeindexed4 (map (\<lambda>r. fst (snd r)) res) (map body1Index jointP) solveBodies;
                  solveBodies = storeindexed4 (map (\<lambda>r. fst (snd (snd r))) res) (map body2Index jointP) solveBodies
              in (productive_any \<or> any productive, solveBodies, joint_packed))))"

text \<open>
  The loop \<^verbatim>\<open>for (jointIndex = jointStart; jointIndex < jointStart + jointCount;
  jointIndex += VN)\<close> visits the positions \<open>jointStart + g * VN\<close> for
  \<open>g < ceil (jointCount / VN)\<close>.
\<close>

definition batch_starts :: "nat \<Rightarrow> nat \<Rightarrow> nat \<Rightarrow> nat list" where
  "batch_starts VN jointStart jointCount =
     map (\<lambda>g. jointStart + g * VN) [0 ..< (jointCount + VN - 1) div VN]"

text \<open>
  \<^verbatim>\<open>Solver::SolveJointsImpulsesSoA<VN, N>\<close>, lines 694-850, on the impulse channel
  \<^verbatim>\<open>solveBodiesImpulse\<close>, and \<^verbatim>\<open>Solver::SolveJointsDisplacementSoA<VN, N>\<close>, lines
  1233-1337, on \<^verbatim>\<open>solveBodiesDisplacement\<close>.
\<close>

definition SolveJointsImpulsesSoA ::
  "nat \<Rightarrow> nat \<Rightarrow> nat \<Rightarrow> int \<Rightarrow> SolveBody list \<times> ContactJoint list
     \<Rightarrow> bool \<times> SolveBody list \<times> ContactJoint list"
where
  "SolveJointsImpulsesSoA VN jointStart jointCount iterationIndex s =
     fold (batch_SoA impulse_lane VN iterationIndex) (batch_starts VN jointStart jointCount)
       (False, fst s, snd s)"

definition SolveJointsDisplacementSoA ::
  "nat \<Rightarrow> nat \<Rightarrow> nat \<Rightarrow> int \<Rightarrow> SolveBody list \<times> ContactJoint list
     \<Rightarrow> bool \<times> SolveBody list \<times> ContactJoint list"
where
  "SolveJointsDisplacementSoA VN jointStart jointCount iterationIndex s =
     fold (batch_SoA displacement_lane VN iterationIndex) (batch_starts VN jointStart jointCount)
       (False, fst s, snd s)"

subsection \<open>The 16-wide FMA kernels\<close>

text \<open>
  The fused multiply-add intrinsics of the 16-wide kernels: \<^verbatim>\<open>_mm256_fmadd_ps(a, b, c)\<close> is
  \<open>a * b + c\<close> and \<^verbatim>\<open>_mm256_fnmadd_ps(a, b, c)\<close> is \<open>- (a * b) + c\<close>, each with the one
  rounding of \<open>fma32\<close>.  The other intrinsics of these kernels are \<^verbatim>\<open>_mm256_add_ps\<close>,
  \<^verbatim>\<open>_mm256_sub_ps\<close> and \<^verbatim>\<open>_mm256_mul_ps\<close> (\<open>+\<close>, \<open>-\<close>, \<open>*\<close>), \<^verbatim>\<open>_mm256_xor_ps\<close> with the sign bit
  (unary \<open>-\<close>), \<^verbatim>\<open>_mm256_andnot_ps\<close> with the sign bit (\<open>\<bar>_\<bar>\<close>), \<^verbatim>\<open>_mm256_max_ps\<close> (\<open>max_ps\<close>),
  \<^verbatim>\<open>_mm256_cmp_ps\<close> with \<^verbatim>\<open>_CMP_GT_OQ\<close> (\<open>>\<close>, false when an operand is NaN) and
  \<^verbatim>\<open>_mm256_blendv_ps\<close> (\<open>select\<close>).
\<close>

definition fmadd :: "cfloat \<Rightarrow> cfloat \<Rightarrow> cfloat \<Rightarrow> cfloat" where
  "fmadd a b c = fma32 a b c"

definition fnmadd :: "cfloat \<Rightarrow> cfloat \<Rightarrow> cfloat \<Rightarrow> cfloat" where
  "fnmadd a b c = fma32 (- a) b c"

text \<open>
  Lines 996-1008 (and 1024-1037, 1453-1465): the relative velocity as the sum of one
  chain of \<open>fnmadd\<close> per body, the first starting from \<open>dV\<close> and the second from 0.
\<close>

definition fnmadd_projections ::
  "Limiter \<Rightarrow> cfloat \<Rightarrow> cfloat \<Rightarrow> cfloat \<Rightarrow> cfloat \<Rightarrow> cfloat \<Rightarrow> cfloat \<Rightarrow> cfloat \<Rightarrow> cfloat"
where
  "fnmadd_projections l dV v1x v1y w1 v2x v2y w2 =
     (let dV1 = fnmadd (normalProjector1_x l) v1x dV;
          dV1 = fnmadd (normalProjector1_y l) v1y dV1;
          dV1 = fnmadd (angularProjector1 l) w1 dV1;
          dV2 = fnmadd (normalProjector2_x l) v2x 0;
          dV2 = fnmadd (normalProjector2_y l) v2y dV2;
          dV2 = fnmadd (angularProjector2 l) w2 dV2
      in dV1 + dV2)"

definition relative_velocity_FMA :: "Limiter \<Rightarrow> cfloat \<Rightarrow> SolveBody \<Rightarrow> SolveBody \<Rightarrow> cfloat" where
  "relative_velocity_FMA l dV body1 body2 =
     fnmadd_projections l dV
       (sb_velocity_x body1) (sb_velocity_y body1) (sb_angularVelocity body1)
       (sb_velocity_x body2) (sb_velocity_y body2) (sb_angularVelocity body2)"

text \<open>Three consecutive \<open>fmadd\<close> on the registers of one body (lines 1014-1016 and alike).\<close>

definition sb_fmadd_velocity :: "SolveBody \<Rightarrow> cfloat \<Rightarrow> cfloat \<Rightarrow> cfloat \<Rightarrow> cfloat \<Rightarrow> SolveBody" where
  "sb_fmadd_velocity b cx cy cw deltaImpulse =
     b\<lparr>sb_velocity_x := fmadd cx deltaImpulse (sb_velocity_x b),
       sb_velocity_y := fmadd cy deltaImpulse (sb_velocity_y b),
       sb_angularVelocity := fmadd cw deltaImpulse (sb_angularVelocity b)\<rparr>"

text \<open>
  Lines 996-1060 and 1138-1150 for one of the sixteen lanes (the two halves of eight
  lanes run the same statements).  The friction cap (lines 1040-1051) is the
  statement sequence of \<open>friction_cap_SoA\<close> written with intrinsics: \<open>andnot\<close> with the
  sign bit is \<open>abs\<close>, \<open>xor\<close> with the sign bit of the force is \<open>flipsign\<close>, \<open>blendv\<close> is
  \<open>select\<close>.
\<close>

definition impulse_lane_FMA ::
  "int \<Rightarrow> ContactJoint \<Rightarrow> SolveBody \<Rightarrow> SolveBody \<Rightarrow> ContactJoint \<times> SolveBody \<times> SolveBody \<times> bool"
where
  "impulse_lane_FMA iterationIndex jointP body1 body2 =
     (let n = normalLimiter jointP;
          f = frictionLimiter jointP;
          normaldV = relative_velocity_FMA n (dstVelocity n) body1 body2;
          normalDeltaImpulse = normaldV * compInvMass n;
          normalDeltaImpulse = max_ps normalDeltaImpulse (- accumulatedImpulse n);
          body1 = sb_fmadd_velocity body1 (compMass1_linear_x n) (compMass1_linear_y n)
              (compMass1_angular n) normalDeltaImpulse;
          body2 = sb_fmadd_velocity body2 (compMass2_linear_x n) (compMass2_linear_y n)
              (compMass2_angular n) normalDeltaImpulse;
          n = n\<lparr>accumulatedImpulse := accumulatedImpulse n + normalDeltaImpulse\<rparr>;
          frictiondV = relative_velocity_FMA f 0 body1 body2;
          frictionDeltaImpulse = friction_cap_SoA (accumulatedImpulse n) (accumulatedImpulse f)
              (frictiondV * compInvMass f);
          f = f\<lparr>accumulatedImpulse := accumulatedImpulse f + frictionDeltaImpulse\<rparr>;
          body1 = sb_fmadd_velocity body1 (compMass1_linear_x f) (compMass1_linear_y f)
              (compMass1_angular f) frictionDeltaImpulse;
          body2 = sb_fmadd_velocity body2 (compMass2_linear_x f) (compMass2_linear_y f)
              (compMass2_angular f) frictionDeltaImpulse;
          cumulativeImpulse = max_ps \<bar>normalDeltaImpulse\<bar> \<bar>frictionDeltaImpulse\<bar>;
          productive = cumulativeImpulse > kProductiveImpulse;
          body1 = body1\<lparr>sb_lastIteration := select (sb_lastIteration body1) iterationIndex productive\<rparr>;
          body2 = body2\<lparr>sb_lastIteration := select (sb_lastIteration body2) iterationIndex productive\<rparr>
      in (jointP\<lparr>normalLimiter := n, frictionLimiter := f\<rparr>, body1, body2, productive))"

text \<open>Lines 1453-1519 for one lane: the 16-wide displacement kernel.\<close>

definition displacement_lane_FMA ::
  "int \<Rightarrow> ContactJoint \<Rightarrow> SolveBody \<Rightarrow> SolveBody \<Rightarrow> ContactJoint \<times> SolveBody \<times> SolveBody \<times> bool"
where
  "displacement_lane_FMA iterationIndex jointP body1 body2 =
     (let n = normalLimiter jointP;
          dV = relative_velocity_FMA n (dstDisplacingVelocity n) body1 body2;
          displacingDeltaImpulse = dV * compInvMass n;
          displacingDeltaImpulse = max_ps displacingDeltaImpulse (- accumulatedDisplacingImpulse n);
          body1 = sb_fmadd_velocity body1 (compMass1_linear_x n) (compMass1_linear_y n)
              (compMass1_angular n) displacingDeltaImpulse;
          body2 = sb_fmadd_velocity body2 (compMass2_linear_x n) (compMass2_linear_y n)
              (compMass2_angular n) displacingDeltaImpulse;
          n = n\<lparr>accumulatedDisplacingImpulse := accumulatedDisplacingImpulse n + displacingDeltaImpulse\<rparr>;
          productive = \<bar>displacingDeltaImpulse\<bar> > kProductiveImpulse;
          body1 = body1\<lparr>sb_lastIteration := select (sb_lastIteration body1) iterationIndex productive\<rparr>;
          body2 = body2\<lparr>sb_lastIteration := select (sb_lastIteration body2) iterationIndex productive\<rparr>
      in (jointP\<lparr>normalLimiter := n\<rparr>, body1, body2, productive))"

text \<open>
  One trip through the loop of a 16-wide kernel (lines 868-1225, 1355-1594): all
  sixteen lanes are loaded (lines 878-918), the batch is left alone when no lane has
  \<open>max\<close> of its two tags above \<open>iterationIndex - 2\<close> (lines 920-928), and the bodies are
  stored lane by lane, body 1 then body 2 of each lane (lines 1168-1225).
\<close>

definition batch_FMA ::
  "(int \<Rightarrow> ContactJoint \<Rightarrow> SolveBody \<Rightarrow> SolveBody \<Rightarrow> ContactJoint \<times> SolveBody \<times> SolveBody \<times> bool)
     \<Rightarrow> int \<Rightarrow> nat \<Rightarrow> bool \<times> SolveBody list \<times> ContactJoint list
     \<Rightarrow> bool \<times> SolveBody list \<times> ContactJoint list"
where
  "batch_FMA lane iterationIndex i st =
     (case st of (productive_any, solveBodies, joint_packed) \<Rightarrow>
       (let lanes = [i ..< i + 16];
            jointP = map (\<lambda>l. joint_packed ! l) lanes;
            body1 = map (\<lambda>j. solveBodies ! body1Index j) jointP;
            body2 = map (\<lambda>j. solveBodies ! body2Index j) jointP;
            body_lastIteration = map2 (\<lambda>b1 b2. max (sb_lastIteration b1) (sb_lastIteration b2)) body1 body2;
            body_productive = map (\<lambda>t. t > iterationIndex - 2) body_lastIteration
        in if \<not> list_ex (\<lambda>b. b) body_productive then st
           else
             (let res = map (\<lambda>(j, b1, b2). lane iterationIndex j b1 b2) (zip jointP (zip body1 body2));
                  joint_packed = fold (\<lambda>(l, r) jp. jp[l := fst r]) (zip lanes res) joint_packed;
                  productive = map (\<lambda>r. snd (snd (snd r))) res;
                  solveBodies = fold (\<lambda>(j, r) sb. sb[body1Index j := fst (snd r),
                                                       body2Index j := fst (snd (snd r))])
                                  (zip jointP res) solveBodies
              in (productive_any \<or> list_ex (\<lambda>b. b) productive, solveBodies, joint_packed))))"

text \<open>
  \<^verbatim>\<open>Solver::SolveJointsImpulsesSoA_FMA\<close>, lines 853-1229, and
  \<^verbatim>\<open>Solver::SolveJointsDisplacementSoA_FMA\<close>, lines 1340-1598.
\<close>

definition SolveJointsImpulsesSoA_FMA ::
  "nat \<Rightarrow> nat \<Rightarrow> int \<Rightarrow> SolveBody list \<times> ContactJoint list
     \<Rightarrow> bool \<times> SolveBody list \<times> ContactJoint list"
where
  "SolveJointsImpulsesSoA_FMA jointStart jointCount iterationIndex s =
     fold (batch_FMA impulse_lane_FMA iterationIndex) (batch_starts 16 jointStart jointCount)
       (False, fst s, snd s)"

definition SolveJointsDisplacementSoA_FMA ::
  "nat \<Rightarrow> nat \<Rightarrow> int \<Rightarrow> SolveBody list \<times> ContactJoint list
     \<Rightarrow> bool \<times> SolveBody list \<times> ContactJoint list"
where
  "SolveJointsDisplacementSoA_FMA jointStart jointCount iterationIndex s =
     fold (batch_FMA displacement_lane_FMA iterationIndex) (batch_starts 16 jointStart jointCount)
       (False, fst s, snd s)"

section \<open>The drivers\<close>

text \<open>
  Every driver runs the same two loops (lines 161-166, 172-177, 192-197, 203-208,
  223-231, ...):
  \<^verbatim>\<open>for (i = 0; i < count; i++) { bool productive = pass(i); if (!productive) break; }\<close>
  \<open>solve_loop pass count i s\<close> is the loop from index \<open>i\<close> on, where \<open>pass\<close> maps the
  iteration index and the state to the \<^verbatim>\<open>productive\<close> flag and the new state.
\<close>

function solve_loop :: "(int \<Rightarrow> 's \<Rightarrow> bool \<times> 's) \<Rightarrow> int \<Rightarrow> int \<Rightarrow> 's \<Rightarrow> 's" where
  "solve_loop pass iterationsCount iterationIndex s =
     (if iterationIndex < iterationsCount then
        (case pass iterationIndex s of
           (productive, s') \<Rightarrow>
             if \<not> productive then s'
             else solve_loop pass iterationsCount (iterationIndex + 1) s')
      else s)"
  by pat_completeness auto
termination
  by (relation "measure (\<lambda>(pass, c, i, s). nat (c - i))") auto

declare solve_loop.simps [simp del]

text \<open>
  The passes the loop runs, as the list of their iteration indices with the flag
  each returned.  The loop left through \<^verbatim>\<open>break\<close> exactly when the list is not empty
  and its last flag is \<open>False\<close>.
\<close>

function solve_loop_passes :: "(int \<Rightarrow> 's \<Rightarrow> bool \<times> 's) \<Rightarrow> int \<Rightarrow> int \<Rightarrow> 's \<Rightarrow> (int \<times> bool) list" where
  "solve_loop_passes pass iterationsCount iterationIndex s =
     (if iterationIndex < iterationsCount then
        (case pass iterationIndex s of
           (productive, s') \<Rightarrow>
             (iterationIndex, productive) #
               (if \<not> productive then []
                else solve_loop_passes pass iterationsCount (iterationIndex + 1) s'))
      else [])"
  by pat_completeness auto
termination
  by (relation "measure (\<lambda>(pass, c, i, s). nat (c - i))") auto

declare solve_loop_passes.simps [simp del]

definition left_by_break :: "(int \<times> bool) list \<Rightarrow> bool" where
  "left_by_break passes = (passes \<noteq> [] \<and> \<not> snd (last passes))"

subsection \<open>AoS\<close>

text \<open>\<^verbatim>\<open>Solver::SolvePrepareAoS\<close>, lines 400-409.\<close>

definition SolvePrepareAoS :: "RigidBody list \<Rightarrow> RigidBody list" where
  "SolvePrepareAoS bodies =
     map (\<lambda>b. b\<lparr>lastIteration := - 1, lastDisplacementIteration := - 1\<rparr>) bodies"

text \<open>\<^verbatim>\<open>Solver::SolveFinishAoS\<close>, lines 411-426.\<close>

definition SolveFinishAoS :: "RigidBody list \<Rightarrow> ContactJoint list \<Rightarrow> cfloat" where
  "SolveFinishAoS bodies contactJoints =
     (let iterationSum =
            fold (\<lambda>jointIndex iterationSum.
                    (let joint = contactJoints ! jointIndex;
                         body1 = bodies ! body1Index joint;
                         body2 = bodies ! body2Index joint;
                         iterationSum = iterationSum + (max (lastIteration body1) (lastIteration body2) + 2)
                     in iterationSum + (max (lastDisplacementIteration body1)
                                            (lastDisplacementIteration body2) + 2)))
                 [0 ..< length contactJoints] (0 :: int)
      in float_div (float_of_int iterationSum) (float_of_int (int (length contactJoints))))"

text \<open>
  The two loops of \<^verbatim>\<open>Solver::SolveJointsAoS\<close>, lines 158-178, from the prepared bodies,
  and the function itself, lines 152-181.  The result is the body array and the
  joints as the call leaves them, with the returned \<^verbatim>\<open>float\<close>.
\<close>

definition impulse_pass_AoS :: "int \<Rightarrow> RigidBody list \<times> ContactJoint list
    \<Rightarrow> bool \<times> RigidBody list \<times> ContactJoint list" where
  "impulse_pass_AoS iterationIndex s = SolveJointsImpulsesAoS 0 (length (snd s)) iterationIndex s"

definition displacement_pass_AoS :: "int \<Rightarrow> RigidBody list \<times> ContactJoint list
    \<Rightarrow> bool \<times> RigidBody list \<times> ContactJoint list" where
  "displacement_pass_AoS iterationIndex s = SolveJointsDisplacementAoS 0 (length (snd s)) iterationIndex s"

definition SolveJointsAoS ::
  "RigidBody list \<Rightarrow> ContactJoint list \<Rightarrow> int \<Rightarrow> int \<Rightarrow> RigidBody list \<times> ContactJoint list \<times> cfloat"
where
  "SolveJointsAoS bodies contactJoints contactIterationsCount penetrationIterationsCount =
     (let s = (SolvePrepareAoS bodies, contactJoints);
          s = solve_loop impulse_pass_AoS contactIterationsCount 0 s;
          s = solve_loop displacement_pass_AoS penetrationIterationsCount 0 s
      in (fst s, snd s, SolveFinishAoS (fst s) (snd s)))"

subsection \<open>SoA\<close>

text \<open>
  The state of a SoA solve between prepare and finish: the two channels of
  \<^verbatim>\<open>SolveBody\<close>, the permutation, the packed lanes and the size of the grouped prefix.
\<close>

record SoAState =
  solveBodiesImpulse :: "SolveBody list"
  solveBodiesDisplacement :: "SolveBody list"
  joint_index_SoA :: "nat list"
  joint_packed :: "ContactJoint list"
  groupOffset_SoA :: nat

text \<open>
  \<^verbatim>\<open>Solver::SolvePrepareSoA\<close>, lines 428-505.  \<open>joint_index0\<close> is \<^verbatim>\<open>joint_index\<close> after the
  resize of line 451.  The result is \<open>None\<close> when the grouping does not return.
\<close>

definition SolvePrepareSoA ::
  "RigidBody list \<Rightarrow> ContactJoint list \<Rightarrow> nat list \<Rightarrow> nat \<Rightarrow> SoAState option"
where
  "SolvePrepareSoA bodies contactJoints joint_index0 groupSizeTarget =
     (let sbI = map (\<lambda>b. \<lparr>sb_velocity_x = velocity_x b, sb_velocity_y = velocity_y b,
                           sb_angularVelocity = angularVelocity b, sb_lastIteration = - 1\<rparr>) bodies;
          sbD = map (\<lambda>b. \<lparr>sb_velocity_x = displacingVelocity_x b, sb_velocity_y = displacingVelocity_y b,
                           sb_angularVelocity = displacingAngularVelocity b, sb_lastIteration = - 1\<rparr>) bodies;
          jointCount = length contactJoints
      in case SolvePrepareIndicesSoA contactJoints joint_index0 (length bodies) groupSizeTarget of
           None \<Rightarrow> None
         | Some (ji, groupOffset) \<Rightarrow>
             Some \<lparr>solveBodiesImpulse = sbI, solveBodiesDisplacement = sbD, joint_index_SoA = ji,
                    joint_packed = map (\<lambda>i. contactJoints ! (ji ! i)) [0 ..< jointCount],
                    groupOffset_SoA = groupOffset\<rparr>)"

text \<open>
  \<^verbatim>\<open>Solver::SolveFinishSoA\<close>, lines 507-552: the bodies get the two channels back (lines
  514-521), the joints their three accumulators (lines 525-535), and the diagnostic is
  summed over the packed lanes (lines 537-551).
\<close>

definition SolveFinishSoA ::
  "RigidBody list \<Rightarrow> ContactJoint list \<Rightarrow> SoAState \<Rightarrow> RigidBody list \<times> ContactJoint list \<times> cfloat"
where
  "SolveFinishSoA bodies contactJoints s =
     (let bodies' =
            map (\<lambda>i. (bodies ! i)\<lparr>
                    velocity_x := sb_velocity_x (solveBodiesImpulse s ! i),
                    velocity_y := sb_velocity_y (solveBodiesImpulse s ! i),
                    angularVelocity := sb_angularVelocity (solveBodiesImpulse s ! i),
                    displacingVelocity_x := sb_velocity_x (solveBodiesDisplacement s ! i),
                    displacingVelocity_y := sb_velocity_y (solveBodiesDisplacement s ! i),
                    displacingAngularVelocity := sb_angularVelocity (solveBodiesDisplacement s ! i)\<rparr>)
                [0 ..< length bodies];
          jointCount = length contactJoints;
          contactJoints' =
            fold (\<lambda>i cj.
                    (let joint = cj ! (joint_index_SoA s ! i);
                         jointP = joint_packed s ! i
                     in cj[joint_index_SoA s ! i := joint\<lparr>
                          normalLimiter := (normalLimiter joint)\<lparr>
                            accumulatedImpulse := accumulatedImpulse (normalLimiter jointP),
                            accumulatedDisplacingImpulse := accumulatedDisplacingImpulse (normalLimiter jointP)\<rparr>,
                          frictionLimiter := (frictionLimiter joint)\<lparr>
                            accumulatedImpulse := accumulatedImpulse (frictionLimiter jointP)\<rparr>\<rparr>]))
                 [0 ..< jointCount] contactJoints;
          iterationSum =
            fold (\<lambda>i iterationSum.
                    (let jointP = joint_packed s ! i;
                         bi1 = body1Index jointP;
                         bi2 = body2Index jointP;
                         iterationSum = iterationSum
                           + (max (sb_lastIteration (solveBodiesImpulse s ! bi1))
                                  (sb_lastIteration (solveBodiesImpulse s ! bi2)) + 2)
                     in iterationSum
                           + (max (sb_lastIteration (solveBodiesDisplacement s ! bi1))
                                  (sb_lastIteration (solveBodiesDisplacement s ! bi2)) + 2)))
                 [0 ..< jointCount] (0 :: int)
      in (bodies', contactJoints', float_div (float_of_int iterationSum) (float_of_int (int jointCount))))"

text \<open>
  A pass of a SoA driver acts on one channel and the packed lanes.  The wide drivers
  run the wide kernel over the grouped prefix and then the width-1 kernel over the
  tail, and or the two flags (lines 225-228); both kernels always run.
\<close>

definition impulse_pass_SoA_Scalar :: "nat \<Rightarrow> int \<Rightarrow> SolveBody list \<times> ContactJoint list
    \<Rightarrow> bool \<times> SolveBody list \<times> ContactJoint list" where
  "impulse_pass_SoA_Scalar jointCount iterationIndex s =
     SolveJointsImpulsesSoA 1 0 jointCount iterationIndex s"

definition displacement_pass_SoA_Scalar :: "nat \<Rightarrow> int \<Rightarrow> SolveBody list \<times> ContactJoint list
    \<Rightarrow> bool \<times> SolveBody list \<times> ContactJoint list" where
  "displacement_pass_SoA_Scalar jointCount iterationIndex s =
     SolveJointsDisplacementSoA 1 0 jointCount iterationIndex s"

definition wide_pass ::
  "(nat \<Rightarrow> nat \<Rightarrow> int \<Rightarrow> SolveBody list \<times> ContactJoint list \<Rightarrow> bool \<times> SolveBody list \<times> ContactJoint list)
   \<Rightarrow> (nat \<Rightarrow> nat \<Rightarrow> int \<Rightarrow> SolveBody list \<times> ContactJoint list \<Rightarrow> bool \<times> SolveBody list \<times> ContactJoint list)
   \<Rightarrow> nat \<Rightarrow> nat \<Rightarrow> int \<Rightarrow> SolveBody list \<times> ContactJoint list
   \<Rightarrow> bool \<times> SolveBody list \<times> ContactJoint list"
where
  "wide_pass wide scalar groupOffset jointCount iterationIndex s =
     (let productive = False;
          r1 = wide 0 groupOffset iterationIndex s;
          productive = (productive \<or> fst r1);
          r2 = scalar groupOffset (jointCount - groupOffset) iterationIndex (snd r1);
          productive = (productive \<or> fst r2)
      in (productive, snd r2))"

text \<open>
  The body shared by the SoA drivers after prepare: the impulse loop on the impulse
  channel, the displacement loop on the displacement channel, then finish.
\<close>

definition solve_SoA ::
  "(int \<Rightarrow> SolveBody list \<times> ContactJoint list \<Rightarrow> bool \<times> SolveBody list \<times> ContactJoint list)
   \<Rightarrow> (int \<Rightarrow> SolveBody list \<times> ContactJoint list \<Rightarrow> bool \<times> SolveBody list \<times> ContactJoint list)
   \<Rightarrow> RigidBody list \<Rightarrow> ContactJoint list \<Rightarrow> int \<Rightarrow> int \<Rightarrow> SoAState
   \<Rightarrow> RigidBody list \<times> ContactJoint list \<times> cfloat"
where
  "solve_SoA impulse_pass displacement_pass bodies contactJoints
       contactIterationsCount penetrationIterationsCount s =
     (let r = solve_loop impulse_pass contactIterationsCount 0 (solveBodiesImpulse s, joint_packed s);
          s = s\<lparr>solveBodiesImpulse := fst r, joint_packed := snd r\<rparr>;
          r = solve_loop displacement_pass penetrationIterationsCount 0
                (solveBodiesDisplacement s, joint_packed s);
          s = s\<lparr>solveBodiesDisplacement := fst r, joint_packed := snd r\<rparr>
      in SolveFinishSoA bodies contactJoints s)"

text \<open>\<^verbatim>\<open>Solver::SolveJointsSoA_Scalar\<close>, lines 183-212.\<close>

definition SolveJointsSoA_Scalar ::
  "RigidBody list \<Rightarrow> ContactJoint list \<Rightarrow> nat list \<Rightarrow> int \<Rightarrow> int
     \<Rightarrow> (RigidBody list \<times> ContactJoint list \<times> cfloat) option"
where
  "SolveJointsSoA_Scalar bodies contactJoints joint_index0
       contactIterationsCount penetrationIterationsCount =
     (case SolvePrepareSoA bodies contactJoints joint_index0 1 of
        None \<Rightarrow> None
      | Some s \<Rightarrow>
          Some (solve_SoA (impulse_pass_SoA_Scalar (length contactJoints))
                  (displacement_pass_SoA_Scalar (length contactJoints))
                  bodies contactJoints contactIterationsCount penetrationIterationsCount s))"

text \<open>
  \<^verbatim>\<open>Solver::SolveJointsSoA_SSE2\<close> (lines 214-249) and \<^verbatim>\<open>Solver::SolveJointsSoA_AVX2\<close> (lines
  252-287) are the same text with the width 4 and 8.
\<close>

definition SolveJointsSoA_SIMD ::
  "nat \<Rightarrow> RigidBody list \<Rightarrow> ContactJoint list \<Rightarrow> nat list \<Rightarrow> int \<Rightarrow> int
     \<Rightarrow> (RigidBody list \<times> ContactJoint list \<times> cfloat) option"
where
  "SolveJointsSoA_SIMD VN bodies contactJoints joint_index0
       contactIterationsCount penetrationIterationsCount =
     (case SolvePrepareSoA bodies contactJoints joint_index0 VN of
        None \<Rightarrow> None
      | Some s \<Rightarrow>
          Some (solve_SoA
                  (wide_pass (SolveJointsImpulsesSoA VN) (SolveJointsImpulsesSoA 1)
                     (groupOffset_SoA s) (length contactJoints))
                  (wide_pass (SolveJointsDisplacementSoA VN) (SolveJointsDisplacementSoA 1)
                     (groupOffset_SoA s) (length contactJoints))
                  bodies contactJoints contactIterationsCount penetrationIterationsCount s))"

definition SolveJointsSoA_SSE2 ::
  "RigidBody list \<Rightarrow> ContactJoint list \<Rightarrow> nat list \<Rightarrow> int \<Rightarrow> int
     \<Rightarrow> (RigidBody list \<times> ContactJoint list \<times> cfloat) option"
where
  "SolveJointsSoA_SSE2 = SolveJointsSoA_SIMD 4"

definition SolveJointsSoA_AVX2 ::
  "RigidBody list \<Rightarrow> ContactJoint list \<Rightarrow> nat list \<Rightarrow> int \<Rightarrow> int
     \<Rightarrow> (RigidBody list \<times> ContactJoint list \<times> cfloat) option"
where
  "SolveJointsSoA_AVX2 = SolveJointsSoA_SIMD 8"

text \<open>\<^verbatim>\<open>Solver::SolveJointsSoA_FMA\<close>, lines 291-326.\<close>

definition SolveJointsSoA_FMA ::
  "RigidBody list \<Rightarrow> ContactJoint list \<Rightarrow> nat list \<Rightarrow> int \<Rightarrow> int
     \<Rightarrow> (RigidBody list \<times> ContactJoint list \<times> cfloat) option"
where
  "SolveJointsSoA_FMA bodies contactJoints joint_index0
       contactIterationsCount penetrationIterationsCount =
     (case SolvePrepareSoA bodies contactJoints joint_index0 16 of
        None \<Rightarrow> None
      | Some s \<Rightarrow>
          Some (solve_SoA
                  (wide_pass SolveJointsImpulsesSoA_FMA (SolveJointsImpulsesSoA 1)
                     (groupOffset_SoA s) (length contactJoints))
                  (wide_pass SolveJointsDisplacementSoA_FMA (SolveJointsDisplacementSoA 1)
                     (groupOffset_SoA s) (length contactJoints))
                  bodies contactJoints contactIterationsCount penetrationIterationsCount s))"

section \<open>Predicates and derived forms used by the theorems\<close>

text \<open>
  The bounds of the accumulator invariant on one joint (or one packed lane), in the
  arithmetic of the source: both normal accumulators are at least zero, and the
  friction accumulator is within the friction cone of the normal one, the cap being
  the product the kernels compute.
\<close>

definition accumulators_ok :: "ContactJoint \<Rightarrow> bool" where
  "accumulators_ok j \<longleftrightarrow>
     0 \<le> accumulatedImpulse (normalLimiter j) \<and>
     0 \<le> accumulatedDisplacingImpulse (normalLimiter j) \<and>
     \<bar>accumulatedImpulse (frictionLimiter j)\<bar> \<le> accumulatedImpulse (normalLimiter j) * kFrictionCoefficient"

text \<open>
  What remains of the bounds when NaN and rounding are accounted for.  A normal
  accumulator is NaN or at least zero.  When the cap and the friction accumulator
  before and after an update are finite, the friction accumulator exceeds the cap
  by no more than the rounding of the two operations that move it onto the cap.
\<close>

definition not_negative :: "cfloat \<Rightarrow> bool" where
  "not_negative x \<longleftrightarrow> x = NaN \<or> 0 \<le> x"

definition signs_ok :: "ContactJoint \<Rightarrow> bool" where
  "signs_ok j \<longleftrightarrow>
     not_negative (accumulatedImpulse (normalLimiter j)) \<and>
     not_negative (accumulatedDisplacingImpulse (normalLimiter j))"

definition friction_bounded :: "ContactJoint \<Rightarrow> ContactJoint \<Rightarrow> bool" where
  "friction_bounded j j' \<longleftrightarrow>
     (case (accumulatedImpulse (normalLimiter j') * kFrictionCoefficient,
            accumulatedImpulse (frictionLimiter j'),
            accumulatedImpulse (frictionLimiter j)) of
        (Finite c, Finite b, Finite a) \<Rightarrow> \<bar>b\<bar> \<le> c + (c + \<bar>a\<bar>) / 2 ^ 22 + 1 / 2 ^ 148
      | _ \<Rightarrow> True)"

text \<open>A joint both of whose limiters have \<^verbatim>\<open>compInvMass = 0\<close>.\<close>

definition degenerate :: "ContactJoint \<Rightarrow> bool" where
  "degenerate j \<longleftrightarrow> compInvMass (normalLimiter j) = 0 \<and> compInvMass (frictionLimiter j) = 0"

text \<open>
  What a kernel of the template does at width 1 to a joint it does not skip (lines
  736-846 with a single lane): run the lane arithmetic on the two loaded bodies,
  or the lane's flag into \<^verbatim>\<open>productive_any\<close>, store body 1, then body 2, and the
  accumulators.
\<close>

definition update_SoA1 ::
  "(int \<Rightarrow> ContactJoint \<Rightarrow> SolveBody \<Rightarrow> SolveBody \<Rightarrow> ContactJoint \<times> SolveBody \<times> SolveBody \<times> bool)
     \<Rightarrow> int \<Rightarrow> nat \<Rightarrow> bool \<times> SolveBody list \<times> ContactJoint list
     \<Rightarrow> bool \<times> SolveBody list \<times> ContactJoint list"
where
  "update_SoA1 lane iterationIndex i st =
     (case st of (productive_any, solveBodies, jp) \<Rightarrow>
        (case lane iterationIndex (jp ! i) (solveBodies ! body1Index (jp ! i))
                (solveBodies ! body2Index (jp ! i)) of
           (jointP', body1', body2', productive) \<Rightarrow>
             (productive_any \<or> productive,
              solveBodies[body1Index (jp ! i) := body1', body2Index (jp ! i) := body2'],
              jp[i := jointP'])))"

subsection \<open>A contact between two bodies\<close>

text \<open>
  Two bodies and a contact between them, with dyadic coefficients, and the same
  contact with both ends on body 0.
\<close>

definition normal_row :: Limiter where
  "normal_row = \<lparr>normalProjector1_x = Finite 0, normalProjector1_y = Finite (- 1),
     normalProjector2_x = Finite 0, normalProjector2_y = Finite 1,
     angularProjector1 = Finite 0, angularProjector2 = Finite (1 / 2),
     compMass1_linear_x = Finite 0, compMass1_linear_y = Finite (- (1 / 2)),
     compMass2_linear_x = Finite 0, compMass2_linear_y = Finite 1,
     compMass1_angular = Finite 0, compMass2_angular = Finite (1 / 4),
     compInvMass = Finite (1 / 2), accumulatedImpulse = Finite 0, dstVelocity = Finite 1,
     dstDisplacingVelocity = Finite (1 / 2), accumulatedDisplacingImpulse = Finite 0\<rparr>"

definition friction_row :: Limiter where
  "friction_row = \<lparr>normalProjector1_x = Finite (- 1), normalProjector1_y = Finite 0,
     normalProjector2_x = Finite 1, normalProjector2_y = Finite 0,
     angularProjector1 = Finite 0, angularProjector2 = Finite (1 / 2),
     compMass1_linear_x = Finite (- (1 / 2)), compMass1_linear_y = Finite 0,
     compMass2_linear_x = Finite 1, compMass2_linear_y = Finite 0,
     compMass1_angular = Finite 0, compMass2_angular = Finite (1 / 4),
     compInvMass = Finite (1 / 2), accumulatedImpulse = Finite 0, dstVelocity = Finite 0,
     dstDisplacingVelocity = Finite 0, accumulatedDisplacingImpulse = Finite 0\<rparr>"

definition body_a :: RigidBody where
  "body_a = \<lparr>velocity_x = Finite 1, velocity_y = Finite 0, angularVelocity = Finite 0,
     displacingVelocity_x = Finite 0, displacingVelocity_y = Finite 0,
     displacingAngularVelocity = Finite 0, lastIteration = 5, lastDisplacementIteration = 7\<rparr>"

definition body_b :: RigidBody where
  "body_b = \<lparr>velocity_x = Finite 0, velocity_y = Finite (- 1), angularVelocity = Finite 0,
     displacingVelocity_x = Finite 0, displacingVelocity_y = Finite 0,
     displacingAngularVelocity = Finite 0, lastIteration = 5, lastDisplacementIteration = 7\<rparr>"

definition contact_ab :: ContactJoint where
  "contact_ab = \<lparr>body1Index = 0, body2Index = 1, normalLimiter = normal_row,
     frictionLimiter = friction_row\<rparr>"

definition contact_aa :: ContactJoint where
  "contact_aa = \<lparr>body1Index = 0, body2Index = 0, normalLimiter = normal_row,
     frictionLimiter = friction_row\<rparr>"

text \<open>Body \<open>body_a\<close> with a NaN velocity component.\<close>

definition body_nan :: RigidBody where
  "body_nan = body_a\<lparr>velocity_y := NaN\<rparr>"

section \<open>Relating the two layouts\<close>

text \<open>
  The term one joint adds to \<^verbatim>\<open>iterationSum\<close>: lines 422-423 of \<^verbatim>\<open>SolveFinishAoS\<close>, read
  from the bodies, and lines 545-548 of \<^verbatim>\<open>SolveFinishSoA\<close>, read from the two channels.
\<close>

definition joint_iterations_AoS :: "RigidBody list \<Rightarrow> ContactJoint \<Rightarrow> int" where
  "joint_iterations_AoS bodies j =
     (max (lastIteration (bodies ! body1Index j)) (lastIteration (bodies ! body2Index j)) + 2)
   + (max (lastDisplacementIteration (bodies ! body1Index j))
          (lastDisplacementIteration (bodies ! body2Index j)) + 2)"

definition joint_iterations_SoA :: "SolveBody list \<Rightarrow> SolveBody list \<Rightarrow> ContactJoint \<Rightarrow> int" where
  "joint_iterations_SoA sbI sbD j =
     (max (sb_lastIteration (sbI ! body1Index j)) (sb_lastIteration (sbI ! body2Index j)) + 2)
   + (max (sb_lastIteration (sbD ! body1Index j)) (sb_lastIteration (sbD ! body2Index j)) + 2)"

text \<open>
  The impulse channel and the displacement channel of a body, as the \<^verbatim>\<open>SolveBody\<close> that
  the SoA kernels work on (the fields lines 441-447 copy, with the channel's tag),
  and a body with one channel replaced.
\<close>

definition imp_view :: "RigidBody \<Rightarrow> SolveBody" where
  "imp_view b = \<lparr>sb_velocity_x = velocity_x b, sb_velocity_y = velocity_y b,
     sb_angularVelocity = angularVelocity b, sb_lastIteration = lastIteration b\<rparr>"

definition disp_view :: "RigidBody \<Rightarrow> SolveBody" where
  "disp_view b = \<lparr>sb_velocity_x = displacingVelocity_x b, sb_velocity_y = displacingVelocity_y b,
     sb_angularVelocity = displacingAngularVelocity b, sb_lastIteration = lastDisplacementIteration b\<rparr>"

definition set_imp :: "RigidBody \<Rightarrow> SolveBody \<Rightarrow> RigidBody" where
  "set_imp b v = b\<lparr>velocity_x := sb_velocity_x v, velocity_y := sb_velocity_y v,
     angularVelocity := sb_angularVelocity v, lastIteration := sb_lastIteration v\<rparr>"

definition set_disp :: "RigidBody \<Rightarrow> SolveBody \<Rightarrow> RigidBody" where
  "set_disp b v = b\<lparr>displacingVelocity_x := sb_velocity_x v, displacingVelocity_y := sb_velocity_y v,
     displacingAngularVelocity := sb_angularVelocity v, lastDisplacementIteration := sb_lastIteration v\<rparr>"

text \<open>
  A joint without its three accumulators: the part of a joint that no kernel
  writes (body indices, projectors, masses, targets).
\<close>

definition static_part :: "ContactJoint \<Rightarrow> ContactJoint" where
  "static_part j = j\<lparr>
     normalLimiter := (normalLimiter j)\<lparr>accumulatedImpulse := 0, accumulatedDisplacingImpulse := 0\<rparr>,
     frictionLimiter := (frictionLimiter j)\<lparr>accumulatedImpulse := 0\<rparr>\<rparr>"

text \<open>
  What a pass on one channel leaves alone: the number of bodies, the channel
  \<open>other\<close> of every body, and the static part of every joint.
\<close>

definition frame ::
  "(RigidBody \<Rightarrow> SolveBody) \<Rightarrow> RigidBody list \<Rightarrow> ContactJoint list
     \<Rightarrow> RigidBody list \<Rightarrow> ContactJoint list \<Rightarrow> bool" where
  "frame other bs0 js0 bs js \<longleftrightarrow>
     length bs = length bs0 \<and> map other bs = map other bs0 \<and> map static_part js = map static_part js0"

text \<open>
  The six velocity components of a body.  They are what \<^verbatim>\<open>SolveFinishSoA\<close> writes back
  (lines 514-521); the SoA drivers never write the two tags of a \<^verbatim>\<open>RigidBody\<close>, which
  \<^verbatim>\<open>SolveJointsAoS\<close> uses as its working tags.
\<close>

definition body_motion :: "RigidBody \<Rightarrow> cfloat \<times> cfloat \<times> cfloat \<times> cfloat \<times> cfloat \<times> cfloat" where
  "body_motion b = (velocity_x b, velocity_y b, angularVelocity b,
     displacingVelocity_x b, displacingVelocity_y b, displacingAngularVelocity b)"

section \<open>What one pass does to the accumulators\<close>

text \<open>
  The relation between a joint before (\<open>j\<close>) and after (\<open>j'\<close>) an update by an
  impulse kernel: the normal accumulator is NaN or at least zero, the displacing
  accumulator is the one before, and the friction accumulator is within the cap up
  to rounding.  For a displacement kernel: the displacing accumulator is NaN or at
  least zero and the two other accumulators are the ones before.
\<close>

definition impulse_step_ok :: "ContactJoint \<Rightarrow> ContactJoint \<Rightarrow> bool" where
  "impulse_step_ok j j' \<longleftrightarrow>
     not_negative (accumulatedImpulse (normalLimiter j')) \<and>
     accumulatedDisplacingImpulse (normalLimiter j') = accumulatedDisplacingImpulse (normalLimiter j) \<and>
     friction_bounded j j'"

definition displacement_step_ok :: "ContactJoint \<Rightarrow> ContactJoint \<Rightarrow> bool" where
  "displacement_step_ok j j' \<longleftrightarrow>
     not_negative (accumulatedDisplacingImpulse (normalLimiter j')) \<and>
     accumulatedImpulse (normalLimiter j') = accumulatedImpulse (normalLimiter j) \<and>
     accumulatedImpulse (frictionLimiter j') = accumulatedImpulse (frictionLimiter j)"

text \<open>
  A pass visits each position of the joint array at most once, so after the pass
  every joint is the one before the pass or is related to it by the step relation.
  \<open>pass_inv\<close> is the loop invariant: positions from \<open>p\<close> on are still untouched.
\<close>

definition pass_ok ::
  "(ContactJoint \<Rightarrow> ContactJoint \<Rightarrow> bool) \<Rightarrow> ContactJoint list \<Rightarrow> ContactJoint list \<Rightarrow> bool" where
  "pass_ok R js0 js \<longleftrightarrow>
     length js = length js0 \<and> (\<forall>l < length js0. js ! l = js0 ! l \<or> R (js0 ! l) (js ! l))"

definition pass_inv ::
  "(ContactJoint \<Rightarrow> ContactJoint \<Rightarrow> bool) \<Rightarrow> nat \<Rightarrow> ContactJoint list \<Rightarrow> ContactJoint list \<Rightarrow> bool" where
  "pass_inv R p js0 js \<longleftrightarrow>
     pass_ok R js0 js \<and> (\<forall>l < length js0. p \<le> l \<longrightarrow> js ! l = js0 ! l)"

section \<open>Finite inputs\<close>

text \<open>
  A finite value of the binary32 grid, and a finite value.  A joint is finite when
  every float field of its two limiters is; a body when its three velocity
  components are.
\<close>

definition finite32 :: "cfloat \<Rightarrow> bool" where
  "finite32 v \<longleftrightarrow> (case v of Finite x \<Rightarrow> round32 x = Finite x | _ \<Rightarrow> False)"

definition is_finite :: "cfloat \<Rightarrow> bool" where
  "is_finite v \<longleftrightarrow> (case v of Finite x \<Rightarrow> True | _ \<Rightarrow> False)"

definition finite_limiter :: "Limiter \<Rightarrow> bool" where
  "finite_limiter l \<longleftrightarrow>
     finite32 (normalProjector1_x l) \<and> finite32 (normalProjector1_y l) \<and>
     finite32 (normalProjector2_x l) \<and> finite32 (normalProjector2_y l) \<and>
     finite32 (angularProjector1 l) \<and> finite32 (angularProjector2 l) \<and>
     finite32 (compMass1_linear_x l) \<and> finite32 (compMass1_linear_y l) \<and>
     finite32 (compMass2_linear_x l) \<and> finite32 (compMass2_linear_y l) \<and>
     finite32 (compMass1_angular l) \<and> finite32 (compMass2_angular l) \<and>
     finite32 (compInvMass l) \<and> finite32 (accumulatedImpulse l) \<and>
     finite32 (dstVelocity l) \<and> finite32 (dstDisplacingVelocity l) \<and>
     finite32 (accumulatedDisplacingImpulse l)"

definition finite_joint :: "ContactJoint \<Rightarrow> bool" where
  "finite_joint j \<longleftrightarrow> finite_limiter (normalLimiter j) \<and> finite_limiter (frictionLimiter j)"

definition finite_body :: "SolveBody \<Rightarrow> bool" where
  "finite_body b \<longleftrightarrow>
     finite32 (sb_velocity_x b) \<and> finite32 (sb_velocity_y b) \<and> finite32 (sb_angularVelocity b)"

text \<open>
  The three relative velocities a joint's kernels compute from the impulse channel
  (\<open>v1\<close>, \<open>v2\<close>) and the displacement channel (\<open>d1\<close>, \<open>d2\<close>) of its two bodies are
  finite: the sums of products of lines 571-577, 606-609 and 659-665 (template:
  757-763, 791-797; FMA kernel: the \<^verbatim>\<open>fnmadd\<close> chains) did not overflow.
\<close>

definition relative_velocities_finite ::
  "ContactJoint \<Rightarrow> SolveBody \<Rightarrow> SolveBody \<Rightarrow> SolveBody \<Rightarrow> SolveBody \<Rightarrow> bool" where
  "relative_velocities_finite j v1 v2 d1 d2 \<longleftrightarrow>
     is_finite (relative_velocity_SoA (normalLimiter j) (dstVelocity (normalLimiter j)) v1 v2) \<and>
     is_finite (relative_velocity_SoA (frictionLimiter j) 0 v1 v2) \<and>
     is_finite (relative_velocity_SoA (normalLimiter j) (dstDisplacingVelocity (normalLimiter j)) d1 d2)"


section \<open>The passes a driver performs\<close>

text \<open>
  The passes of the two loops of \<^verbatim>\<open>SolveJointsAoS\<close> (lines 161-177) and of a SoA
  driver (lines 192-208), as \<open>solve_loop_passes\<close> lists them: the iteration index of
  each pass with its productive flag.  The displacement loop starts from the joints
  the impulse loop left.
\<close>

definition passes_AoS ::
  "RigidBody list \<Rightarrow> ContactJoint list \<Rightarrow> int \<Rightarrow> int \<Rightarrow> (int \<times> bool) list \<times> (int \<times> bool) list" where
  "passes_AoS bodies contactJoints contactIterationsCount penetrationIterationsCount =
     (let s = (SolvePrepareAoS bodies, contactJoints)
      in (solve_loop_passes impulse_pass_AoS contactIterationsCount 0 s,
          solve_loop_passes displacement_pass_AoS penetrationIterationsCount 0
            (solve_loop impulse_pass_AoS contactIterationsCount 0 s)))"

definition passes_SoA ::
  "(int \<Rightarrow> SolveBody list \<times> ContactJoint list \<Rightarrow> bool \<times> SolveBody list \<times> ContactJoint list)
   \<Rightarrow> (int \<Rightarrow> SolveBody list \<times> ContactJoint list \<Rightarrow> bool \<times> SolveBody list \<times> ContactJoint list)
   \<Rightarrow> int \<Rightarrow> int \<Rightarrow> SoAState \<Rightarrow> (int \<times> bool) list \<times> (int \<times> bool) list" where
  "passes_SoA impulse_pass displacement_pass contactIterationsCount penetrationIterationsCount s =
     (let r = solve_loop impulse_pass contactIterationsCount 0 (solveBodiesImpulse s, joint_packed s)
      in (solve_loop_passes impulse_pass contactIterationsCount 0 (solveBodiesImpulse s, joint_packed s),
          solve_loop_passes displacement_pass penetrationIterationsCount 0
            (solveBodiesDisplacement s, snd r)))"

section \<open>Scenes with a joint of zero \<^verbatim>\<open>compInvMass\<close>\<close>

text \<open>
  The contact \<open>contact_ab\<close> with \<^verbatim>\<open>compInvMass = 0\<close> on both limiters; the same with the
  projector \<^verbatim>\<open>normalProjector1.y\<close> of the normal limiter set to \<open>-2\<close>; and the body
  \<open>body_a\<close> with the velocity component \<open>2^127\<close>, a finite \<^verbatim>\<open>float\<close> whose double is
  not one.
\<close>

definition heavy_contact :: ContactJoint where
  "heavy_contact = contact_ab\<lparr>normalLimiter := normal_row\<lparr>compInvMass := 0\<rparr>,
     frictionLimiter := friction_row\<lparr>compInvMass := 0\<rparr>\<rparr>"



section \<open>Grouping: proofs\<close>

lemma mset_swap_remove:
  assumes "i < length xs"
  shows "mset (butlast (xs[i := last xs])) + {#xs ! i#} = mset xs"
proof (cases xs rule: rev_cases)
  case Nil
  with assms show ?thesis by simp
next
  case (snoc ys l)
  show ?thesis
  proof (cases "i = length ys")
    case True
    with snoc show ?thesis by simp
  next
    case False
    with assms snoc have lt: "i < length ys" by simp
    then have "(ys @ [l])[i := l] = ys[i := l] @ [l]" by (simp add: list_update_append)
    with snoc lt show ?thesis by (simp add: mset_update nth_append)
  qed
qed

lemma length_swap_remove:
  "i < length xs \<Longrightarrow> length (butlast (xs[i := last xs])) = length xs - 1"
  by simp

lemma take_Suc_update:
  "k < length xs \<Longrightarrow> take (Suc k) (xs[k := v]) = take k xs @ [v]"
  by (simp add: take_Suc_conv_app_nth)

lemma perm_inv_accept:
  assumes inv: "perm_inv n acc s" and i: "i < length (jointGroup_joints s)"
  shows "perm_inv n (Suc acc)
           (s\<lparr>jointGroup_bodies := gb,
              joint_index := (joint_index s)[acc := jointGroup_joints s ! i],
              jointGroup_joints := butlast ((jointGroup_joints s)[i := last (jointGroup_joints s)])\<rparr>)"
proof -
  from inv i have acc: "acc < length (joint_index s)" by (auto simp: perm_inv_def)
  have m: "mset (butlast ((jointGroup_joints s)[i := last (jointGroup_joints s)])) + {#jointGroup_joints s ! i#}
            = mset (jointGroup_joints s)"
    by (rule mset_swap_remove [OF i])
  from inv have "mset (take acc (joint_index s)) + mset (jointGroup_joints s) = mset [0..<n]"
    by (simp add: perm_inv_def)
  have "mset (take acc (joint_index s) @ [jointGroup_joints s ! i])
        + mset (butlast ((jointGroup_joints s)[i := last (jointGroup_joints s)]))
      = mset (take acc (joint_index s))
        + (mset (butlast ((jointGroup_joints s)[i := last (jointGroup_joints s)])) + {#jointGroup_joints s ! i#})"
    by simp
  also have "\<dots> = mset (take acc (joint_index s)) + mset (jointGroup_joints s)"
    by (simp only: m)
  also have "\<dots> = mset [0..<n]" by fact
  finally have "mset (take acc (joint_index s) @ [jointGroup_joints s ! i])
        + mset (butlast ((jointGroup_joints s)[i := last (jointGroup_joints s)])) = mset [0..<n]" .
  with inv i acc show ?thesis
    by (simp add: perm_inv_def take_Suc_update)
qed

lemma gather_group_perm:
  "perm_inv n (off + gs) s \<Longrightarrow> gather_group js K t off i gs s = (gs', s') \<Longrightarrow>
     perm_inv n (off + gs') s' \<and> gs \<le> gs' \<and>
     take (off + gs) (joint_index s') = take (off + gs) (joint_index s) \<and>
     (gs \<le> K \<longrightarrow> gs' \<le> K) \<and>
     length (jointGroup_joints s') + gs' = length (jointGroup_joints s) + gs"
proof (induction js K t off i gs s rule: gather_group.induct)
  case (1 js K t off i gs s)
  show ?case
  proof (cases "i < length (jointGroup_joints s) \<and> gs < K")
    case False
    with "1.prems" show ?thesis by (auto simp: gather_group.simps [of js K t off i gs s])
  next
    case True
    let ?j = "jointGroup_joints s ! i"
    let ?joint = "js ! ?j"
    show ?thesis
    proof (cases "jointGroup_bodies s ! body1Index ?joint < t \<and> jointGroup_bodies s ! body2Index ?joint < t")
      case acc: True
      let ?s1 = "s\<lparr>jointGroup_bodies := (jointGroup_bodies s)[body1Index ?joint := t, body2Index ?joint := t],
                   joint_index := (joint_index s)[off + gs := ?j],
                   jointGroup_joints := butlast ((jointGroup_joints s)[i := last (jointGroup_joints s)])\<rparr>"
      from True have i: "i < length (jointGroup_joints s)" by simp
      have inv1: "perm_inv n (off + (gs + 1)) ?s1"
        using perm_inv_accept [OF "1.prems"(1) i] by simp
      from "1.prems"(2) True acc have run: "gather_group js K t off i (gs + 1) ?s1 = (gs', s')"
        by (simp add: gather_group.simps [of js K t off i gs s] Let_def)
      from "1.IH"(1) [OF True refl refl acc inv1 run]
      have IH: "perm_inv n (off + gs') s'" "gs + 1 \<le> gs'"
        "take (off + (gs + 1)) (joint_index s') = take (off + (gs + 1)) (joint_index ?s1)"
        "gs + 1 \<le> K \<longrightarrow> gs' \<le> K"
        "length (jointGroup_joints s') + gs' = length (jointGroup_joints ?s1) + (gs + 1)"
        by auto
      from IH(3) have "take (off + gs) (take (off + (gs + 1)) (joint_index s'))
            = take (off + gs) (take (off + (gs + 1)) (joint_index ?s1))" by simp
      then have tk: "take (off + gs) (joint_index s') = take (off + gs) (joint_index s)"
        by (simp add: min_def)
      from IH(5) i have len: "length (jointGroup_joints s') + gs' = length (jointGroup_joints s) + gs"
        by simp
      from IH(1,2,4) tk len True show ?thesis by auto
    next
      case rej: False
      from "1.prems"(2) True rej have run: "gather_group js K t off (i + 1) gs s = (gs', s')"
        by (simp add: gather_group.simps [of js K t off i gs s] Let_def)
      from "1.IH"(2) [OF True refl refl rej "1.prems"(1) run] show ?thesis .
    qed
  qed
qed

lemma group_rounds_perm:
  "0 < K \<Longrightarrow> perm_inv n off s \<Longrightarrow>
     \<exists>off' s'. group_rounds js K t off s = Some (off', s') \<and> perm_inv n off' s' \<and>
        take off (joint_index s') = take off (joint_index s) \<and> off \<le> off'"
proof (induction "length (jointGroup_joints s)" arbitrary: t off s rule: less_induct)
  case less
  show ?case
  proof (cases "K \<le> length (jointGroup_joints s)")
    case False
    with less.prems show ?thesis
      by (subst group_rounds.simps) simp
  next
    case True
    obtain gs s1 where g: "gather_group js K (t + 1) off 0 0 s = (gs, s1)"
      by (cases "gather_group js K (t + 1) off 0 0 s")
    from less.prems(2) have "perm_inv n (off + 0) s" by simp
    from gather_group_perm [OF this g]
    have p1: "perm_inv n (off + gs) s1"
      and tk: "take off (joint_index s1) = take off (joint_index s)"
      and le: "gs \<le> K"
      and len: "length (jointGroup_joints s1) + gs = length (jointGroup_joints s)"
      by auto
    show ?thesis
    proof (cases "gs < K")
      case brk: True
      with True g p1 tk show ?thesis
        by (subst group_rounds.simps) simp
    next
      case False
      with le have eq: "gs = K" by simp
      with len less.prems(1) have "length (jointGroup_joints s1) < length (jointGroup_joints s)"
        by simp
      from less.hyps [OF this less.prems(1) p1, of "t + 1"]
      obtain off' s' where r: "group_rounds js K (t + 1) (off + gs) s1 = Some (off', s')"
        "perm_inv n off' s'" "take (off + gs) (joint_index s') = take (off + gs) (joint_index s1)"
        "off + gs \<le> off'" by blast
      from r(3) have "take off (take (off + gs) (joint_index s')) = take off (take (off + gs) (joint_index s1))"
        by simp
      then have "take off (joint_index s') = take off (joint_index s1)" by (simp add: min_def)
      with tk r(1,2,4) True g eq show ?thesis
        by (subst group_rounds.simps) simp
    qed
  qed
qed

lemma drop_update_head:
  assumes "k < length xs"
  shows "(drop k xs)[0 := v] = v # drop (Suc k) xs"
proof -
  from assms have "drop k xs = xs ! k # drop (Suc k) xs"
    by (simp add: Cons_nth_drop_Suc)
  then show ?thesis by simp
qed

lemma fold_fill_prefix:
  "k \<le> length w \<Longrightarrow> off + length w = length ji \<Longrightarrow>
     fold (\<lambda>i ji. ji[off + i := w ! i]) [0..<k] ji = take off ji @ take k w @ drop (off + k) ji"
proof (induction k)
  case 0
  then show ?case by simp
next
  case (Suc k)
  then have IH: "fold (\<lambda>i ji. ji[off + i := w ! i]) [0..<k] ji = take off ji @ take k w @ drop (off + k) ji"
    by simp
  from Suc.prems have k: "k < length w" "off + k < length ji" by simp_all
  have "(take off ji @ take k w @ drop (off + k) ji)[off + k := w ! k]
        = take off ji @ take k w @ (drop (off + k) ji)[0 := w ! k]"
    using k by (simp add: list_update_append min_def)
  also have "(drop (off + k) ji)[0 := w ! k] = w ! k # drop (off + Suc k) ji"
    using drop_update_head [OF k(2), of "w ! k"] by simp
  finally show ?case using k IH by (simp add: take_Suc_conv_app_nth)
qed

lemma fold_fill:
  "off + length w = length ji \<Longrightarrow>
     fold (\<lambda>i ji. ji[off + i := w ! i]) [0..<length w] ji = take off ji @ w"
  using fold_fill_prefix [of "length w" w off ji] by simp

lemma fold_identity_prefix:
  "k \<le> length ji \<Longrightarrow> fold (\<lambda>i ji. ji[i := i]) [0..<k] ji = [0..<k] @ drop k ji"
proof (induction k)
  case 0
  then show ?case by simp
next
  case (Suc k)
  then have k: "k < length ji" by simp
  have "([0..<k] @ drop k ji)[k := k] = [0..<k] @ (drop k ji)[0 := k]"
    by (simp add: list_update_append)
  also have "(drop k ji)[0 := k] = k # drop (Suc k) ji"
    using k by (rule drop_update_head)
  finally show ?case using Suc by simp
qed

lemma fold_identity:
  "length ji = n \<Longrightarrow> fold (\<lambda>i ji. ji[i := i]) [0..<n] ji = [0..<n]"
  using fold_identity_prefix [of n ji] by simp

lemma perm_inv_init:
  "length ji0 = n \<Longrightarrow>
     perm_inv n 0 \<lparr>jointGroup_bodies = gb, jointGroup_joints = [0..<n], joint_index = ji0\<rparr>"
  by (simp add: perm_inv_def)

text \<open>
  Claim C4 (permutation).  For a group size of 1, 4, 8 or 16 and joints with valid
  body indices, \<^verbatim>\<open>SolvePrepareIndicesSoA\<close> returns, and \<^verbatim>\<open>joint_index[0 .. jointCount)\<close>
  then holds every integer of \<open>[0, jointCount)\<close> exactly once; for group size 1 it is
  the identity and the returned value is \<open>jointCount\<close>.
\<close>

theorem SolvePrepareIndicesSoA_permutation:
  assumes "length joint_index0 = length contactJoints"
    and "joints_valid bodiesCount contactJoints"
    and "groupSizeTarget \<in> {1, 4, 8, 16}"
  shows "\<exists>ji r. SolvePrepareIndicesSoA contactJoints joint_index0 bodiesCount groupSizeTarget = Some (ji, r)
           \<and> mset ji = mset [0..<length contactJoints]
           \<and> (groupSizeTarget = 1 \<longrightarrow> ji = [0..<length contactJoints] \<and> r = length contactJoints)"
proof (cases "groupSizeTarget = 1")
  case True
  with assms(1) show ?thesis
    by (simp add: SolvePrepareIndicesSoA_def Let_def fold_identity)
next
  case False
  let ?n = "length contactJoints"
  let ?s0 = "\<lparr>jointGroup_bodies = replicate bodiesCount 0, jointGroup_joints = [0..<?n],
               joint_index = joint_index0\<rparr>"
  from assms(3) have K: "0 < groupSizeTarget" by auto
  from group_rounds_perm [OF K perm_inv_init [OF assms(1)], of contactJoints 0]
  obtain off s where r: "group_rounds contactJoints groupSizeTarget 0 0 ?s0 = Some (off, s)"
    and p: "perm_inv ?n off s" by blast
  from p have len: "off + length (jointGroup_joints s) = length (joint_index s)"
    and m: "mset (take off (joint_index s)) + mset (jointGroup_joints s) = mset [0..<?n]"
    by (simp_all add: perm_inv_def)
  from r False m show ?thesis
    by (simp add: SolvePrepareIndicesSoA_def Let_def fold_fill [OF len])
qed

lemma gather_group_shrinks:
  "gather_group js K t off i gs s = (gs', s') \<Longrightarrow>
     length (jointGroup_joints s') + gs' = length (jointGroup_joints s) + gs \<and>
     (gs \<le> K \<longrightarrow> gs' \<le> K) \<and>
     length (jointGroup_bodies s') = length (jointGroup_bodies s)"
proof (induction js K t off i gs s rule: gather_group.induct)
  case (1 js K t off i gs s)
  show ?case
  proof (cases "i < length (jointGroup_joints s) \<and> gs < K")
    case False
    with "1.prems" show ?thesis by (auto simp: gather_group.simps [of js K t off i gs s])
  next
    case True
    let ?j = "jointGroup_joints s ! i"
    let ?joint = "js ! ?j"
    show ?thesis
    proof (cases "jointGroup_bodies s ! body1Index ?joint < t \<and> jointGroup_bodies s ! body2Index ?joint < t")
      case acc: True
      let ?s1 = "s\<lparr>jointGroup_bodies := (jointGroup_bodies s)[body1Index ?joint := t, body2Index ?joint := t],
                   joint_index := (joint_index s)[off + gs := ?j],
                   jointGroup_joints := butlast ((jointGroup_joints s)[i := last (jointGroup_joints s)])\<rparr>"
      from "1.prems" True acc have run: "gather_group js K t off i (gs + 1) ?s1 = (gs', s')"
        by (simp add: gather_group.simps [of js K t off i gs s] Let_def)
      from "1.IH"(1) [OF True refl refl acc run] True show ?thesis by auto
    next
      case rej: False
      from "1.prems" True rej have run: "gather_group js K t off (i + 1) gs s = (gs', s')"
        by (simp add: gather_group.simps [of js K t off i gs s] Let_def)
      from "1.IH"(2) [OF True refl refl rej run] show ?thesis .
    qed
  qed
qed

lemma group_rounds_terminates:
  "0 < K \<Longrightarrow> \<exists>r. group_rounds js K t off s = Some r"
proof (induction "length (jointGroup_joints s)" arbitrary: t off s rule: less_induct)
  case less
  show ?case
  proof (cases "K \<le> length (jointGroup_joints s)")
    case False
    then show ?thesis by (subst group_rounds.simps) simp
  next
    case True
    obtain gs s1 where g: "gather_group js K (t + 1) off 0 0 s = (gs, s1)"
      by (cases "gather_group js K (t + 1) off 0 0 s")
    from gather_group_shrinks [OF g]
    have le: "gs \<le> K" and len: "length (jointGroup_joints s1) + gs = length (jointGroup_joints s)"
      by auto
    show ?thesis
    proof (cases "gs < K")
      case brk: True
      with True g show ?thesis by (subst group_rounds.simps) simp
    next
      case False
      with le have eq: "gs = K" by simp
      with len less.prems have "length (jointGroup_joints s1) < length (jointGroup_joints s)"
        by simp
      from less.hyps [OF this less.prems, of "t + 1" "off + gs"]
      obtain r where "group_rounds js K (t + 1) (off + gs) s1 = Some r" by blast
      with True g eq show ?thesis by (subst group_rounds.simps) simp
    qed
  qed
qed

lemma window_bodies_Suc:
  "window_bodies js ji off (Suc gs) =
     window_bodies js ji off gs @ [body1Index (js ! (ji ! (off + gs))), body2Index (js ! (ji ! (off + gs)))]"
  by (simp add: window_bodies_def)

lemma window_bodies_cong:
  assumes "take (start + K) ji = take (start + K) ji'"
  shows "window_bodies js ji start K = window_bodies js ji' start K"
proof -
  have "\<And>k. k < start + K \<Longrightarrow> ji ! k = ji' ! k"
  proof -
    fix k assume "k < start + K"
    then have "ji ! k = take (start + K) ji ! k" "ji' ! k = take (start + K) ji' ! k" by simp_all
    with assms show "ji ! k = ji' ! k" by simp
  qed
  then have "map (\<lambda>k. [body1Index (js ! (ji ! k)), body2Index (js ! (ji ! k))]) [start ..< start + K]
       = map (\<lambda>k. [body1Index (js ! (ji' ! k)), body2Index (js ! (ji' ! k))]) [start ..< start + K]"
    by (intro map_cong) simp_all
  then show ?thesis by (simp only: window_bodies_def)
qed

lemma window_bodies_update:
  "window_bodies js (ji[off + gs := v]) off gs = window_bodies js ji off gs"
  by (rule window_bodies_cong) simp

lemma round_inv_accept:
  assumes inv: "round_inv js t off gs s"
    and pos: "off + gs < length (joint_index s)"
    and b1: "body1Index (js ! j) < length (jointGroup_bodies s)"
    and b2: "body2Index (js ! j) < length (jointGroup_bodies s)"
    and ne: "body1Index (js ! j) \<noteq> body2Index (js ! j)"
    and t1: "jointGroup_bodies s ! body1Index (js ! j) < t"
    and t2: "jointGroup_bodies s ! body2Index (js ! j) < t"
  shows "round_inv js t off (Suc gs)
           (s\<lparr>jointGroup_bodies := (jointGroup_bodies s)[body1Index (js ! j) := t, body2Index (js ! j) := t],
              joint_index := (joint_index s)[off + gs := j],
              jointGroup_joints := w\<rparr>)"
proof -
  let ?W = "window_bodies js (joint_index s) off gs"
  from inv have st: "\<And>b. b \<in> set ?W \<Longrightarrow> jointGroup_bodies s ! b = t" and d: "distinct ?W"
    by (auto simp: round_inv_def)
  from st t1 have n1: "body1Index (js ! j) \<notin> set ?W" by auto
  from st t2 have n2: "body2Index (js ! j) \<notin> set ?W" by auto
  have W': "window_bodies js ((joint_index s)[off + gs := j]) off (Suc gs)
          = ?W @ [body1Index (js ! j), body2Index (js ! j)]"
    using pos by (simp add: window_bodies_Suc window_bodies_update)
  have "\<forall>b. b \<in> set (?W @ [body1Index (js ! j), body2Index (js ! j)]) \<longrightarrow>
          (jointGroup_bodies s)[body1Index (js ! j) := t, body2Index (js ! j) := t] ! b = t"
    using st b1 b2 by (auto simp: nth_list_update)
  moreover have "distinct (?W @ [body1Index (js ! j), body2Index (js ! j)])"
    using d n1 n2 ne by simp
  ultimately show ?thesis
    by (simp add: round_inv_def W')
qed

lemma perm_inv_work_entry:
  assumes "perm_inv n acc s" and "i < length (jointGroup_joints s)"
  shows "jointGroup_joints s ! i < n" and "acc < length (joint_index s)"
proof -
  from assms(2) have "jointGroup_joints s ! i \<in># mset (jointGroup_joints s)" by simp
  then have "jointGroup_joints s ! i \<in># mset (take acc (joint_index s)) + mset (jointGroup_joints s)"
    by simp
  with assms(1) have "jointGroup_joints s ! i \<in># mset [0..<n]" by (simp add: perm_inv_def)
  then show "jointGroup_joints s ! i < n" by simp
  from assms show "acc < length (joint_index s)" by (auto simp: perm_inv_def)
qed

lemma gather_group_round:
  "joints_valid (length (jointGroup_bodies s)) js \<Longrightarrow> no_self_joint js \<Longrightarrow>
   perm_inv (length js) (off + gs) s \<Longrightarrow> round_inv js t off gs s \<Longrightarrow>
   gather_group js K t off i gs s = (gs', s') \<Longrightarrow> round_inv js t off gs' s'"
proof (induction js K t off i gs s rule: gather_group.induct)
  case (1 js K t off i gs s)
  show ?case
  proof (cases "i < length (jointGroup_joints s) \<and> gs < K")
    case False
    with "1.prems" show ?thesis by (auto simp: gather_group.simps [of js K t off i gs s])
  next
    case True
    let ?j = "jointGroup_joints s ! i"
    let ?joint = "js ! ?j"
    show ?thesis
    proof (cases "jointGroup_bodies s ! body1Index ?joint < t \<and> jointGroup_bodies s ! body2Index ?joint < t")
      case acc: True
      let ?s1 = "s\<lparr>jointGroup_bodies := (jointGroup_bodies s)[body1Index ?joint := t, body2Index ?joint := t],
                   joint_index := (joint_index s)[off + gs := ?j],
                   jointGroup_joints := butlast ((jointGroup_joints s)[i := last (jointGroup_joints s)])\<rparr>"
      from True have i: "i < length (jointGroup_joints s)" by simp
      from perm_inv_work_entry [OF "1.prems"(3) i]
      have j: "?j < length js" and pos: "off + gs < length (joint_index s)" by simp_all
      from j have mem: "?joint \<in> set js" by simp
      from mem "1.prems"(1) have b: "body1Index ?joint < length (jointGroup_bodies s)"
        "body2Index ?joint < length (jointGroup_bodies s)"
        by (auto simp: joints_valid_def list_all_iff)
      from mem "1.prems"(2) have ne: "body1Index ?joint \<noteq> body2Index ?joint"
        by (auto simp: no_self_joint_def list_all_iff)
      have inv1: "perm_inv (length js) (off + (gs + 1)) ?s1"
        using perm_inv_accept [OF "1.prems"(3) i] by simp
      have r1: "round_inv js t off (gs + 1) ?s1"
        using round_inv_accept [OF "1.prems"(4) pos b ne] acc by simp
      have v1: "joints_valid (length (jointGroup_bodies ?s1)) js"
        using "1.prems"(1) by simp
      from "1.prems"(5) True acc have run: "gather_group js K t off i (gs + 1) ?s1 = (gs', s')"
        by (simp add: gather_group.simps [of js K t off i gs s] Let_def)
      from "1.IH"(1) [OF True refl refl acc v1 "1.prems"(2) inv1 r1 run] show ?thesis .
    next
      case rej: False
      from "1.prems"(5) True rej have run: "gather_group js K t off (i + 1) gs s = (gs', s')"
        by (simp add: gather_group.simps [of js K t off i gs s] Let_def)
      from "1.IH"(2) [OF True refl refl rej "1.prems"(1,2,3,4) run] show ?thesis .
    qed
  qed
qed

lemma round_inv_empty: "round_inv js t off 0 s"
  by (simp add: round_inv_def window_bodies_def)

lemma windows_distinct_cong:
  assumes "take bnd ji = take bnd ji'" and "windows_distinct js K bnd ji"
  shows "windows_distinct js K bnd ji'"
proof -
  have "\<And>g. K * g + K \<le> bnd \<Longrightarrow> window_bodies js ji' (K * g) K = window_bodies js ji (K * g) K"
  proof -
    fix g assume le: "K * g + K \<le> bnd"
    from assms(1) have "take (K * g + K) (take bnd ji') = take (K * g + K) (take bnd ji)" by simp
    with le have "take (K * g + K) ji' = take (K * g + K) ji" by (simp add: min_def)
    then show "window_bodies js ji' (K * g) K = window_bodies js ji (K * g) K"
      by (rule window_bodies_cong)
  qed
  with assms(2) show ?thesis by (simp add: windows_distinct_def)
qed

lemma windows_distinct_extend:
  assumes K: "0 < K" and dvd: "K dvd off"
    and old: "windows_distinct js K off ji"
    and new: "distinct (window_bodies js ji off K)"
  shows "windows_distinct js K (off + K) ji"
  unfolding windows_distinct_def
proof (intro allI impI)
  fix g assume le: "K * g + K \<le> off + K"
  from dvd obtain m where m: "off = K * m" by (auto simp: dvd_def)
  from le m K have "g \<le> m" by simp
  then consider "g < m" | "g = m" by linarith
  then show "distinct (window_bodies js ji (K * g) K)"
  proof cases
    case 1
    then have "Suc g \<le> m" by simp
    then have "K * Suc g \<le> K * m" by (rule mult_le_mono2)
    with m have "K * g + K \<le> off" by simp
    with old show ?thesis by (simp add: windows_distinct_def)
  next
    case 2
    with m new show ?thesis by simp
  qed
qed

lemma group_rounds_distinct:
  "0 < K \<Longrightarrow> joints_valid (length (jointGroup_bodies s)) js \<Longrightarrow> no_self_joint js \<Longrightarrow>
   perm_inv (length js) off s \<Longrightarrow> K dvd off \<Longrightarrow> windows_distinct js K off (joint_index s) \<Longrightarrow>
   group_rounds js K t off s = Some (off', s') \<Longrightarrow>
   windows_distinct js K ((off' div K) * K) (joint_index s') \<and> (off' div K) * K \<le> off'
     \<and> perm_inv (length js) off' s'"
proof (induction "length (jointGroup_joints s)" arbitrary: t off s rule: less_induct)
  case less
  from less.prems(5) obtain m where m: "off = K * m" by (auto simp: dvd_def)
  with less.prems(1) have offdiv: "(off div K) * K = off" by simp
  show ?case
  proof (cases "K \<le> length (jointGroup_joints s)")
    case False
    with less.prems(7) have "off' = off" "s' = s"
      by (simp_all add: group_rounds.simps [of js K t off s])
    with less.prems offdiv show ?thesis by simp
  next
    case True
    obtain gs s1 where g: "gather_group js K (t + 1) off 0 0 s = (gs, s1)"
      by (cases "gather_group js K (t + 1) off 0 0 s")
    from less.prems(4) have p0: "perm_inv (length js) (off + 0) s" by simp
    from gather_group_perm [OF p0 g]
    have p1: "perm_inv (length js) (off + gs) s1"
      and tk: "take off (joint_index s1) = take off (joint_index s)"
      and le: "gs \<le> K"
      and len: "length (jointGroup_joints s1) + gs = length (jointGroup_joints s)"
      by auto
    from gather_group_shrinks [OF g]
    have lb: "length (jointGroup_bodies s1) = length (jointGroup_bodies s)" by simp
    have r1: "round_inv js (t + 1) off gs s1"
      by (rule gather_group_round [OF less.prems(2,3) p0 round_inv_empty g])
    have w1: "windows_distinct js K off (joint_index s1)"
      by (rule windows_distinct_cong [OF tk [symmetric] less.prems(6)])
    show ?thesis
    proof (cases "gs < K")
      case brk: True
      with True g less.prems(7) have e: "off' = off + gs" "s' = s1"
        by (simp_all add: group_rounds.simps [of js K t off s])
      from brk m less.prems(1) have "(off + gs) div K = m" by simp
      with m have "((off + gs) div K) * K = off" by simp
      with e w1 p1 show ?thesis by simp
    next
      case False
      with le have eq: "gs = K" by simp
      with len less.prems(1) have sm: "length (jointGroup_joints s1) < length (jointGroup_joints s)"
        by simp
      from r1 eq have "distinct (window_bodies js (joint_index s1) off K)"
        by (simp add: round_inv_def)
      from windows_distinct_extend [OF less.prems(1,5) w1 this] eq
      have w2: "windows_distinct js K (off + gs) (joint_index s1)" by simp
      from less.prems(5) eq have d2: "K dvd off + gs" by simp
      from less.prems(2) lb have v1: "joints_valid (length (jointGroup_bodies s1)) js" by simp
      from True g eq less.prems(7) have run: "group_rounds js K (t + 1) (off + gs) s1 = Some (off', s')"
        by (simp add: group_rounds.simps [of js K t off s])
      from less.hyps [OF sm less.prems(1) v1 less.prems(3) p1 d2 w2 run] show ?thesis .
    qed
  qed
qed

text \<open>
  Claim C3 (grouping disjointness).  For a group size \<open>K\<close> of 4, 8 or 16 and joints
  none of which connects a body with itself, every \<open>K\<close>-aligned window
  \<open>[K * g, K * g + K)\<close> inside the returned \<open>groupOffset\<close> selects \<open>K\<close> joints whose \<open>2K\<close>
  body indices are pairwise distinct.
\<close>

theorem SolvePrepareIndicesSoA_disjoint:
  assumes K: "groupSizeTarget \<in> {4, 8, 16}"
    and len: "length joint_index0 = length contactJoints"
    and valid: "joints_valid bodiesCount contactJoints"
    and noself: "no_self_joint contactJoints"
    and run: "SolvePrepareIndicesSoA contactJoints joint_index0 bodiesCount groupSizeTarget = Some (ji, groupOffset)"
    and win: "groupSizeTarget * g + groupSizeTarget \<le> groupOffset"
  shows "distinct (window_bodies contactJoints ji (groupSizeTarget * g) groupSizeTarget)
         \<and> length (window_bodies contactJoints ji (groupSizeTarget * g) groupSizeTarget) = 2 * groupSizeTarget"
proof -
  let ?n = "length contactJoints"
  let ?K = groupSizeTarget
  let ?s0 = "\<lparr>jointGroup_bodies = replicate bodiesCount 0, jointGroup_joints = [0..<?n],
               joint_index = joint_index0\<rparr>"
  from K have K0: "0 < ?K" and K1: "?K \<noteq> 1" by auto
  from run K1 obtain off s where r: "group_rounds contactJoints ?K 0 0 ?s0 = Some (off, s)"
    and ji: "ji = fold (\<lambda>i ji. ji[off + i := jointGroup_joints s ! i])
                     [0..<length (jointGroup_joints s)] (joint_index s)"
    and go: "groupOffset = (off div ?K) * ?K"
    by (auto simp: SolvePrepareIndicesSoA_def Let_def split: option.splits)
  have v0: "joints_valid (length (jointGroup_bodies ?s0)) contactJoints" using valid by simp
  have w0: "windows_distinct contactJoints ?K 0 (joint_index ?s0)"
    using K0 by (simp add: windows_distinct_def)
  from group_rounds_distinct [OF K0 v0 noself perm_inv_init [OF len] _ w0 r]
  have w: "windows_distinct contactJoints ?K groupOffset (joint_index s)"
    and le: "groupOffset \<le> off" and p: "perm_inv ?n off s"
    by (simp_all add: go)
  from p have l: "off + length (jointGroup_joints s) = length (joint_index s)"
    by (simp add: perm_inv_def)
  from ji have ji': "ji = take off (joint_index s) @ jointGroup_joints s"
    by (simp add: fold_fill [OF l])
  from le l have "take groupOffset (joint_index s) = take groupOffset ji"
    by (simp add: ji')
  from windows_distinct_cong [OF this w] win
  have "distinct (window_bodies contactJoints ji (?K * g) ?K)"
    by (simp add: windows_distinct_def)
  moreover have "length (window_bodies contactJoints ji (?K * g) ?K) = 2 * ?K"
    by (simp add: window_bodies_def length_concat o_def sum_list_triv)
  ultimately show ?thesis by simp
qed

subsection \<open>The example scene, evaluated\<close>

lemma chain_scene_grouping:
  "SolvePrepareIndicesSoA chain_scene [0, 0, 0, 0, 0] 9 4 = Some ([0, 4, 3, 2, 1], 4)"
  by (simp add: SolvePrepareIndicesSoA_def chain_scene_def rest_joint_def group_rounds.simps
      gather_group.simps Let_def upt_rec)

lemma chain_scene_valid: "joints_valid 9 chain_scene"
  by (simp add: joints_valid_def chain_scene_def rest_joint_def)

lemma chain_scene_no_self: "no_self_joint chain_scene"
  by (simp add: no_self_joint_def chain_scene_def rest_joint_def)

theorem SolvePrepareIndicesSoA_permutation_witness:
  "length [0, 0, 0, 0, 0 :: nat] = length chain_scene \<and> joints_valid 9 chain_scene
   \<and> (4 :: nat) \<in> {1, 4, 8, 16}
   \<and> SolvePrepareIndicesSoA chain_scene [0, 0, 0, 0, 0] 9 4 = Some ([0, 4, 3, 2, 1], 4)
   \<and> mset [0, 4, 3, 2, 1 :: nat] = mset [0..<length chain_scene]"
proof -
  have l: "length [0, 0, 0, 0, 0 :: nat] = length chain_scene" by (simp add: chain_scene_def)
  have k: "(4 :: nat) \<in> {1, 4, 8, 16}" by simp
  from SolvePrepareIndicesSoA_permutation [OF l chain_scene_valid k]
  have "mset [0, 4, 3, 2, 1 :: nat] = mset [0..<length chain_scene]"
    by (simp add: chain_scene_grouping)
  with l k chain_scene_valid chain_scene_grouping show ?thesis by simp
qed

theorem SolvePrepareIndicesSoA_disjoint_witness:
  "(4 :: nat) \<in> {4, 8, 16} \<and> joints_valid 9 chain_scene \<and> no_self_joint chain_scene
   \<and> SolvePrepareIndicesSoA chain_scene [0, 0, 0, 0, 0] 9 4 = Some ([0, 4, 3, 2, 1], 4)
   \<and> 4 * 0 + 4 \<le> (4 :: nat)
   \<and> distinct (window_bodies chain_scene [0, 4, 3, 2, 1] (4 * 0) 4)
   \<and> window_bodies chain_scene [0, 4, 3, 2, 1] (4 * 0) 4 = [0, 1, 7, 8, 5, 6, 3, 4]"
proof -
  have l: "length [0, 0, 0, 0, 0 :: nat] = length chain_scene" by (simp add: chain_scene_def)
  have k: "(4 :: nat) \<in> {4, 8, 16}" by simp
  have w: "4 * 0 + 4 \<le> (4 :: nat)" by simp
  have e: "window_bodies chain_scene [0, 4, 3, 2, 1] (4 * 0) 4 = [0, 1, 7, 8, 5, 6, 3, 4]"
    by (simp add: window_bodies_def chain_scene_def rest_joint_def upt_rec)
  from SolvePrepareIndicesSoA_disjoint [OF k l chain_scene_valid chain_scene_no_self
      chain_scene_grouping w]
  have "distinct (window_bodies chain_scene [0, 4, 3, 2, 1] (4 * 0) 4)" by simp
  with k w e chain_scene_valid chain_scene_no_self chain_scene_grouping show ?thesis by simp
qed

text \<open>
  Claim C10 (grouping terminates).  For a group size of at least 2 and joints with
  body indices in range, \<^verbatim>\<open>SolvePrepareIndicesSoA\<close> returns.  The inner scan is a total
  function: its termination proof is the measure \<open>size - i\<close>, which each step
  decreases by incrementing \<open>i\<close> or by shrinking the work list.  A round started
  with \<open>groupSize = 0\<close> accepts at most \<open>groupSizeTarget\<close> joints and removes exactly
  the accepted ones from the work list, so a full round removes \<open>groupSizeTarget\<close>
  entries, and a round that accepts fewer ends the outer loop.
\<close>

theorem SolvePrepareIndicesSoA_terminates:
  assumes "2 \<le> groupSizeTarget" and "joints_valid bodiesCount contactJoints"
  shows "(\<exists>r. SolvePrepareIndicesSoA contactJoints joint_index0 bodiesCount groupSizeTarget = Some r)
    \<and> (\<forall>tag off s.
          fst (gather_group contactJoints groupSizeTarget tag off 0 0 s) \<le> groupSizeTarget
          \<and> length (jointGroup_joints (snd (gather_group contactJoints groupSizeTarget tag off 0 0 s)))
              + fst (gather_group contactJoints groupSizeTarget tag off 0 0 s)
              = length (jointGroup_joints s))
    \<and> (\<forall>tag off s. groupSizeTarget \<le> length (jointGroup_joints s)
          \<and> fst (gather_group contactJoints groupSizeTarget (tag + 1) off 0 0 s) < groupSizeTarget
          \<longrightarrow> group_rounds contactJoints groupSizeTarget tag off s
              = Some (off + fst (gather_group contactJoints groupSizeTarget (tag + 1) off 0 0 s),
                      snd (gather_group contactJoints groupSizeTarget (tag + 1) off 0 0 s)))"
proof -
  from assms(1) have K: "0 < groupSizeTarget" and K1: "groupSizeTarget \<noteq> 1" by simp_all
  from group_rounds_terminates [OF K]
  obtain r where "group_rounds contactJoints groupSizeTarget 0 0
      \<lparr>jointGroup_bodies = replicate bodiesCount 0, jointGroup_joints = [0..<length contactJoints],
       joint_index = joint_index0\<rparr> = Some r" by blast
  then have a: "\<exists>r. SolvePrepareIndicesSoA contactJoints joint_index0 bodiesCount groupSizeTarget = Some r"
    using K1 by (cases r) (simp add: SolvePrepareIndicesSoA_def Let_def)
  have b: "\<And>tag off s.
          fst (gather_group contactJoints groupSizeTarget tag off 0 0 s) \<le> groupSizeTarget
          \<and> length (jointGroup_joints (snd (gather_group contactJoints groupSizeTarget tag off 0 0 s)))
              + fst (gather_group contactJoints groupSizeTarget tag off 0 0 s)
              = length (jointGroup_joints s)"
  proof -
    fix tag off s
    obtain gs s' where g: "gather_group contactJoints groupSizeTarget tag off 0 0 s = (gs, s')"
      by (cases "gather_group contactJoints groupSizeTarget tag off 0 0 s")
    from gather_group_shrinks [OF g] g
    show "fst (gather_group contactJoints groupSizeTarget tag off 0 0 s) \<le> groupSizeTarget
          \<and> length (jointGroup_joints (snd (gather_group contactJoints groupSizeTarget tag off 0 0 s)))
              + fst (gather_group contactJoints groupSizeTarget tag off 0 0 s)
              = length (jointGroup_joints s)" by simp
  qed
  have c: "\<And>tag off s. groupSizeTarget \<le> length (jointGroup_joints s)
          \<and> fst (gather_group contactJoints groupSizeTarget (tag + 1) off 0 0 s) < groupSizeTarget
          \<Longrightarrow> group_rounds contactJoints groupSizeTarget tag off s
              = Some (off + fst (gather_group contactJoints groupSizeTarget (tag + 1) off 0 0 s),
                      snd (gather_group contactJoints groupSizeTarget (tag + 1) off 0 0 s))"
    by (subst group_rounds.simps) (simp add: case_prod_beta)
  from a b c show ?thesis by blast
qed

theorem SolvePrepareIndicesSoA_terminates_witness:
  "(2 :: nat) \<le> 4 \<and> joints_valid 9 chain_scene
   \<and> (\<exists>r. SolvePrepareIndicesSoA chain_scene [0, 0, 0, 0, 0] 9 4 = Some r)
   \<and> fst (gather_group chain_scene 4 1 0 0 0
          \<lparr>jointGroup_bodies = replicate 9 0, jointGroup_joints = [0, 1, 2, 3, 4],
           joint_index = [0, 0, 0, 0, 0]\<rparr>) \<le> 4"
proof -
  have k: "(2 :: nat) \<le> 4" by simp
  note t = SolvePrepareIndicesSoA_terminates [OF k chain_scene_valid, of "[0, 0, 0, 0, 0]"]
  from t have a: "\<exists>r. SolvePrepareIndicesSoA chain_scene [0, 0, 0, 0, 0] 9 4 = Some r"
    by (rule conjunct1)
  from t have "\<forall>tag off s. fst (gather_group chain_scene 4 tag off 0 0 s) \<le> 4
      \<and> length (jointGroup_joints (snd (gather_group chain_scene 4 tag off 0 0 s)))
          + fst (gather_group chain_scene 4 tag off 0 0 s) = length (jointGroup_joints s)"
    by (rule conjunct1 [OF conjunct2])
  then have b: "fst (gather_group chain_scene 4 1 0 0 0
          \<lparr>jointGroup_bodies = replicate 9 0, jointGroup_joints = [0, 1, 2, 3, 4],
           joint_index = [0, 0, 0, 0, 0]\<rparr>) \<le> 4"
    by blast
  from k chain_scene_valid a b show ?thesis by blast
qed

section \<open>Rounding to binary32\<close>

lemma round_half_even_error: "\<bar>of_int (round_half_even y) - y\<bar> \<le> 1 / 2"
proof -
  have "of_int \<lfloor>y\<rfloor> \<le> y" "y < of_int \<lfloor>y\<rfloor> + 1" by linarith+
  then show ?thesis
    by (auto simp: round_half_even_def Let_def)
qed

lemma round_half_even_of_int [simp]: "round_half_even (of_int n) = n"
  by (simp add: round_half_even_def)

lemma round_half_even_0 [simp]: "round_half_even 0 = 0"
  using round_half_even_of_int [of 0] by simp

lemma round_half_even_nonneg: "0 \<le> y \<Longrightarrow> 0 \<le> round_half_even y"
  by (auto simp: round_half_even_def Let_def)

lemma round_half_even_minus: "round_half_even (- y) = - round_half_even y"
proof (cases "y = of_int \<lfloor>y\<rfloor>")
  case True
  then have "round_half_even (- y) = round_half_even (of_int (- \<lfloor>y\<rfloor>))" by simp
  also have "\<dots> = - \<lfloor>y\<rfloor>" by (rule round_half_even_of_int)
  also have "\<dots> = - round_half_even (of_int \<lfloor>y\<rfloor>)" by simp
  finally show ?thesis using True by simp
next
  case False
  have b: "of_int \<lfloor>y\<rfloor> < y" "y < of_int \<lfloor>y\<rfloor> + 1"
    using False by linarith+
  have "real_of_int (- \<lfloor>y\<rfloor> - 1) \<le> - y" "- y < real_of_int (- \<lfloor>y\<rfloor> - 1) + 1"
    using b by (simp_all only: of_int_diff of_int_minus of_int_1)
  then have f: "\<lfloor>- y\<rfloor> = - \<lfloor>y\<rfloor> - 1"
    by (rule floor_unique)
  show ?thesis
    unfolding round_half_even_def Let_def f using b by auto
qed

lemma pow2_pos [simp]: "0 < (2 :: real) powr a"
  by simp

lemma quantum_pos [simp]: "0 < quantum x"
  by (simp add: quantum_def)

lemma quantum_nonneg [simp]: "0 \<le> quantum x"
  by (rule less_imp_le) (rule quantum_pos)

lemma quantum_nonzero [simp]: "quantum x \<noteq> 0"
proof
  assume "quantum x = 0"
  with quantum_pos [of x] show False by (simp only: less_irrefl)
qed

lemma quantum_minus [simp]: "quantum (- x) = quantum x"
  by (simp add: quantum_def)

lemma binade:
  assumes "x \<noteq> 0"
  shows "2 powr of_int \<lfloor>log 2 \<bar>x\<bar>\<rfloor> \<le> \<bar>x\<bar>" and "\<bar>x\<bar> < 2 powr (of_int \<lfloor>log 2 \<bar>x\<bar>\<rfloor> + 1)"
proof -
  from assms have "0 < \<bar>x\<bar>" by simp
  from floor_log_eq_powr_iff [OF this, of 2 "\<lfloor>log 2 \<bar>x\<bar>\<rfloor>"]
  show "2 powr of_int \<lfloor>log 2 \<bar>x\<bar>\<rfloor> \<le> \<bar>x\<bar>" and "\<bar>x\<bar> < 2 powr (of_int \<lfloor>log 2 \<bar>x\<bar>\<rfloor> + 1)"
    by simp_all
qed

lemma quantum_le: "quantum x \<le> 2 powr (- 149) + \<bar>x\<bar> / 2 ^ 23"
proof (cases "\<bar>x\<bar> < 2 powr (- 126)")
  case True
  then show ?thesis by (simp add: quantum_def)
next
  case False
  then have "x \<noteq> 0" by auto
  from binade(1) [OF this]
  have a: "2 powr (of_int \<lfloor>log 2 \<bar>x\<bar>\<rfloor> - 23) \<le> \<bar>x\<bar> / 2 ^ 23"
    by (simp add: powr_diff divide_right_mono)
  have b: "0 \<le> (2 :: real) powr (- 149)" by simp
  have "2 powr (of_int \<lfloor>log 2 \<bar>x\<bar>\<rfloor> - 23) \<le> 2 powr (- 149) + \<bar>x\<bar> / 2 ^ 23"
    using a b by linarith
  then show ?thesis using False by (simp only: quantum_def if_False)
qed

lemma round32_not_NaN [simp]: "round32 x \<noteq> NaN"
  by (simp add: round32_def Let_def)

lemma round32_0 [simp]: "round32 0 = Finite 0"
  by (simp add: round32_def)

lemma round32_minus: "round32 (- x) = - round32 x"
  by (auto simp: round32_def Let_def round_half_even_minus)

lemma round32_error:
  assumes "round32 x = Finite r"
  shows "\<bar>r - x\<bar> \<le> quantum x / 2"
proof -
  let ?q = "quantum x"
  let ?n = "round_half_even (x / ?q)"
  from assms have r: "r = ?q * of_int ?n"
    by (simp add: round32_def Let_def split: if_splits)
  have "\<bar>of_int ?n - x / ?q\<bar> \<le> 1 / 2" by (rule round_half_even_error)
  then have "?q * \<bar>of_int ?n - x / ?q\<bar> \<le> ?q * (1 / 2)"
    by (rule mult_left_mono) (rule less_imp_le [OF quantum_pos])
  moreover have "?q * \<bar>of_int ?n - x / ?q\<bar> = \<bar>?q * of_int ?n - x\<bar>"
  proof -
    have "\<bar>?q * of_int ?n - x\<bar> = \<bar>?q * (of_int ?n - x / ?q)\<bar>"
      by (simp add: right_diff_distrib)
    also have "\<dots> = ?q * \<bar>of_int ?n - x / ?q\<bar>"
      using quantum_pos [of x] by (simp add: abs_mult less_imp_le)
    finally show ?thesis by simp
  qed
  ultimately show ?thesis by (simp add: r)
qed

lemma round32_nonneg:
  assumes "0 \<le> x"
  shows "0 \<le> round32 x"
proof -
  have "0 \<le> x / quantum x" using assms quantum_pos [of x] by (simp add: less_imp_le)
  then have "0 \<le> round_half_even (x / quantum x)" by (rule round_half_even_nonneg)
  then have n: "0 \<le> quantum x * of_int (round_half_even (x / quantum x))" by simp
  show ?thesis
  proof (cases "x = 0")
    case True
    then show ?thesis by (simp add: zero_cfloat_def)
  next
    case False
    with assms have "0 < x" by simp
    with n show ?thesis by (simp add: round32_def Let_def zero_cfloat_def)
  qed
qed

lemma round32_nonpos:
  assumes "x \<le> 0"
  shows "round32 x \<le> 0"
proof -
  from assms have "0 \<le> round32 (- x)" by (intro round32_nonneg) simp
  then show ?thesis
    by (cases "round32 x") (simp_all add: round32_minus zero_cfloat_def)
qed

lemma pow2_int:
  assumes "0 \<le> j"
  shows "of_int m * 2 powr (of_int j) = real_of_int (m * 2 ^ nat j)"
proof -
  have "(2 :: real) powr (of_int j) = 2 powr (real (nat j))" using assms by simp
  also have "\<dots> = 2 ^ nat j" by (rule powr_realpow) simp
  finally show ?thesis by simp
qed

lemma quantum_pow2:
  obtains kq :: int where "- 149 \<le> kq" "quantum x = 2 powr (of_int kq)"
    "\<bar>x\<bar> < 2 powr (of_int kq + 24)"
    "\<bar>x\<bar> < 2 powr (- 126) \<Longrightarrow> kq = - 149"
    "\<not> \<bar>x\<bar> < 2 powr (- 126) \<Longrightarrow> 2 powr (of_int kq + 23) \<le> \<bar>x\<bar>"
proof (cases "\<bar>x\<bar> < 2 powr (- 126)")
  case True
  have "(2 :: real) powr (- 126) < 2 powr (of_int (- 149) + 24)" by simp
  with True have "\<bar>x\<bar> < 2 powr (of_int (- 149) + 24)" by linarith
  with True show ?thesis
    by (intro that [of "- 149"]) (simp_all add: quantum_def)
next
  case False
  then have nz: "x \<noteq> 0" by auto
  define e where "e = \<lfloor>log 2 \<bar>x\<bar>\<rfloor>"
  note b = binade [OF nz, folded e_def]
  from False b(2) have "(2 :: real) powr (- 126) < 2 powr (of_int e + 1)" by linarith
  then have "- 126 < real_of_int e + 1"
    using powr_less_cancel_iff [of 2 "- 126" "real_of_int e + 1"] by simp
  then have e: "- 126 \<le> e" by linarith
  show ?thesis
  proof (rule that [of "e - 23"])
    show "- 149 \<le> e - 23" using e by simp
    show "quantum x = 2 powr real_of_int (e - 23)" using False by (simp add: quantum_def e_def)
    have "real_of_int (e - 23) + 24 = of_int e + 1" by simp
    with b(2) show "\<bar>x\<bar> < 2 powr (real_of_int (e - 23) + 24)" by (simp add: add.commute)
    have "real_of_int (e - 23) + 23 = of_int e" by simp
    with b(1) show "2 powr (real_of_int (e - 23) + 23) \<le> \<bar>x\<bar>" by simp
    show "e - 23 = - 149" if "\<bar>x\<bar> < 2 powr (- 126)" using that False by simp
  qed
qed

lemma round32_of_multiple:
  assumes "x / quantum x = of_int n" and "\<bar>x\<bar> < 2 ^ 128"
  shows "round32 x = Finite x"
proof -
  have "quantum x * of_int (round_half_even (x / quantum x)) = quantum x * (x / quantum x)"
    by (simp add: assms(1))
  also have "\<dots> = x" by simp
  finally show ?thesis using assms(2) by (simp add: round32_def Let_def)
qed

lemma round32_exact_lt:
  assumes x: "x = of_int m * 2 powr (of_int k)" and m: "\<bar>m\<bar> < 2 ^ 24" and k: "- 149 \<le> k"
    and b: "\<bar>x\<bar> < 2 ^ 128"
  shows "round32 x = Finite x"
proof (cases "x = 0")
  case True
  then show ?thesis by simp
next
  case False
  obtain kq :: int where kq: "- 149 \<le> kq" "quantum x = 2 powr (of_int kq)"
    "\<bar>x\<bar> < 2 powr (- 126) \<Longrightarrow> kq = - 149"
    "\<not> \<bar>x\<bar> < 2 powr (- 126) \<Longrightarrow> 2 powr (of_int kq + 23) \<le> \<bar>x\<bar>"
    by (rule quantum_pow2 [of x]) blast
  have le: "kq \<le> k"
  proof (cases "\<bar>x\<bar> < 2 powr (- 126)")
    case True
    then have "kq = - 149" by (rule kq(3))
    with k show ?thesis by simp
  next
    case False
    then have "2 powr (of_int kq + 23) \<le> \<bar>x\<bar>" by (rule kq(4))
    also have "\<bar>x\<bar> = \<bar>of_int m\<bar> * 2 powr (of_int k)" by (simp add: x abs_mult)
    also have "\<dots> < 2 ^ 24 * 2 powr (of_int k)"
    proof -
      from m have "\<bar>real_of_int m\<bar> < 2 ^ 24" by (simp; linarith)
      then show ?thesis by (simp add: mult_strict_right_mono)
    qed
    also have "\<dots> = 2 powr (of_int k + 24)"
      by (simp add: powr_add)
    finally have "(2 :: real) powr (of_int kq + 23) < 2 powr (of_int k + 24)" .
    then have "of_int kq + 23 < real_of_int k + 24"
      using powr_less_cancel_iff [of 2 "of_int kq + 23" "real_of_int k + 24"] by simp
    then show ?thesis by linarith
  qed
  have "x / quantum x = x / 2 powr (of_int kq)" by (simp only: kq(2))
  also have "\<dots> = of_int m * 2 powr (of_int (k - kq))"
    by (simp add: x powr_diff)
  also have "\<dots> = real_of_int (m * 2 ^ nat (k - kq))"
    by (rule pow2_int) (use le in simp)
  finally show ?thesis using b by (rule round32_of_multiple)
qed

lemma round32_exact:
  assumes x: "x = of_int m * 2 powr (of_int k)" and m: "\<bar>m\<bar> \<le> 2 ^ 24" and k: "- 149 \<le> k"
    and b: "\<bar>x\<bar> < 2 ^ 128"
  shows "round32 x = Finite x"
proof (cases "\<bar>m\<bar> < 2 ^ 24")
  case True
  with x k b show ?thesis by (intro round32_exact_lt [of x m k]) simp_all
next
  case False
  with m have "\<bar>m\<bar> = 2 ^ 24" by simp
  then have "m = 2 ^ 24 \<or> m = - (2 ^ 24)" by linarith
  then have m2: "m = 2 * (m div 2)" "\<bar>m div 2\<bar> < 2 ^ 24" by auto
  have "(2 :: real) powr (of_int (k + 1)) = 2 powr (of_int k) * 2" by (simp add: powr_add)
  then have "x = of_int (m div 2) * 2 powr (of_int (k + 1))"
  proof -
    have "real_of_int m = real_of_int (m div 2) * 2" using m2(1) by linarith
    with x have "x = real_of_int (m div 2) * (2 powr (of_int k) * 2)" by (simp add: ac_simps)
    with \<open>(2 :: real) powr (of_int (k + 1)) = 2 powr (of_int k) * 2\<close> show ?thesis
      by (simp only:)
  qed
  with m2(2) k b show ?thesis by (intro round32_exact_lt [of x "m div 2" "k + 1"]) simp_all
qed

lemma round32_idem:
  assumes "round32 x = Finite r"
  shows "round32 r = Finite r"
proof -
  obtain kq :: int where kq: "- 149 \<le> kq" "quantum x = 2 powr (of_int kq)"
    "\<bar>x\<bar> < 2 powr (of_int kq + 24)"
    by (rule quantum_pow2 [of x]) blast
  let ?n = "round_half_even (x / quantum x)"
  from assms have r: "r = quantum x * of_int ?n" and b: "\<bar>r\<bar> < 2 ^ 128"
    by (simp_all add: round32_def Let_def split: if_splits)
  have "\<bar>x / quantum x\<bar> = \<bar>x\<bar> / 2 powr (of_int kq)" by (simp add: kq(2))
  also have "\<dots> < 2 powr (of_int kq + 24) / 2 powr (of_int kq)"
    using kq(3) by (simp add: divide_strict_right_mono)
  also have "\<dots> = 2 ^ 24" by (simp add: powr_add)
  finally have y: "\<bar>x / quantum x\<bar> < 2 ^ 24" .
  have "\<bar>real_of_int ?n - x / quantum x\<bar> \<le> 1 / 2" by (rule round_half_even_error)
  with y have "\<bar>real_of_int ?n\<bar> < 2 ^ 24 + 1" by linarith
  then have n: "\<bar>?n\<bar> \<le> 2 ^ 24" by (simp; linarith)
  have "r = of_int ?n * 2 powr (of_int kq)" by (simp add: r kq(2))
  from this n kq(1) b show ?thesis by (rule round32_exact)
qed

lemma round32_dyadic:
  assumes "\<bar>m\<bar> \<le> 2 ^ 24" and "k \<le> 149"
  shows "round32 (of_int m / 2 ^ k) = Finite (of_int m / 2 ^ k)"
proof -
  have p: "(2 :: real) powr (- real k) = 1 / 2 ^ k"
    by (simp add: powr_minus powr_realpow inverse_eq_divide)
  have x: "real_of_int m / 2 ^ k = of_int m * 2 powr (of_int (- int k))"
    by (simp add: p)
  from assms(1) have m: "\<bar>real_of_int m\<bar> \<le> 2 ^ 24" by (simp; linarith)
  have "\<bar>real_of_int m / 2 ^ k\<bar> = \<bar>real_of_int m\<bar> / 2 ^ k" by simp
  also have "\<dots> \<le> \<bar>real_of_int m\<bar> / 1"
    by (rule divide_left_mono) simp_all
  finally have "\<bar>real_of_int m / 2 ^ k\<bar> \<le> 2 ^ 24" using m by simp
  then have b: "\<bar>real_of_int m / 2 ^ k\<bar> < 2 ^ 128" by simp
  show ?thesis
    by (rule round32_exact [OF x assms(1) _ b]) (use assms(2) in simp)
qed

lemmas round32_int = round32_dyadic [where k = 0, simplified]



lemma binary32_round32 [simp]: "binary32 (round32 x)"
  by (cases "round32 x") (simp_all add: round32_idem)

lemma binary32_plus [simp]: "binary32 (a + b)"
  by (cases a; cases b) simp_all

lemma binary32_times [simp]: "binary32 (a * b)"
  by (cases a; cases b) simp_all

lemma binary32_uminus [simp]: "binary32 (- a) = binary32 a"
proof (cases a)
  case (Finite x)
  have "round32 (- x) = Finite (- x) \<longleftrightarrow> round32 x = Finite x"
    by (cases "round32 x") (simp_all add: round32_minus)
  then show ?thesis by (simp add: Finite)
qed simp_all

lemma binary32_zero [simp]: "binary32 0" "binary32 (Finite 0)"
  by (simp_all add: zero_cfloat_def)

lemma pow2_m149: "(2 :: real) powr (- 149) = 1 / 2 ^ 149"
proof -
  have a: "(2 :: real) powr 149 = 2 ^ 149" using powr_realpow [of 2 149] by simp
  have "(2 :: real) powr (- 149) = inverse (2 powr 149)" by (rule powr_minus)
  also have "\<dots> = 1 / 2 ^ 149" by (simp only: a inverse_eq_divide)
  finally show ?thesis .
qed

lemma round32_abs_error:
  assumes "round32 x = Finite r"
  shows "\<bar>r - x\<bar> \<le> 1 / 2 ^ 150 + \<bar>x\<bar> / 2 ^ 24"
proof -
  have "quantum x \<le> 1 / 2 ^ 149 + \<bar>x\<bar> / 2 ^ 23"
    using quantum_le [of x] by (simp only: pow2_m149)
  with round32_error [OF assms] show ?thesis by (simp; linarith)
qed

section \<open>The clamp and the friction cap\<close>

lemma not_less_zero: "\<not> v < (0 :: cfloat) \<Longrightarrow> not_negative v"
  by (cases v) (simp_all add: not_negative_def zero_cfloat_def)

lemma not_negative_round32: "0 \<le> x \<Longrightarrow> not_negative (round32 x)"
  by (simp add: not_negative_def round32_nonneg)

lemma plus_cfloat_commute: "a + b = b + (a :: cfloat)"
  by (cases a; cases b) (simp_all add: add.commute)

lemma clamp_AoS_not_negative: "not_negative (acc + clamp_AoS d acc)"
proof (cases "d + acc < 0")
  case True
  then have "acc + clamp_AoS d acc = acc + (- acc)" by (simp add: clamp_AoS_def)
  also have "not_negative \<dots>"
    by (cases acc) (simp_all add: not_negative_def zero_cfloat_def)
  finally show ?thesis .
next
  case False
  then have "acc + clamp_AoS d acc = d + acc"
    by (simp add: clamp_AoS_def plus_cfloat_commute)
  with False show ?thesis by (simp add: not_less_zero)
qed

lemma max_ps_not_negative: "not_negative (acc + max_ps d (- acc))"
proof (cases "- acc < d")
  case True
  then have e: "acc + max_ps d (- acc) = acc + d" by (simp add: max_ps_def)
  from True show ?thesis unfolding e
    by (cases acc; cases d)
       (simp_all add: not_negative_def zero_cfloat_def round32_nonneg [unfolded zero_cfloat_def])
next
  case False
  then have "acc + max_ps d (- acc) = acc + (- acc)" by (simp add: max_ps_def)
  also have "not_negative \<dots>"
    by (cases acc) (simp_all add: not_negative_def zero_cfloat_def)
  finally show ?thesis .
qed

lemma cap_move_bound:
  assumes c: "0 \<le> c" and F: "F = c \<or> F = - c"
    and d: "round32 (F - a) = Finite d" and b: "round32 (a + d) = Finite b"
  shows "\<bar>b\<bar> \<le> c + (c + \<bar>a\<bar>) / 2 ^ 22 + 1 / 2 ^ 148"
proof -
  define e :: real where "e = 1 / 2 ^ 150"
  define A where "A = \<bar>a\<bar>"
  define X1 where "X1 = \<bar>F - a\<bar>"
  define X2 where "X2 = \<bar>a + d\<bar>"
  define E1 where "E1 = \<bar>d - (F - a)\<bar>"
  define E2 where "E2 = \<bar>b - (a + d)\<bar>"
  define B where "B = \<bar>b\<bar>"
  have e0: "0 \<le> e" by (simp add: e_def)
  have A0: "0 \<le> A" by (simp add: A_def)
  from F c have absF: "\<bar>F\<bar> = c" by auto
  have e1: "E1 \<le> e + X1 / 16777216"
    using round32_abs_error [OF d] by (simp add: e_def E1_def X1_def)
  have e2: "E2 \<le> e + X2 / 16777216"
    using round32_abs_error [OF b] by (simp add: e_def E2_def X2_def)
  have t1: "X1 \<le> c + A" using absF unfolding A_def X1_def by linarith
  have t2: "X2 \<le> c + E1" using absF unfolding E1_def X2_def by linarith
  have t3: "B \<le> c + E1 + E2" using absF unfolding E1_def E2_def B_def by linarith
  have "B \<le> c + (c + A) / 4194304 + 4 * e"
    using e0 A0 c t1 t2 t3 e1 e2 by argo
  then show ?thesis by (simp add: e_def A_def B_def)
qed

lemma kFrictionCoefficient_pos: "kFrictionCoefficient = Finite (5033165 / 2 ^ 24)" "0 < (5033165 / 2 ^ 24 :: real)"
  by (simp_all add: kFrictionCoefficient_def)

lemma cap_finite:
  assumes "n * kFrictionCoefficient = Finite c" and "not_negative n"
  obtains \<nu> where "n = Finite \<nu>" "0 \<le> \<nu>" "0 \<le> c" "round32 (\<nu> * (5033165 / 2 ^ 24)) = Finite c"
proof (cases n)
  case (Finite \<nu>)
  with assms(2) have nu: "0 \<le> \<nu>" by (simp add: not_negative_def zero_cfloat_def)
  from assms(1) Finite have r: "round32 (\<nu> * (5033165 / 2 ^ 24)) = Finite c"
    by (simp add: kFrictionCoefficient_def)
  from nu have "0 \<le> \<nu> * (5033165 / 2 ^ 24)" by simp
  from round32_nonneg [OF this] r have "0 \<le> c" by (simp add: zero_cfloat_def)
  from Finite nu this r show ?thesis by (rule that)
qed (use assms in \<open>simp_all add: kFrictionCoefficient_def not_negative_def zero_cfloat_def\<close>)

lemma cap_not_NegInf:
  assumes "not_negative n"
  shows "n * kFrictionCoefficient \<noteq> NegInf"
proof (cases n)
  case (Finite \<nu>)
  with assms have "0 \<le> \<nu> * (5033165 / 2 ^ 24)" by (simp add: not_negative_def zero_cfloat_def)
  from round32_nonneg [OF this] show ?thesis
    by (auto simp: Finite kFrictionCoefficient_def zero_cfloat_def)
qed (use assms in \<open>simp_all add: kFrictionCoefficient_def not_negative_def zero_cfloat_def\<close>)

lemma friction_cap_AoS_SoA:
  assumes bin: "binary32 n" and nn: "not_negative n"
  shows "friction_cap_AoS n a \<delta> = friction_cap_SoA n a \<delta>"
proof (cases "n * kFrictionCoefficient < \<bar>a + \<delta>\<bar>")
  case False
  then show ?thesis
    by (simp add: friction_cap_AoS_def friction_cap_SoA_def Let_def select_def)
next
  case True
  with cap_not_NegInf [OF nn] obtain c where cap: "n * kFrictionCoefficient = Finite c"
    by (cases "n * kFrictionCoefficient"; cases "\<bar>a + \<delta>\<bar>") simp_all
  from cap nn obtain \<nu> where nu: "n = Finite \<nu>" "0 \<le> \<nu>" "0 \<le> c"
    "round32 (\<nu> * (5033165 / 2 ^ 24)) = Finite c"
    by (rule cap_finite)
  from bin nu(1) have b: "round32 \<nu> = Finite \<nu>" by simp
  then have bm: "round32 (- \<nu>) = Finite (- \<nu>)" by (simp add: round32_minus)
  have p: "1 * n * kFrictionCoefficient = Finite c"
    using cap by (simp add: nu(1) one_cfloat_def b)
  have m: "- 1 * n * kFrictionCoefficient = Finite (- c)"
  proof -
    have "- 1 * n = Finite (- \<nu>)" by (simp add: nu(1) one_cfloat_def bm)
    then have "- 1 * n * kFrictionCoefficient = round32 (- (\<nu> * (5033165 / 2 ^ 24)))"
      by (simp add: kFrictionCoefficient_def)
    also have "\<dots> = Finite (- c)" using nu(4) by (simp add: round32_minus)
    finally show ?thesis .
  qed
  have s: "sign_bit (a + \<delta>) = (\<not> 0 < a + \<delta>)"
    using True nu(3) unfolding cap
    by (cases "a + \<delta>") (auto simp: zero_cfloat_def)
  from True show ?thesis
    by (simp add: friction_cap_AoS_def friction_cap_SoA_def Let_def select_def flipsign_def
        s p m cap)
qed

lemma friction_cap_SoA_bounded:
  assumes nn: "not_negative n"
    and cap: "n * kFrictionCoefficient = Finite c"
    and a: "a = Finite \<phi>"
    and b: "a + friction_cap_SoA n a \<delta> = Finite b"
  shows "\<bar>b\<bar> \<le> c + (c + \<bar>\<phi>\<bar>) / 2 ^ 22 + 1 / 2 ^ 148"
proof -
  from cap nn obtain \<nu> where nu: "0 \<le> c" by (rule cap_finite)
  show ?thesis
  proof (cases "n * kFrictionCoefficient < \<bar>a + \<delta>\<bar>")
    case False
    then have "friction_cap_SoA n a \<delta> = \<delta>"
      by (simp add: friction_cap_SoA_def Let_def select_def)
    with b have f: "a + \<delta> = Finite b" by simp
    with False cap have "\<bar>b\<bar> \<le> c" by simp
    moreover have "0 \<le> (c + \<bar>\<phi>\<bar>) / 2 ^ 22 + 1 / 2 ^ 148" using nu by simp
    ultimately show ?thesis by linarith
  next
    case True
    define F where "F = (if sign_bit (a + \<delta>) then - c else c)"
    have Fc: "F = c \<or> F = - c" by (simp add: F_def)
    from True have adj: "friction_cap_SoA n a \<delta> = round32 (F - \<phi>)"
      by (simp add: friction_cap_SoA_def Let_def select_def flipsign_def cap a F_def minus_cfloat_def)
    show ?thesis
    proof (cases "round32 (F - \<phi>)")
      case (Finite d)
      with b adj a have "round32 (\<phi> + d) = Finite b" by simp
      from cap_move_bound [OF nu Fc Finite this] show ?thesis .
    qed (use b adj a in simp_all)
  qed
qed

section \<open>The accumulators after one pass\<close>

lemma friction_boundedI:
  assumes "\<And>c b a. accumulatedImpulse (normalLimiter j') * kFrictionCoefficient = Finite c \<Longrightarrow>
      accumulatedImpulse (frictionLimiter j') = Finite b \<Longrightarrow>
      accumulatedImpulse (frictionLimiter j) = Finite a \<Longrightarrow>
      \<bar>b\<bar> \<le> c + (c + \<bar>a\<bar>) / 2 ^ 22 + 1 / 2 ^ 148"
  shows "friction_bounded j j'"
  unfolding friction_bounded_def using assms by (auto split: cfloat.splits)

lemma impulse_accumulators_ok:
  assumes nn: "not_negative n'"
    and j': "accumulatedImpulse (normalLimiter j') = n'"
      "accumulatedImpulse (frictionLimiter j')
         = accumulatedImpulse (frictionLimiter j)
           + friction_cap_SoA n' (accumulatedImpulse (frictionLimiter j)) \<delta>"
      "accumulatedDisplacingImpulse (normalLimiter j') = accumulatedDisplacingImpulse (normalLimiter j)"
  shows "impulse_step_ok j j'"
  unfolding impulse_step_ok_def
proof (intro conjI friction_boundedI)
  show "not_negative (accumulatedImpulse (normalLimiter j'))" using nn j'(1) by simp
  show "accumulatedDisplacingImpulse (normalLimiter j') = accumulatedDisplacingImpulse (normalLimiter j)"
    by (rule j'(3))
next
  fix c b a
  assume "accumulatedImpulse (normalLimiter j') * kFrictionCoefficient = Finite c"
    "accumulatedImpulse (frictionLimiter j') = Finite b"
    "accumulatedImpulse (frictionLimiter j) = Finite a"
  then show "\<bar>b\<bar> \<le> c + (c + \<bar>a\<bar>) / 2 ^ 22 + 1 / 2 ^ 148"
    using friction_cap_SoA_bounded [OF nn, of c "accumulatedImpulse (frictionLimiter j)" a \<delta> b]
    by (simp add: j'(1,2))
qed

lemma impulse_lane_step: "impulse_step_ok j (fst (impulse_lane i j b1 b2))"
  by (rule impulse_accumulators_ok [OF max_ps_not_negative])
     (simp_all add: impulse_lane_def Let_def)

lemma impulse_lane_FMA_step: "impulse_step_ok j (fst (impulse_lane_FMA i j b1 b2))"
  by (rule impulse_accumulators_ok [OF max_ps_not_negative])
     (simp_all add: impulse_lane_FMA_def Let_def)

lemma displacement_lane_step: "displacement_step_ok j (fst (displacement_lane i j b1 b2))"
  by (simp add: displacement_lane_def Let_def displacement_step_ok_def max_ps_not_negative)

lemma displacement_lane_FMA_step: "displacement_step_ok j (fst (displacement_lane_FMA i j b1 b2))"
  by (simp add: displacement_lane_FMA_def Let_def displacement_step_ok_def max_ps_not_negative)

lemma snd_snd_if: "snd (snd (if c then (a, b, x) else (a', b', x))) = x"
  by simp

lemma impulse_update_AoS_step:
  "\<exists>j'. snd (snd (impulse_update_AoS i k (p, bs, js))) = js[k := j'] \<and> impulse_step_ok (js ! k) j'"
proof -
  define n where "n = normalLimiter (js ! k)"
  define f where "f = frictionLimiter (js ! k)"
  define d where "d = clamp_AoS (relative_velocity_AoS n (dstVelocity n) (bs ! body1Index (js ! k))
      (bs ! body2Index (js ! k)) * compInvMass n) (accumulatedImpulse n)"
  define n' where "n' = accumulatedImpulse n + d"
  define bs1 where "bs1 = apply_impulse_AoS n d (body1Index (js ! k)) (body2Index (js ! k)) bs"
  define \<delta> where "\<delta> = relative_velocity_AoS f 0 (bs1 ! body1Index (js ! k))
      (bs1 ! body2Index (js ! k)) * compInvMass f"
  define j' where "j' = (js ! k)\<lparr>normalLimiter := n\<lparr>accumulatedImpulse := n'\<rparr>,
      frictionLimiter := f\<lparr>accumulatedImpulse :=
        accumulatedImpulse f + friction_cap_AoS n' (accumulatedImpulse f) \<delta>\<rparr>\<rparr>"
  have nn: "not_negative n'" unfolding n'_def d_def by (rule clamp_AoS_not_negative)
  have bin: "binary32 n'" unfolding n'_def by simp
  have r: "snd (snd (impulse_update_AoS i k (p, bs, js))) = js[k := j']"
    unfolding impulse_update_AoS_def j'_def \<delta>_def bs1_def n'_def d_def f_def n_def
    by (simp add: Let_def snd_snd_if)
  have "impulse_step_ok (js ! k) j'"
    by (rule impulse_accumulators_ok [OF nn, where \<delta> = \<delta>])
       (simp_all add: j'_def friction_cap_AoS_SoA [OF bin nn] n_def f_def)
  with r show ?thesis by blast
qed

lemma displacement_update_AoS_step:
  "\<exists>j'. snd (snd (displacement_update_AoS i k (p, bs, js))) = js[k := j']
        \<and> displacement_step_ok (js ! k) j'"
proof -
  define n where "n = normalLimiter (js ! k)"
  define d where "d = clamp_AoS (relative_displacingVelocity_AoS n (dstDisplacingVelocity n)
      (bs ! body1Index (js ! k)) (bs ! body2Index (js ! k)) * compInvMass n)
      (accumulatedDisplacingImpulse n)"
  define j' where "j' = (js ! k)\<lparr>normalLimiter :=
      n\<lparr>accumulatedDisplacingImpulse := accumulatedDisplacingImpulse n + d\<rparr>\<rparr>"
  have r: "snd (snd (displacement_update_AoS i k (p, bs, js))) = js[k := j']"
    unfolding displacement_update_AoS_def j'_def d_def n_def
    by (simp add: Let_def snd_snd_if)
  have "displacement_step_ok (js ! k) j'"
    by (simp add: displacement_step_ok_def j'_def d_def n_def clamp_AoS_not_negative)
  with r show ?thesis by blast
qed

lemma pass_inv_init: "pass_inv R p js js"
  by (simp add: pass_inv_def pass_ok_def)

lemma pass_inv_weaken: "pass_inv R p js0 js \<Longrightarrow> p \<le> p' \<Longrightarrow> pass_inv R p' js0 js"
  by (simp add: pass_inv_def)

lemma pass_inv_nth: "pass_inv R p js0 js \<Longrightarrow> p \<le> l \<Longrightarrow> l < length js0 \<Longrightarrow> js ! l = js0 ! l"
  by (simp add: pass_inv_def)

lemma pass_inv_ok: "pass_inv R p js0 js \<Longrightarrow> pass_ok R js0 js"
  by (simp add: pass_inv_def)

lemma pass_inv_store:
  assumes "pass_inv R p js0 js" and "l < p" and "l < length js0 \<Longrightarrow> R (js0 ! l) v"
  shows "pass_inv R p js0 (js[l := v])"
proof -
  from assms(1) have len: "length js = length js0"
    and ok: "\<And>m. m < length js0 \<Longrightarrow> js ! m = js0 ! m \<or> R (js0 ! m) (js ! m)"
    and un: "\<And>m. m < length js0 \<Longrightarrow> p \<le> m \<Longrightarrow> js ! m = js0 ! m"
    by (simp_all add: pass_inv_def pass_ok_def)
  have "js[l := v] ! m = js0 ! m \<or> R (js0 ! m) (js[l := v] ! m)" if "m < length js0" for m
  proof (cases "m = l")
    case True
    with that assms(3) len show ?thesis by simp
  next
    case False
    with ok [OF that] show ?thesis by simp
  qed
  moreover have "js[l := v] ! m = js0 ! m" if "m < length js0" "p \<le> m" for m
    using un [OF that] that(2) assms(2) by simp
  ultimately show ?thesis using len by (simp add: pass_inv_def pass_ok_def)
qed

lemma fold_upt_inv:
  assumes "\<And>k st. Q k st \<Longrightarrow> Q (Suc k) (f k st)" and "Q a s"
  shows "Q (a + n) (fold f [a ..< a + n] s)"
  by (induction n) (simp_all add: assms)

lemma fold_batches_inv:
  assumes "\<And>p st. Q p st \<Longrightarrow> Q (p + VN) (f p st)" and "Q a s"
  shows "Q (a + m * VN) (fold f (map (\<lambda>g. a + g * VN) [0 ..< m]) s)"
proof (induction m)
  case 0
  then show ?case by (simp add: assms(2))
next
  case (Suc m)
  from assms(1) [OF Suc] show ?case by (simp add: ac_simps)
qed

lemma joint_AoS_inv:
  assumes inv: "pass_inv R k js0 js"
    and step: "js' = js \<or> (\<exists>j'. js' = js[k := j'] \<and> R (js ! k) j')"
  shows "pass_inv R (Suc k) js0 js'"
  using step
proof
  assume "js' = js"
  with inv show ?thesis by (simp add: pass_inv_weaken)
next
  assume "\<exists>j'. js' = js[k := j'] \<and> R (js ! k) j'"
  then obtain j' where j': "js' = js[k := j']" "R (js ! k) j'" by blast
  have "pass_inv R (Suc k) js0 (js[k := j'])"
  proof (rule pass_inv_store)
    show "pass_inv R (Suc k) js0 js" using inv by (rule pass_inv_weaken) simp
    show "k < Suc k" by simp
    show "R (js0 ! k) j'" if "k < length js0"
      using pass_inv_nth [OF inv _ that] j'(2) by simp
  qed
  with j'(1) show ?thesis by simp
qed

lemma impulse_joint_AoS_inv:
  assumes "pass_inv impulse_step_ok k js0 (snd (snd st))"
  shows "pass_inv impulse_step_ok (Suc k) js0 (snd (snd (impulse_joint_AoS i k st)))"
proof -
  obtain p bs js where st: "st = (p, bs, js)" by (cases st)
  show ?thesis
    using assms impulse_update_AoS_step [of i k p bs js] unfolding st
    by (intro joint_AoS_inv [where js = js]) (auto simp: impulse_joint_AoS_def Let_def)
qed

lemma displacement_joint_AoS_inv:
  assumes "pass_inv displacement_step_ok k js0 (snd (snd st))"
  shows "pass_inv displacement_step_ok (Suc k) js0 (snd (snd (displacement_joint_AoS i k st)))"
proof -
  obtain p bs js where st: "st = (p, bs, js)" by (cases st)
  show ?thesis
    using assms displacement_update_AoS_step [of i k p bs js] unfolding st
    by (intro joint_AoS_inv [where js = js]) (auto simp: displacement_joint_AoS_def Let_def)
qed

lemma store_lanes_inv:
  assumes "pass_inv R p js0 jp"
    and "\<And>l r. (l, r) \<in> set zs \<Longrightarrow> l < p \<and> (l < length js0 \<longrightarrow> R (js0 ! l) (fst r))"
  shows "pass_inv R p js0 (fold (\<lambda>(l, r) jp. jp[l := fst r]) zs jp)"
  using assms
proof (induction zs arbitrary: jp)
  case Nil
  then show ?case by simp
next
  case (Cons z zs)
  obtain l r where z: "z = (l, r)" by (cases z)
  from Cons.prems(2) [of l r] z have lr: "l < p" "l < length js0 \<Longrightarrow> R (js0 ! l) (fst r)" by simp_all
  from Cons.prems(1) lr have "pass_inv R p js0 (jp[l := fst r])" by (rule pass_inv_store)
  moreover have "\<And>l' r'. (l', r') \<in> set zs \<Longrightarrow> l' < p \<and> (l' < length js0 \<longrightarrow> R (js0 ! l') (fst r'))"
  proof -
    fix l' r' assume "(l', r') \<in> set zs"
    then have "(l', r') \<in> set (z # zs)" by simp
    then show "l' < p \<and> (l' < length js0 \<longrightarrow> R (js0 ! l') (fst r'))" by (rule Cons.prems(2))
  qed
  ultimately have "pass_inv R p js0 (fold (\<lambda>(l, r) jp. jp[l := fst r]) zs (jp[l := fst r]))"
    by (rule Cons.IH)
  with z show ?case by simp
qed

lemma lane_results_inv:
  assumes lane: "\<And>i j b1 b2. R j (fst (lane i j b1 b2))"
    and inv: "pass_inv R p js0 jp"
    and mem: "(l, r) \<in> set (zip [p ..< p + VN] (map (\<lambda>(j, b1, b2). lane i j b1 b2)
                (zip (map (\<lambda>l. jp ! l) [p ..< p + VN]) (zip bs1 bs2))))"
  shows "l < p + VN \<and> (l < length js0 \<longrightarrow> R (js0 ! l) (fst r))"
proof -
  from mem obtain k where k: "k < VN" "k < length bs1" "k < length bs2"
    and e: "l = [p ..< p + VN] ! k"
       "r = lane i (jp ! ([p ..< p + VN] ! k)) (bs1 ! k) (bs2 ! k)"
    by (auto simp: set_zip)
  from e(1) k(1) have l: "l = p + k" by simp
  with e(2) k(1) have r: "r = lane i (jp ! l) (bs1 ! k) (bs2 ! k)" by simp
  have "R (js0 ! l) (fst r)" if "l < length js0"
    using pass_inv_nth [OF inv _ that] lane [of "jp ! l" i "bs1 ! k" "bs2 ! k"] l r by simp
  with l k(1) show ?thesis by simp
qed

lemma batch_SoA_inv:
  assumes lane: "\<And>i j b1 b2. R j (fst (lane i j b1 b2))"
    and inv: "pass_inv R p js0 (snd (snd st))"
  shows "pass_inv R (p + VN) js0 (snd (snd (batch_SoA lane VN i p st)))"
proof -
  obtain pa sb jp where st: "st = (pa, sb, jp)" by (cases st)
  with inv have i0: "pass_inv R p js0 jp" by simp
  then have i1: "pass_inv R (p + VN) js0 jp" by (rule pass_inv_weaken) simp
  show ?thesis
    unfolding st batch_SoA_def
    by (simp add: Let_def i1 del: fold_simps)
       (intro impI store_lanes_inv [OF i1] lane_results_inv [OF lane i0], assumption+)
qed

lemma batch_FMA_inv:
  assumes lane: "\<And>i j b1 b2. R j (fst (lane i j b1 b2))"
    and inv: "pass_inv R p js0 (snd (snd st))"
  shows "pass_inv R (p + 16) js0 (snd (snd (batch_FMA lane i p st)))"
proof -
  obtain pa sb jp where st: "st = (pa, sb, jp)" by (cases st)
  with inv have i0: "pass_inv R p js0 jp" by simp
  then have i1: "pass_inv R (p + 16) js0 jp" by (rule pass_inv_weaken) simp
  show ?thesis
    unfolding st batch_FMA_def
    by (simp add: Let_def i1 del: fold_simps)
       (intro impI store_lanes_inv [OF i1] lane_results_inv [OF lane i0], assumption+)
qed

lemma pass_ok_signs_impulse:
  assumes "pass_ok impulse_step_ok js0 js" and "list_all signs_ok js0"
  shows "list_all signs_ok js"
  using assms
  by (auto simp: pass_ok_def list_all_length impulse_step_ok_def signs_ok_def)

lemma pass_ok_signs_displacement:
  assumes "pass_ok displacement_step_ok js0 js" and "list_all signs_ok js0"
  shows "list_all signs_ok js"
  using assms
  by (auto simp: pass_ok_def list_all_length displacement_step_ok_def signs_ok_def)

lemma AoS_impulse_pass_ok:
  "pass_ok impulse_step_ok joints
     (snd (snd (SolveJointsImpulsesAoS jointStart jointCount i (bodies, joints))))"
  unfolding SolveJointsImpulsesAoS_def fst_conv snd_conv
  by (rule pass_inv_ok [where p = "jointStart + jointCount"],
      rule fold_upt_inv [where Q = "\<lambda>k st. pass_inv impulse_step_ok k joints (snd (snd st))"])
     (simp_all add: impulse_joint_AoS_inv pass_inv_init)

lemma AoS_displacement_pass_ok:
  "pass_ok displacement_step_ok joints
     (snd (snd (SolveJointsDisplacementAoS jointStart jointCount i (bodies, joints))))"
  unfolding SolveJointsDisplacementAoS_def fst_conv snd_conv
  by (rule pass_inv_ok [where p = "jointStart + jointCount"],
      rule fold_upt_inv [where Q = "\<lambda>k st. pass_inv displacement_step_ok k joints (snd (snd st))"])
     (simp_all add: displacement_joint_AoS_inv pass_inv_init)

lemma SoA_pass_ok:
  assumes lane: "\<And>i j b1 b2. R j (fst (lane i j b1 b2))"
  shows "pass_ok R joints
     (snd (snd (fold (batch_SoA lane VN i) (batch_starts VN jointStart jointCount) (False, sb, joints))))"
  unfolding batch_starts_def
  by (rule pass_inv_ok [where p = "jointStart + ((jointCount + VN - 1) div VN) * VN"],
      rule fold_batches_inv [where Q = "\<lambda>k st. pass_inv R k joints (snd (snd st))"])
     (simp_all add: batch_SoA_inv [where R = R and lane = lane, OF lane] pass_inv_init)

lemma FMA_pass_ok:
  assumes lane: "\<And>i j b1 b2. R j (fst (lane i j b1 b2))"
  shows "pass_ok R joints
     (snd (snd (fold (batch_FMA lane i) (batch_starts 16 jointStart jointCount) (False, sb, joints))))"
  unfolding batch_starts_def
  by (rule pass_inv_ok [where p = "jointStart + ((jointCount + 16 - 1) div 16) * 16"],
      rule fold_batches_inv [where Q = "\<lambda>k st. pass_inv R k joints (snd (snd st))"])
     (simp_all add: batch_FMA_inv [where R = R and lane = lane, OF lane] pass_inv_init)

lemma NaN_right [simp]:
  "a + NaN = NaN" "a * NaN = NaN" "a - NaN = NaN" "\<not> a < NaN" "\<not> a \<le> NaN"
  by (cases a; simp add: minus_cfloat_def)+

lemma NaN_left [simp]:
  "NaN - a = NaN"
  by (simp add: minus_cfloat_def)

text \<open>
  Claim C2, amended.  One impulse pass and one displacement pass of every kernel
  (AoS, the template at any width \<open>VN\<close>, the 16-wide FMA kernel), on any bodies
  and any joints, over any range of positions and at any iteration index: after the
  pass every joint is the joint before the pass, or was updated once, and then

  \<^item> the normal accumulator the pass writes (\<^verbatim>\<open>accumulatedImpulse\<close> in an impulse
    pass, \<^verbatim>\<open>accumulatedDisplacingImpulse\<close> in a displacement pass) is NaN or at
    least zero, and the accumulators the pass does not write are the ones before;
  \<^item> after an impulse pass, when the cap \<^verbatim>\<open>accumulatedImpulse * 0.3f\<close> of the new
    normal accumulator and the friction accumulator before and after are finite,
    the new friction accumulator is at most the cap plus
    \<open>(cap + |friction before|) / 2^22 + 2^-148\<close> in absolute value.

  Hence, if on entry both normal accumulators of every joint are NaN or at least
  zero, they are so after the pass.  NaN cannot be excluded: the clamp tests
  (lines 582 and 670; \<^verbatim>\<open>max\<close> in the template) let a NaN delta through.
\<close>

theorem accumulators_after_pass:
  "pass_ok impulse_step_ok joints
     (snd (snd (SolveJointsImpulsesAoS jointStart jointCount i (bodies, joints))))
   \<and> pass_ok displacement_step_ok joints
     (snd (snd (SolveJointsDisplacementAoS jointStart jointCount i (bodies, joints))))
   \<and> pass_ok impulse_step_ok joints
     (snd (snd (SolveJointsImpulsesSoA VN jointStart jointCount i (sb, joints))))
   \<and> pass_ok displacement_step_ok joints
     (snd (snd (SolveJointsDisplacementSoA VN jointStart jointCount i (sb, joints))))
   \<and> pass_ok impulse_step_ok joints
     (snd (snd (SolveJointsImpulsesSoA_FMA jointStart jointCount i (sb, joints))))
   \<and> pass_ok displacement_step_ok joints
     (snd (snd (SolveJointsDisplacementSoA_FMA jointStart jointCount i (sb, joints))))
   \<and> (list_all signs_ok joints \<longrightarrow>
        list_all signs_ok (snd (snd (SolveJointsImpulsesAoS jointStart jointCount i (bodies, joints))))
      \<and> list_all signs_ok (snd (snd (SolveJointsDisplacementAoS jointStart jointCount i (bodies, joints))))
      \<and> list_all signs_ok (snd (snd (SolveJointsImpulsesSoA VN jointStart jointCount i (sb, joints))))
      \<and> list_all signs_ok (snd (snd (SolveJointsDisplacementSoA VN jointStart jointCount i (sb, joints))))
      \<and> list_all signs_ok (snd (snd (SolveJointsImpulsesSoA_FMA jointStart jointCount i (sb, joints))))
      \<and> list_all signs_ok (snd (snd (SolveJointsDisplacementSoA_FMA jointStart jointCount i (sb, joints)))))"
proof -
  note 1 = AoS_impulse_pass_ok [of joints jointStart jointCount i bodies]
  note 2 = AoS_displacement_pass_ok [of joints jointStart jointCount i bodies]
  have 3: "pass_ok impulse_step_ok joints
     (snd (snd (SolveJointsImpulsesSoA VN jointStart jointCount i (sb, joints))))"
    unfolding SolveJointsImpulsesSoA_def fst_conv snd_conv
    by (rule SoA_pass_ok) (rule impulse_lane_step)
  have 4: "pass_ok displacement_step_ok joints
     (snd (snd (SolveJointsDisplacementSoA VN jointStart jointCount i (sb, joints))))"
    unfolding SolveJointsDisplacementSoA_def fst_conv snd_conv
    by (rule SoA_pass_ok) (rule displacement_lane_step)
  have 5: "pass_ok impulse_step_ok joints
     (snd (snd (SolveJointsImpulsesSoA_FMA jointStart jointCount i (sb, joints))))"
    unfolding SolveJointsImpulsesSoA_FMA_def fst_conv snd_conv
    by (rule FMA_pass_ok) (rule impulse_lane_FMA_step)
  have 6: "pass_ok displacement_step_ok joints
     (snd (snd (SolveJointsDisplacementSoA_FMA jointStart jointCount i (sb, joints))))"
    unfolding SolveJointsDisplacementSoA_FMA_def fst_conv snd_conv
    by (rule FMA_pass_ok) (rule displacement_lane_FMA_step)
  from 1 2 3 4 5 6 show ?thesis
    using pass_ok_signs_impulse pass_ok_signs_displacement by blast
qed

lemma contact_ab_ok: "accumulators_ok contact_ab" "signs_ok contact_ab"
  by (simp_all add: accumulators_ok_def signs_ok_def not_negative_def contact_ab_def normal_row_def
      friction_row_def kFrictionCoefficient_def zero_cfloat_def)

theorem accumulators_after_pass_witness:
  "list_all signs_ok [contact_ab]
   \<and> list_all signs_ok (snd (snd (SolveJointsImpulsesAoS 0 1 0 ([body_a, body_b], [contact_ab]))))
   \<and> list_all signs_ok (snd (snd (SolveJointsDisplacementSoA 4 0 1 0 ([], [contact_ab]))))
   \<and> pass_ok impulse_step_ok [contact_ab]
        (snd (snd (SolveJointsImpulsesSoA_FMA 0 1 0 ([], [contact_ab]))))"
  using accumulators_after_pass [of "[contact_ab]" 0 1 0 "[body_a, body_b]" 4 "[]"]
  by (simp add: contact_ab_ok)

text \<open>
  The bounds as the claim states them (\<open>accumulators_ok\<close>) are lost when a body
  velocity is NaN: the accumulators of \<open>contact_ab\<close> satisfy them, and after one
  AoS impulse pass with \<open>body_nan\<close> the normal accumulator is NaN, for which
  \<^verbatim>\<open>accumulatedImpulse >= 0\<close> is false.
\<close>

theorem accumulator_bounds_lost_on_NaN:
  "list_all accumulators_ok [contact_ab]
   \<and> accumulatedImpulse (normalLimiter
        (hd (snd (snd (SolveJointsImpulsesAoS 0 1 0 ([body_nan, body_b], [contact_ab])))))) = NaN
   \<and> \<not> list_all accumulators_ok
         (snd (snd (SolveJointsImpulsesAoS 0 1 0 ([body_nan, body_b], [contact_ab]))))"
proof -
  have "accumulatedImpulse (normalLimiter
        (hd (snd (snd (SolveJointsImpulsesAoS 0 1 0 ([body_nan, body_b], [contact_ab])))))) = NaN"
    by (simp add: SolveJointsImpulsesAoS_def impulse_joint_AoS_def impulse_update_AoS_def Let_def
        snd_snd_if contact_ab_def normal_row_def body_nan_def body_a_def body_b_def
        relative_velocity_AoS_def subtract_projections_def clamp_AoS_def)
  moreover have "length (snd (snd (SolveJointsImpulsesAoS 0 1 0 ([body_nan, body_b], [contact_ab])))) = 1"
    using AoS_impulse_pass_ok [of "[contact_ab]" 0 1 0 "[body_nan, body_b]"]
    by (simp add: pass_ok_def)
  ultimately have "\<not> list_all accumulators_ok
         (snd (snd (SolveJointsImpulsesAoS 0 1 0 ([body_nan, body_b], [contact_ab]))))"
    by (cases "snd (snd (SolveJointsImpulsesAoS 0 1 0 ([body_nan, body_b], [contact_ab])))")
       (simp_all add: accumulators_ok_def)
  with \<open>accumulatedImpulse _ = NaN\<close> show ?thesis by (simp add: contact_ab_ok)
qed

section \<open>The driver loops and the empty scene\<close>

lemma batch_SoA_width1:
  "batch_SoA lane 1 iterationIndex i (p, sb, jp) =
     (if max (sb_lastIteration (sb ! body1Index (jp ! i))) (sb_lastIteration (sb ! body2Index (jp ! i)))
           \<le> iterationIndex - 2
      then (p, sb, jp)
      else update_SoA1 lane iterationIndex i (p, sb, jp))"
  by (auto simp: batch_SoA_def update_SoA1_def Let_def loadindexed4_def storeindexed4_def
      none_def any_def split: prod.splits)

lemma impulse_joint_AoS_skip:
  "impulse_joint_AoS iterationIndex k (p, bodies, joints) =
     (if max (lastIteration (bodies ! body1Index (joints ! k)))
             (lastIteration (bodies ! body2Index (joints ! k))) \<le> iterationIndex - 2
      then (p, bodies, joints)
      else impulse_update_AoS iterationIndex k (p, bodies, joints))"
  by (auto simp: impulse_joint_AoS_def Let_def)

lemma displacement_joint_AoS_skip:
  "displacement_joint_AoS iterationIndex k (p, bodies, joints) =
     (if max (lastDisplacementIteration (bodies ! body1Index (joints ! k)))
             (lastDisplacementIteration (bodies ! body2Index (joints ! k))) \<le> iterationIndex - 2
      then (p, bodies, joints)
      else displacement_update_AoS iterationIndex k (p, bodies, joints))"
  by (auto simp: displacement_joint_AoS_def Let_def)

lemma update_SoA1_neutral:
  assumes "lane i (jp ! k) (sb ! body1Index (jp ! k)) (sb ! body2Index (jp ! k))
            = (jp ! k, sb ! body1Index (jp ! k), sb ! body2Index (jp ! k), False)"
  shows "update_SoA1 lane i k (p, sb, jp) = (p, sb, jp)"
  by (simp add: update_SoA1_def assms)

lemma solve_loop_done: "\<not> i < C \<Longrightarrow> solve_loop pass C i s = s"
  by (simp add: solve_loop.simps [of pass C i s])

lemma solve_loop_passes_done: "\<not> i < C \<Longrightarrow> solve_loop_passes pass C i s = []"
  by (simp add: solve_loop_passes.simps [of pass C i s])

lemma solve_loop_break: "i < C \<Longrightarrow> pass i s = (False, s') \<Longrightarrow> solve_loop pass C i s = s'"
  by (simp add: solve_loop.simps [of pass C i s])

lemma solve_loop_passes_break:
  "i < C \<Longrightarrow> pass i s = (False, s') \<Longrightarrow> solve_loop_passes pass C i s = [(i, False)]"
  by (simp add: solve_loop_passes.simps [of pass C i s])

lemma solve_loop_continue:
  "i < C \<Longrightarrow> pass i s = (True, s') \<Longrightarrow> solve_loop pass C i s = solve_loop pass C (i + 1) s'"
  by (simp add: solve_loop.simps [of pass C i s])

lemma solve_loop_passes_continue:
  "i < C \<Longrightarrow> pass i s = (True, s') \<Longrightarrow>
     solve_loop_passes pass C i s = (i, True) # solve_loop_passes pass C (i + 1) s'"
  by (simp add: solve_loop_passes.simps [of pass C i s])

lemma solve_loop_neutral:
  assumes "\<And>i. pass i s = (False, s)"
  shows "solve_loop pass C i s = s"
proof (cases "i < C")
  case True
  then show ?thesis using assms [of i] by (rule solve_loop_break)
next
  case False
  then show ?thesis by (rule solve_loop_done)
qed

lemma solve_loop_extend:
  assumes "left_by_break (solve_loop_passes pass C i s)" and "0 \<le> d"
  shows "solve_loop pass (C + d) i s = solve_loop pass C i s
       \<and> solve_loop_passes pass (C + d) i s = solve_loop_passes pass C i s"
  using assms
proof (induction pass C i s rule: solve_loop.induct)
  case (1 pass C i s)
  show ?case
  proof (cases "i < C")
    case False
    with "1.prems" show ?thesis by (simp add: solve_loop_passes_done left_by_break_def)
  next
    case True
    with "1.prems"(2) have lt: "i < C + d" by simp
    obtain productive s' where p: "pass i s = (productive, s')" by (cases "pass i s")
    show ?thesis
    proof (cases productive)
      case False
      with p True lt show ?thesis
        by (simp add: solve_loop_break solve_loop_passes_break)
    next
      case prod: True
      with p True "1.prems"(1) have "left_by_break (solve_loop_passes pass C (i + 1) s')"
        by (auto simp: solve_loop_passes_continue left_by_break_def split: if_splits)
      from "1.IH" [OF True p [symmetric] _ this "1.prems"(2)] prod
      have "solve_loop pass (C + d) (i + 1) s' = solve_loop pass C (i + 1) s'
          \<and> solve_loop_passes pass (C + d) (i + 1) s' = solve_loop_passes pass C (i + 1) s'"
        by simp
      with p prod True lt show ?thesis
        by (simp add: solve_loop_continue solve_loop_passes_continue)
    qed
  qed
qed

lemma fold_sum_nth:
  "fold (\<lambda>i (s :: int). g (xs ! i) s) [0 ..< length xs] a = fold g xs a"
proof (induction xs arbitrary: a rule: rev_induct)
  case Nil
  then show ?case by simp
next
  case (snoc x xs)
  have "fold (\<lambda>i s. g ((xs @ [x]) ! i) s) [0 ..< length xs] a = fold (\<lambda>i s. g (xs ! i) s) [0 ..< length xs] a"
    by (rule fold_cong) (simp_all add: nth_append)
  with snoc show ?case by simp
qed

lemma fold_add_sum_list:
  "fold (\<lambda>x (s :: int). s + h x) xs a = a + sum_list (map h xs)"
  by (induction xs arbitrary: a) simp_all

lemma batch_starts_1: "batch_starts 1 a n = [a ..< a + n]"
proof -
  have "map (\<lambda>g. a + g) [0 ..< n] = [a ..< a + n]"
    by (induction n) simp_all
  then show ?thesis by (simp add: batch_starts_def)
qed

lemma batch_starts_empty: "0 < VN \<Longrightarrow> batch_starts VN a 0 = []"
  by (simp add: batch_starts_def)

lemma fold_empty_pass:
  "SolveJointsImpulsesAoS 0 0 i (bs, []) = (False, bs, [])"
  "SolveJointsDisplacementAoS 0 0 i (bs, []) = (False, bs, [])"
  by (simp_all add: SolveJointsImpulsesAoS_def SolveJointsDisplacementAoS_def)

lemma SoA_empty_pass:
  "0 < VN \<Longrightarrow> SolveJointsImpulsesSoA VN a 0 i (sb, jp) = (False, sb, jp)"
  "0 < VN \<Longrightarrow> SolveJointsDisplacementSoA VN a 0 i (sb, jp) = (False, sb, jp)"
  "SolveJointsImpulsesSoA_FMA a 0 i (sb, jp) = (False, sb, jp)"
  "SolveJointsDisplacementSoA_FMA a 0 i (sb, jp) = (False, sb, jp)"
  by (simp_all add: SolveJointsImpulsesSoA_def SolveJointsDisplacementSoA_def
      SolveJointsImpulsesSoA_FMA_def SolveJointsDisplacementSoA_FMA_def batch_starts_def)

lemma wide_pass_empty:
  assumes "\<And>i s. wide 0 0 i s = (False, s)" and "\<And>i s. scalar 0 0 i s = (False, s)"
  shows "wide_pass wide scalar 0 0 i s = (False, s)"
  by (simp add: wide_pass_def assms Let_def)

lemma prepare_empty:
  assumes "0 < K"
  shows "SolvePrepareSoA bodies [] ji0 K =
     Some \<lparr>solveBodiesImpulse = map imp_view (SolvePrepareAoS bodies),
           solveBodiesDisplacement = map disp_view (SolvePrepareAoS bodies),
           joint_index_SoA = ji0, joint_packed = [], groupOffset_SoA = 0\<rparr>"
  using assms
  by (simp add: SolvePrepareSoA_def SolvePrepareIndicesSoA_def Let_def group_rounds.simps
      SolvePrepareAoS_def imp_view_def disp_view_def o_def)

lemma finish_bodies_same:
  "map (\<lambda>i. (bodies ! i)\<lparr>
                    velocity_x := sb_velocity_x (map imp_view (SolvePrepareAoS bodies) ! i),
                    velocity_y := sb_velocity_y (map imp_view (SolvePrepareAoS bodies) ! i),
                    angularVelocity := sb_angularVelocity (map imp_view (SolvePrepareAoS bodies) ! i),
                    displacingVelocity_x := sb_velocity_x (map disp_view (SolvePrepareAoS bodies) ! i),
                    displacingVelocity_y := sb_velocity_y (map disp_view (SolvePrepareAoS bodies) ! i),
                    displacingAngularVelocity := sb_angularVelocity (map disp_view (SolvePrepareAoS bodies) ! i)\<rparr>)
                [0 ..< length bodies] = bodies"
proof -
  have "map (\<lambda>i. (bodies ! i)\<lparr>
                    velocity_x := sb_velocity_x (map imp_view (SolvePrepareAoS bodies) ! i),
                    velocity_y := sb_velocity_y (map imp_view (SolvePrepareAoS bodies) ! i),
                    angularVelocity := sb_angularVelocity (map imp_view (SolvePrepareAoS bodies) ! i),
                    displacingVelocity_x := sb_velocity_x (map disp_view (SolvePrepareAoS bodies) ! i),
                    displacingVelocity_y := sb_velocity_y (map disp_view (SolvePrepareAoS bodies) ! i),
                    displacingAngularVelocity := sb_angularVelocity (map disp_view (SolvePrepareAoS bodies) ! i)\<rparr>)
                [0 ..< length bodies] = map (\<lambda>i. bodies ! i) [0 ..< length bodies]"
    by (rule map_cong) (simp_all add: SolvePrepareAoS_def imp_view_def disp_view_def)
  then show ?thesis by (simp add: map_nth)
qed

lemma finish_empty:
  "SolveFinishSoA bodies []
     \<lparr>solveBodiesImpulse = map imp_view (SolvePrepareAoS bodies),
      solveBodiesDisplacement = map disp_view (SolvePrepareAoS bodies),
      joint_index_SoA = ji0, joint_packed = [], groupOffset_SoA = 0\<rparr> = (bodies, [], NaN)"
  using finish_bodies_same [of bodies]
  by (simp add: SolveFinishSoA_def Let_def float_of_int_def)

lemma solve_SoA_empty:
  assumes "\<And>i s. imp i s = (False, s)" and "\<And>i s. disp i s = (False, s)"
  shows "solve_SoA imp disp bodies [] C P
     \<lparr>solveBodiesImpulse = map imp_view (SolvePrepareAoS bodies),
      solveBodiesDisplacement = map disp_view (SolvePrepareAoS bodies),
      joint_index_SoA = ji0, joint_packed = [], groupOffset_SoA = 0\<rparr> = (bodies, [], NaN)"
  unfolding solve_SoA_def Let_def
  by (simp add: solve_loop_neutral [OF assms(1)] solve_loop_neutral [OF assms(2)] finish_empty)

text \<open>
  Claim C9 (empty scene).  With no contact joint, and any bodies (none included),
  each of the five solve entry points returns, and the average it returns is NaN:
  both loops run at most one pass over no joint, and the diagnostic divides the
  sum 0 by the count 0.
\<close>

theorem empty_scene_returns_NaN:
  "SolveJointsAoS bodies [] C P = (SolvePrepareAoS bodies, [], NaN)
   \<and> SolveJointsSoA_Scalar bodies [] joint_index0 C P = Some (bodies, [], NaN)
   \<and> SolveJointsSoA_SSE2 bodies [] joint_index0 C P = Some (bodies, [], NaN)
   \<and> SolveJointsSoA_AVX2 bodies [] joint_index0 C P = Some (bodies, [], NaN)
   \<and> SolveJointsSoA_FMA bodies [] joint_index0 C P = Some (bodies, [], NaN)"
proof -
  have pA: "\<And>i s. snd s = [] \<Longrightarrow> impulse_pass_AoS i s = (False, s)"
    "\<And>i s. snd s = [] \<Longrightarrow> displacement_pass_AoS i s = (False, s)"
    by (simp_all add: impulse_pass_AoS_def displacement_pass_AoS_def
        SolveJointsImpulsesAoS_def SolveJointsDisplacementAoS_def prod_eq_iff)
  have lA: "solve_loop impulse_pass_AoS C 0 (SolvePrepareAoS bodies, []) = (SolvePrepareAoS bodies, [])"
    by (cases "0 < C") (simp_all add: solve_loop_done solve_loop_break [OF _ pA(1)])
  have lD: "solve_loop displacement_pass_AoS P 0 (SolvePrepareAoS bodies, []) = (SolvePrepareAoS bodies, [])"
    by (cases "0 < P") (simp_all add: solve_loop_done solve_loop_break [OF _ pA(2)])
  have 1: "SolveJointsAoS bodies [] C P = (SolvePrepareAoS bodies, [], NaN)"
    by (simp add: SolveJointsAoS_def Let_def lA lD SolveFinishAoS_def float_of_int_def)
  have s1: "\<And>i s. impulse_pass_SoA_Scalar 0 i s = (False, s)"
    "\<And>i s. displacement_pass_SoA_Scalar 0 i s = (False, s)"
    by (simp_all add: impulse_pass_SoA_Scalar_def displacement_pass_SoA_Scalar_def
        SolveJointsImpulsesSoA_def SolveJointsDisplacementSoA_def batch_starts_def)
  have 2: "SolveJointsSoA_Scalar bodies [] joint_index0 C P = Some (bodies, [], NaN)"
    using prepare_empty [of 1 bodies joint_index0]
    by (simp add: SolveJointsSoA_Scalar_def solve_SoA_empty [OF s1])
  have w: "\<And>VN i s. 0 < VN \<Longrightarrow>
      wide_pass (SolveJointsImpulsesSoA VN) (SolveJointsImpulsesSoA 1) 0 0 i s = (False, s)"
    "\<And>VN i s. 0 < VN \<Longrightarrow>
      wide_pass (SolveJointsDisplacementSoA VN) (SolveJointsDisplacementSoA 1) 0 0 i s = (False, s)"
    "\<And>i s. wide_pass SolveJointsImpulsesSoA_FMA (SolveJointsImpulsesSoA 1) 0 0 i s = (False, s)"
    "\<And>i s. wide_pass SolveJointsDisplacementSoA_FMA (SolveJointsDisplacementSoA 1) 0 0 i s = (False, s)"
    by (simp_all add: wide_pass_def Let_def SolveJointsImpulsesSoA_def SolveJointsDisplacementSoA_def
        SolveJointsImpulsesSoA_FMA_def SolveJointsDisplacementSoA_FMA_def batch_starts_def)
  have 3: "SolveJointsSoA_SIMD VN bodies [] joint_index0 C P = Some (bodies, [], NaN)" if "0 < VN" for VN
    using prepare_empty [OF that, of bodies joint_index0]
    by (simp add: SolveJointsSoA_SIMD_def
        solve_SoA_empty [OF w(1) [OF that] w(2) [OF that], unfolded One_nat_def])
  have 4: "SolveJointsSoA_FMA bodies [] joint_index0 C P = Some (bodies, [], NaN)"
    using prepare_empty [of 16 bodies joint_index0]
    by (simp add: SolveJointsSoA_FMA_def solve_SoA_empty [OF w(3) w(4), unfolded One_nat_def])
  from 1 2 3 [of 4] 3 [of 8] 4 show ?thesis
    by (simp add: SolveJointsSoA_SSE2_def SolveJointsSoA_AVX2_def)
qed

theorem empty_scene_returns_NaN_witness:
  "SolveJointsAoS [] [] 10 10 = ([], [], NaN)
   \<and> SolveJointsSoA_Scalar [body_a] [] [] 10 10 = Some ([body_a], [], NaN)
   \<and> SolveJointsSoA_FMA [] [] [] 10 10 = Some ([], [], NaN)"
  using empty_scene_returns_NaN [of "[]" 10 10 "[]"] empty_scene_returns_NaN [of "[body_a]" 10 10 "[]"]
  by (simp add: SolvePrepareAoS_def)

section \<open>Joints of zero compInvMass\<close>

lemma finite32_D: "finite32 v \<Longrightarrow> \<exists>x. v = Finite x \<and> round32 x = Finite x"
  by (cases v) (simp_all add: finite32_def)

lemma is_finite_D: "is_finite v \<Longrightarrow> \<exists>x. v = Finite x"
  by (cases v) (simp_all add: is_finite_def)

lemma mul_zero: "is_finite v \<Longrightarrow> v * 0 = 0" "finite32 v \<Longrightarrow> v * 0 = 0"
  by (auto dest!: is_finite_D finite32_D simp: zero_cfloat_def)

lemma add_zero: "finite32 v \<Longrightarrow> v + 0 = v" "finite32 v \<Longrightarrow> 0 + v = v"
  by (auto dest!: finite32_D simp: zero_cfloat_def)


lemma le_not_less: "a \<le> b \<Longrightarrow> \<not> b < (a :: cfloat)"
  by (cases a; cases b) simp_all

lemma clamp_AoS_zero: "0 \<le> acc \<Longrightarrow> finite32 acc \<Longrightarrow> clamp_AoS 0 acc = 0"
  by (simp add: clamp_AoS_def add_zero le_not_less)

lemma max_ps_zero: "0 \<le> acc \<Longrightarrow> max_ps 0 (- acc) = 0"
  by (cases acc) (auto simp: max_ps_def zero_cfloat_def)

lemma friction_cap_AoS_zero:
  "\<bar>a\<bar> \<le> n * kFrictionCoefficient \<Longrightarrow> finite32 a \<Longrightarrow> friction_cap_AoS n a 0 = 0"
  by (simp add: friction_cap_AoS_def Let_def add_zero le_not_less)

lemma friction_cap_SoA_zero:
  "\<bar>a\<bar> \<le> n * kFrictionCoefficient \<Longrightarrow> finite32 a \<Longrightarrow> friction_cap_SoA n a 0 = 0"
  by (simp add: friction_cap_SoA_def Let_def select_def add_zero le_not_less)

lemma not_productive_zero: "\<not> kProductiveImpulse < \<bar>0\<bar>" "\<not> kProductiveImpulse < std_max \<bar>0\<bar> \<bar>0\<bar>"
  "\<not> kProductiveImpulse < max_ps \<bar>0\<bar> \<bar>0\<bar>"
  by (simp_all add: kProductiveImpulse_def zero_cfloat_def std_max_def max_ps_def)

lemma finite_limiter_D:
  assumes "finite_limiter l"
  shows "finite32 (compMass1_linear_x l)" "finite32 (compMass1_linear_y l)"
    "finite32 (compMass2_linear_x l)" "finite32 (compMass2_linear_y l)"
    "finite32 (compMass1_angular l)" "finite32 (compMass2_angular l)"
    "finite32 (accumulatedImpulse l)" "finite32 (accumulatedDisplacingImpulse l)"
  using assms by (simp_all add: finite_limiter_def)

lemma add_velocity_zero:
  assumes "finite_body (imp_view b)" and "finite32 cx" "finite32 cy" "finite32 cw"
  shows "add_velocity b (cx * 0) (cy * 0) (cw * 0) = b"
  using assms by (simp add: add_velocity_def finite_body_def imp_view_def mul_zero add_zero)

lemma add_displacingVelocity_zero:
  assumes "finite_body (disp_view b)" and "finite32 cx" "finite32 cy" "finite32 cw"
  shows "add_displacingVelocity b (cx * 0) (cy * 0) (cw * 0) = b"
  using assms by (simp add: add_displacingVelocity_def finite_body_def disp_view_def mul_zero add_zero)

lemma sb_add_velocity_zero:
  assumes "finite_body b" and "finite32 cx" "finite32 cy" "finite32 cw"
  shows "sb_add_velocity b (cx * 0) (cy * 0) (cw * 0) = b"
  using assms by (simp add: sb_add_velocity_def finite_body_def mul_zero add_zero)


lemma apply_impulse_AoS_zero:
  assumes "finite_limiter l" and "finite_body (imp_view (bs ! b1))" "finite_body (imp_view (bs ! b2))"
  shows "apply_impulse_AoS l 0 b1 b2 bs = bs"
  using assms by (simp add: apply_impulse_AoS_def add_velocity_zero finite_limiter_D)

lemma apply_displacingImpulse_AoS_zero:
  assumes "finite_limiter l" and "finite_body (disp_view (bs ! b1))" "finite_body (disp_view (bs ! b2))"
  shows "apply_displacingImpulse_AoS l 0 b1 b2 bs = bs"
  using assms by (simp add: apply_displacingImpulse_AoS_def add_displacingVelocity_zero finite_limiter_D)

lemma impulse_update_AoS_degenerate:
  assumes deg: "degenerate (js ! k)" and ok: "accumulators_ok (js ! k)" and fin: "finite_joint (js ! k)"
    and b1: "finite_body (imp_view (bs ! body1Index (js ! k)))"
    and b2: "finite_body (imp_view (bs ! body2Index (js ! k)))"
    and dVn: "is_finite (relative_velocity_AoS (normalLimiter (js ! k))
        (dstVelocity (normalLimiter (js ! k))) (bs ! body1Index (js ! k)) (bs ! body2Index (js ! k)))"
    and dVf: "is_finite (relative_velocity_AoS (frictionLimiter (js ! k)) 0
        (bs ! body1Index (js ! k)) (bs ! body2Index (js ! k)))"
  shows "impulse_update_AoS i k (p, bs, js) = (p, bs, js)"
proof -
  define n where "n = normalLimiter (js ! k)"
  define f where "f = frictionLimiter (js ! k)"
  from fin have fn: "finite_limiter n" and ff: "finite_limiter f"
    by (simp_all add: finite_joint_def n_def f_def)
  from deg have cn: "compInvMass n = 0" and cf: "compInvMass f = 0"
    by (simp_all add: degenerate_def n_def f_def)
  from ok have an: "0 \<le> accumulatedImpulse n"
    and af: "\<bar>accumulatedImpulse f\<bar> \<le> accumulatedImpulse n * kFrictionCoefficient"
    by (simp_all add: accumulators_ok_def n_def f_def)
  have d: "clamp_AoS (relative_velocity_AoS n (dstVelocity n) (bs ! body1Index (js ! k))
      (bs ! body2Index (js ! k)) * compInvMass n) (accumulatedImpulse n) = 0"
    using dVn an fn by (simp add: cn mul_zero clamp_AoS_zero finite_limiter_D n_def [symmetric])
  have bs1: "apply_impulse_AoS n 0 (body1Index (js ! k)) (body2Index (js ! k)) bs = bs"
    using fn b1 b2 by (rule apply_impulse_AoS_zero)
  have bs2: "apply_impulse_AoS f 0 (body1Index (js ! k)) (body2Index (js ! k)) bs = bs"
    using ff b1 b2 by (rule apply_impulse_AoS_zero)
  have n': "n\<lparr>accumulatedImpulse := accumulatedImpulse n + 0\<rparr> = n"
    using fn by (simp add: add_zero finite_limiter_D)
  have e: "friction_cap_AoS (accumulatedImpulse n) (accumulatedImpulse f)
      (relative_velocity_AoS f 0 (bs ! body1Index (js ! k)) (bs ! body2Index (js ! k)) * compInvMass f) = 0"
    using dVf af ff by (simp add: cf mul_zero friction_cap_AoS_zero finite_limiter_D f_def [symmetric])
  have f': "f\<lparr>accumulatedImpulse := accumulatedImpulse f + 0\<rparr> = f"
    using ff by (simp add: add_zero finite_limiter_D)
  show ?thesis
    unfolding impulse_update_AoS_def prod.case Let_def n_def [symmetric] f_def [symmetric]
    unfolding d bs1 n' e f' bs2
    by (simp add: not_productive_zero n_def f_def)
qed

lemma displacement_update_AoS_degenerate:
  assumes deg: "degenerate (js ! k)" and ok: "accumulators_ok (js ! k)" and fin: "finite_joint (js ! k)"
    and b1: "finite_body (disp_view (bs ! body1Index (js ! k)))"
    and b2: "finite_body (disp_view (bs ! body2Index (js ! k)))"
    and dV: "is_finite (relative_displacingVelocity_AoS (normalLimiter (js ! k))
        (dstDisplacingVelocity (normalLimiter (js ! k)))
        (bs ! body1Index (js ! k)) (bs ! body2Index (js ! k)))"
  shows "displacement_update_AoS i k (p, bs, js) = (p, bs, js)"
proof -
  define n where "n = normalLimiter (js ! k)"
  from fin have fn: "finite_limiter n" by (simp add: finite_joint_def n_def)
  from deg have cn: "compInvMass n = 0" by (simp add: degenerate_def n_def)
  from ok have an: "0 \<le> accumulatedDisplacingImpulse n" by (simp add: accumulators_ok_def n_def)
  have d: "clamp_AoS (relative_displacingVelocity_AoS n (dstDisplacingVelocity n)
      (bs ! body1Index (js ! k)) (bs ! body2Index (js ! k)) * compInvMass n)
      (accumulatedDisplacingImpulse n) = 0"
    using dV an fn by (simp add: cn mul_zero clamp_AoS_zero finite_limiter_D n_def [symmetric])
  have bs1: "apply_displacingImpulse_AoS n 0 (body1Index (js ! k)) (body2Index (js ! k)) bs = bs"
    using fn b1 b2 by (rule apply_displacingImpulse_AoS_zero)
  have n': "n\<lparr>accumulatedDisplacingImpulse := accumulatedDisplacingImpulse n + 0\<rparr> = n"
    using fn by (simp add: add_zero finite_limiter_D)
  show ?thesis
    unfolding displacement_update_AoS_def prod.case Let_def n_def [symmetric]
    unfolding d bs1 n'
    by (simp add: not_productive_zero n_def)
qed

lemma impulse_lane_degenerate:
  assumes deg: "degenerate j" and ok: "accumulators_ok j" and fin: "finite_joint j"
    and b1: "finite_body b1" and b2: "finite_body b2"
    and dVn: "is_finite (relative_velocity_SoA (normalLimiter j) (dstVelocity (normalLimiter j)) b1 b2)"
    and dVf: "is_finite (relative_velocity_SoA (frictionLimiter j) 0 b1 b2)"
  shows "impulse_lane i j b1 b2 = (j, b1, b2, False)"
proof -
  define n where "n = normalLimiter j"
  define f where "f = frictionLimiter j"
  from fin have fn: "finite_limiter n" and ff: "finite_limiter f"
    by (simp_all add: finite_joint_def n_def f_def)
  from deg have cn: "compInvMass n = 0" and cf: "compInvMass f = 0"
    by (simp_all add: degenerate_def n_def f_def)
  from ok have an: "0 \<le> accumulatedImpulse n"
    and af: "\<bar>accumulatedImpulse f\<bar> \<le> accumulatedImpulse n * kFrictionCoefficient"
    by (simp_all add: accumulators_ok_def n_def f_def)
  have d: "max_ps (relative_velocity_SoA n (dstVelocity n) b1 b2 * compInvMass n)
      (- accumulatedImpulse n) = 0"
    using dVn an by (simp add: cn mul_zero max_ps_zero n_def [symmetric])
  have v1: "\<And>cx cy cw. finite32 cx \<Longrightarrow> finite32 cy \<Longrightarrow> finite32 cw \<Longrightarrow>
      sb_add_velocity b1 (cx * 0) (cy * 0) (cw * 0) = b1"
    using b1 by (rule sb_add_velocity_zero)
  have v2: "\<And>cx cy cw. finite32 cx \<Longrightarrow> finite32 cy \<Longrightarrow> finite32 cw \<Longrightarrow>
      sb_add_velocity b2 (cx * 0) (cy * 0) (cw * 0) = b2"
    using b2 by (rule sb_add_velocity_zero)
  have n': "n\<lparr>accumulatedImpulse := accumulatedImpulse n + 0\<rparr> = n"
    using fn by (simp add: add_zero finite_limiter_D)
  have e: "friction_cap_SoA (accumulatedImpulse n) (accumulatedImpulse f)
      (relative_velocity_SoA f 0 b1 b2 * compInvMass f) = 0"
    using dVf af ff by (simp add: cf mul_zero friction_cap_SoA_zero finite_limiter_D f_def [symmetric])
  have f': "f\<lparr>accumulatedImpulse := accumulatedImpulse f + 0\<rparr> = f"
    using ff by (simp add: add_zero finite_limiter_D)
  show ?thesis
    unfolding impulse_lane_def Let_def n_def [symmetric] f_def [symmetric]
    unfolding d v1 [OF finite_limiter_D(1,2,5) [OF fn]] v2 [OF finite_limiter_D(3,4,6) [OF fn]] n' e f'
      v1 [OF finite_limiter_D(1,2,5) [OF ff]] v2 [OF finite_limiter_D(3,4,6) [OF ff]]
    by (simp add: not_productive_zero select_def n_def f_def)
qed

lemma displacement_lane_degenerate:
  assumes deg: "degenerate j" and ok: "accumulators_ok j" and fin: "finite_joint j"
    and b1: "finite_body b1" and b2: "finite_body b2"
    and dV: "is_finite (relative_velocity_SoA (normalLimiter j) (dstDisplacingVelocity (normalLimiter j)) b1 b2)"
  shows "displacement_lane i j b1 b2 = (j, b1, b2, False)"
proof -
  define n where "n = normalLimiter j"
  from fin have fn: "finite_limiter n" by (simp add: finite_joint_def n_def)
  from deg have cn: "compInvMass n = 0" by (simp add: degenerate_def n_def)
  from ok have an: "0 \<le> accumulatedDisplacingImpulse n" by (simp add: accumulators_ok_def n_def)
  have d: "max_ps (relative_velocity_SoA n (dstDisplacingVelocity n) b1 b2 * compInvMass n)
      (- accumulatedDisplacingImpulse n) = 0"
    using dV an by (simp add: cn mul_zero max_ps_zero n_def [symmetric])
  have v1: "sb_add_velocity b1 (compMass1_linear_x n * 0) (compMass1_linear_y n * 0)
      (compMass1_angular n * 0) = b1"
    using b1 finite_limiter_D(1,2,5) [OF fn] by (rule sb_add_velocity_zero)
  have v2: "sb_add_velocity b2 (compMass2_linear_x n * 0) (compMass2_linear_y n * 0)
      (compMass2_angular n * 0) = b2"
    using b2 finite_limiter_D(3,4,6) [OF fn] by (rule sb_add_velocity_zero)
  have n': "n\<lparr>accumulatedDisplacingImpulse := accumulatedDisplacingImpulse n + 0\<rparr> = n"
    using fn by (simp add: add_zero finite_limiter_D)
  show ?thesis
    unfolding displacement_lane_def Let_def n_def [symmetric]
    unfolding d v1 v2 n'
    by (simp add: not_productive_zero select_def n_def)
qed



section \<open>The diagnostic and the two layouts\<close>

lemma fold_identity_upt: "length ji = n \<Longrightarrow> fold (\<lambda>i ji. ji[i := i]) [0..<n] ji = [0..<n]"
  by (rule fold_identity)

lemma map_nth_upt: "map (\<lambda>i. xs ! ([0 ..< length xs] ! i)) [0 ..< length xs] = xs"
proof -
  have "map (\<lambda>i. xs ! ([0 ..< length xs] ! i)) [0 ..< length xs] = map (\<lambda>i. xs ! i) [0 ..< length xs]"
    by (rule map_cong) simp_all
  then show ?thesis by (simp add: map_nth)
qed

lemma prepare_scalar:
  assumes "length joint_index0 = length contactJoints"
  shows "SolvePrepareSoA bodies contactJoints joint_index0 1 =
     Some \<lparr>solveBodiesImpulse = map imp_view (SolvePrepareAoS bodies),
           solveBodiesDisplacement = map disp_view (SolvePrepareAoS bodies),
           joint_index_SoA = [0 ..< length contactJoints],
           joint_packed = contactJoints,
           groupOffset_SoA = length contactJoints\<rparr>"
  using assms
  by (simp add: SolvePrepareSoA_def SolvePrepareIndicesSoA_def Let_def fold_identity map_nth_upt
      SolvePrepareAoS_def imp_view_def disp_view_def o_def)

lemma write_back_same:
  assumes "static_part a = static_part b"
  shows "b\<lparr>normalLimiter := (normalLimiter b)\<lparr>
              accumulatedImpulse := accumulatedImpulse (normalLimiter a),
              accumulatedDisplacingImpulse := accumulatedDisplacingImpulse (normalLimiter a)\<rparr>,
            frictionLimiter := (frictionLimiter b)\<lparr>
              accumulatedImpulse := accumulatedImpulse (frictionLimiter a)\<rparr>\<rparr> = a"
proof -
  obtain a1 a2 an af where a: "a = \<lparr>body1Index = a1, body2Index = a2, normalLimiter = an, frictionLimiter = af\<rparr>"
    by (cases a) auto
  obtain b1 b2 bn bf where b: "b = \<lparr>body1Index = b1, body2Index = b2, normalLimiter = bn, frictionLimiter = bf\<rparr>"
    by (cases b) auto
  from assms have i: "a1 = b1" "a2 = b2"
    and n: "an\<lparr>accumulatedImpulse := 0, accumulatedDisplacingImpulse := 0\<rparr>
          = bn\<lparr>accumulatedImpulse := 0, accumulatedDisplacingImpulse := 0\<rparr>"
    and f: "af\<lparr>accumulatedImpulse := 0\<rparr> = bf\<lparr>accumulatedImpulse := 0\<rparr>"
    by (simp_all add: a b static_part_def)
  have n': "bn\<lparr>accumulatedImpulse := accumulatedImpulse an,
               accumulatedDisplacingImpulse := accumulatedDisplacingImpulse an\<rparr> = an"
    using n by (cases an, cases bn) simp
  have f': "bf\<lparr>accumulatedImpulse := accumulatedImpulse af\<rparr> = af"
    using f by (cases af, cases bf) simp
  show ?thesis by (simp add: a b i n' f')
qed

lemma fold_update_prefix:
  "k \<le> length xs \<Longrightarrow>
     fold (\<lambda>i cj. cj[i := g i (cj ! i)]) [0 ..< k] xs = map (\<lambda>i. g i (xs ! i)) [0 ..< k] @ drop k xs"
proof (induction k)
  case 0
  then show ?case by simp
next
  case (Suc k)
  then have k: "k < length xs" by simp
  let ?pre = "map (\<lambda>i. g i (xs ! i)) [0 ..< k]"
  have a: "(?pre @ drop k xs) ! k = xs ! k"
    using k by (simp add: nth_append)
  have "(?pre @ drop k xs)[k := g k (xs ! k)] = ?pre @ (drop k xs)[0 := g k (xs ! k)]"
    by (simp add: list_update_append)
  also have "(drop k xs)[0 := g k (xs ! k)] = g k (xs ! k) # drop (Suc k) xs"
    using k by (rule drop_update_head)
  finally show ?case using Suc k by (simp add: a)
qed

lemma write_back_identity:
  assumes "map static_part P = map static_part J"
  shows "fold (\<lambda>i cj.
            (let joint = cj ! ([0 ..< length J] ! i); jointP = P ! i
             in cj[[0 ..< length J] ! i := joint\<lparr>
                  normalLimiter := (normalLimiter joint)\<lparr>
                    accumulatedImpulse := accumulatedImpulse (normalLimiter jointP),
                    accumulatedDisplacingImpulse := accumulatedDisplacingImpulse (normalLimiter jointP)\<rparr>,
                  frictionLimiter := (frictionLimiter joint)\<lparr>
                    accumulatedImpulse := accumulatedImpulse (frictionLimiter jointP)\<rparr>\<rparr>]))
           [0 ..< length J] J = P"
proof -
  let ?g = "\<lambda>i joint. joint\<lparr>
                  normalLimiter := (normalLimiter joint)\<lparr>
                    accumulatedImpulse := accumulatedImpulse (normalLimiter (P ! i)),
                    accumulatedDisplacingImpulse := accumulatedDisplacingImpulse (normalLimiter (P ! i))\<rparr>,
                  frictionLimiter := (frictionLimiter joint)\<lparr>
                    accumulatedImpulse := accumulatedImpulse (frictionLimiter (P ! i))\<rparr>\<rparr>"
  from assms have "length (map static_part P) = length (map static_part J)" by simp
  then have len: "length P = length J" by simp
  have st: "\<And>i. i < length J \<Longrightarrow> static_part (P ! i) = static_part (J ! i)"
  proof -
    fix i assume i: "i < length J"
    with len have "map static_part P ! i = static_part (P ! i)" "map static_part J ! i = static_part (J ! i)"
      by simp_all
    with assms show "static_part (P ! i) = static_part (J ! i)" by simp
  qed
  have "fold (\<lambda>i cj.
            (let joint = cj ! ([0 ..< length J] ! i); jointP = P ! i
             in cj[[0 ..< length J] ! i := joint\<lparr>
                  normalLimiter := (normalLimiter joint)\<lparr>
                    accumulatedImpulse := accumulatedImpulse (normalLimiter jointP),
                    accumulatedDisplacingImpulse := accumulatedDisplacingImpulse (normalLimiter jointP)\<rparr>,
                  frictionLimiter := (frictionLimiter joint)\<lparr>
                    accumulatedImpulse := accumulatedImpulse (frictionLimiter jointP)\<rparr>\<rparr>]))
           [0 ..< length J] J
      = fold (\<lambda>i cj. cj[i := ?g i (cj ! i)]) [0 ..< length J] J"
    by (rule fold_cong) (simp_all add: Let_def)
  also have "\<dots> = map (\<lambda>i. ?g i (J ! i)) [0 ..< length J]"
    using fold_update_prefix [of "length J" J ?g] by simp
  also have "\<dots> = map (\<lambda>i. P ! i) [0 ..< length J]"
    by (rule map_cong) (simp_all add: write_back_same [OF st])
  also have "\<dots> = P" using len map_nth [of P] by simp
  finally show ?thesis .
qed

lemma joint_iterations_view:
  assumes "body1Index j < length bs" "body2Index j < length bs"
  shows "joint_iterations_SoA (map imp_view bs) (map disp_view bs) j = joint_iterations_AoS bs j"
  using assms by (simp add: joint_iterations_SoA_def joint_iterations_AoS_def imp_view_def disp_view_def)

lemma finish_bodies_motion:
  assumes "length bs = length bodies"
  shows "map body_motion
           (map (\<lambda>i. (bodies ! i)\<lparr>
                    velocity_x := sb_velocity_x (map imp_view bs ! i),
                    velocity_y := sb_velocity_y (map imp_view bs ! i),
                    angularVelocity := sb_angularVelocity (map imp_view bs ! i),
                    displacingVelocity_x := sb_velocity_x (map disp_view bs ! i),
                    displacingVelocity_y := sb_velocity_y (map disp_view bs ! i),
                    displacingAngularVelocity := sb_angularVelocity (map disp_view bs ! i)\<rparr>)
                [0 ..< length bodies])
         = map body_motion bs"
proof (rule nth_equalityI)
  show "length (map body_motion
           (map (\<lambda>i. (bodies ! i)\<lparr>
                    velocity_x := sb_velocity_x (map imp_view bs ! i),
                    velocity_y := sb_velocity_y (map imp_view bs ! i),
                    angularVelocity := sb_angularVelocity (map imp_view bs ! i),
                    displacingVelocity_x := sb_velocity_x (map disp_view bs ! i),
                    displacingVelocity_y := sb_velocity_y (map disp_view bs ! i),
                    displacingAngularVelocity := sb_angularVelocity (map disp_view bs ! i)\<rparr>)
                [0 ..< length bodies])) = length (map body_motion bs)"
    using assms by simp
next
  fix i assume "i < length (map body_motion
           (map (\<lambda>i. (bodies ! i)\<lparr>
                    velocity_x := sb_velocity_x (map imp_view bs ! i),
                    velocity_y := sb_velocity_y (map imp_view bs ! i),
                    angularVelocity := sb_angularVelocity (map imp_view bs ! i),
                    displacingVelocity_x := sb_velocity_x (map disp_view bs ! i),
                    displacingVelocity_y := sb_velocity_y (map disp_view bs ! i),
                    displacingAngularVelocity := sb_angularVelocity (map disp_view bs ! i)\<rparr>)
                [0 ..< length bodies]))"
  then have i: "i < length bodies" by simp
  with assms have i': "i < length bs" by simp
  show "map body_motion
           (map (\<lambda>i. (bodies ! i)\<lparr>
                    velocity_x := sb_velocity_x (map imp_view bs ! i),
                    velocity_y := sb_velocity_y (map imp_view bs ! i),
                    angularVelocity := sb_angularVelocity (map imp_view bs ! i),
                    displacingVelocity_x := sb_velocity_x (map disp_view bs ! i),
                    displacingVelocity_y := sb_velocity_y (map disp_view bs ! i),
                    displacingAngularVelocity := sb_angularVelocity (map disp_view bs ! i)\<rparr>)
                [0 ..< length bodies]) ! i = map body_motion bs ! i"
    using i i' by (simp add: body_motion_def imp_view_def disp_view_def)
qed

lemma SolveFinishAoS_sum:
  "SolveFinishAoS bodies contactJoints =
     float_div (float_of_int (sum_list (map (joint_iterations_AoS bodies) contactJoints)))
       (float_of_int (int (length contactJoints)))"
proof -
  have "fold (\<lambda>jointIndex iterationSum.
              (let joint = contactJoints ! jointIndex;
                   body1 = bodies ! body1Index joint;
                   body2 = bodies ! body2Index joint;
                   iterationSum = iterationSum + (max (lastIteration body1) (lastIteration body2) + 2)
               in iterationSum + (max (lastDisplacementIteration body1)
                                      (lastDisplacementIteration body2) + 2)))
           [0 ..< length contactJoints] (0 :: int)
      = fold (\<lambda>i s. (\<lambda>j s. s + joint_iterations_AoS bodies j) (contactJoints ! i) s)
           [0 ..< length contactJoints] 0"
    by (simp add: Let_def joint_iterations_AoS_def add.assoc)
  also have "\<dots> = fold (\<lambda>j s. s + joint_iterations_AoS bodies j) contactJoints 0"
    by (rule fold_sum_nth)
  also have "\<dots> = sum_list (map (joint_iterations_AoS bodies) contactJoints)"
    by (simp add: fold_add_sum_list)
  finally show ?thesis by (simp add: SolveFinishAoS_def Let_def)
qed

lemma SolveFinishSoA_sum:
  "snd (snd (SolveFinishSoA bodies contactJoints s)) =
     float_div (float_of_int (sum_list (map (joint_iterations_SoA (solveBodiesImpulse s) (solveBodiesDisplacement s))
                          (take (length contactJoints) (joint_packed s)))))
       (float_of_int (int (length contactJoints)))"
  if "length contactJoints \<le> length (joint_packed s)"
proof -
  let ?g = "joint_iterations_SoA (solveBodiesImpulse s) (solveBodiesDisplacement s)"
  let ?xs = "take (length contactJoints) (joint_packed s)"
  from that have len: "length ?xs = length contactJoints" by simp
  have "fold (\<lambda>i iterationSum.
                    (let jointP = joint_packed s ! i;
                         bi1 = body1Index jointP;
                         bi2 = body2Index jointP;
                         iterationSum = iterationSum
                           + (max (sb_lastIteration (solveBodiesImpulse s ! bi1))
                                  (sb_lastIteration (solveBodiesImpulse s ! bi2)) + 2)
                     in iterationSum
                           + (max (sb_lastIteration (solveBodiesDisplacement s ! bi1))
                                  (sb_lastIteration (solveBodiesDisplacement s ! bi2)) + 2)))
                 [0 ..< length contactJoints] (0 :: int)
      = fold (\<lambda>i s. (\<lambda>j s. s + ?g j) (?xs ! i) s) [0 ..< length ?xs] 0"
    unfolding len by (rule fold_cong) (simp_all add: Let_def joint_iterations_SoA_def add.assoc)
  also have "\<dots> = fold (\<lambda>j s. s + ?g j) ?xs 0"
    by (rule fold_sum_nth)
  also have "\<dots> = sum_list (map ?g ?xs)"
    by (simp add: fold_add_sum_list)
  finally show ?thesis by (simp add: SolveFinishSoA_def Let_def)
qed

lemma SolveFinishSoA_scalar:
  assumes len: "length bs = length bodies"
    and valid: "joints_valid (length bs) js"
    and st: "map static_part js = map static_part contactJoints"
  shows "snd (SolveFinishSoA bodies contactJoints
           \<lparr>solveBodiesImpulse = map imp_view bs, solveBodiesDisplacement = map disp_view bs,
            joint_index_SoA = [0 ..< length contactJoints], joint_packed = js,
            groupOffset_SoA = g\<rparr>) = (js, SolveFinishAoS bs js)"
    and "map body_motion (fst (SolveFinishSoA bodies contactJoints
           \<lparr>solveBodiesImpulse = map imp_view bs, solveBodiesDisplacement = map disp_view bs,
            joint_index_SoA = [0 ..< length contactJoints], joint_packed = js,
            groupOffset_SoA = g\<rparr>)) = map body_motion bs"
proof -
  let ?s = "\<lparr>solveBodiesImpulse = map imp_view bs, solveBodiesDisplacement = map disp_view bs,
            joint_index_SoA = [0 ..< length contactJoints], joint_packed = js,
            groupOffset_SoA = g\<rparr>"
  from st have "length (map static_part js) = length (map static_part contactJoints)" by simp
  then have ljs: "length js = length contactJoints" by simp
  have wb: "fst (snd (SolveFinishSoA bodies contactJoints ?s)) = js"
    using write_back_identity [OF st] by (simp add: SolveFinishSoA_def Let_def)
  have m: "map (joint_iterations_SoA (map imp_view bs) (map disp_view bs)) js
      = map (joint_iterations_AoS bs) js"
    using valid by (intro map_cong refl joint_iterations_view) (auto simp: joints_valid_def list_all_iff)
  have "snd (snd (SolveFinishSoA bodies contactJoints ?s))
      = float_div (float_of_int (sum_list (map (joint_iterations_SoA (map imp_view bs) (map disp_view bs)) js)))
          (float_of_int (int (length contactJoints)))"
    using SolveFinishSoA_sum [of contactJoints ?s bodies] ljs by simp
  also have "\<dots> = float_div (float_of_int (sum_list (map (joint_iterations_AoS bs) js))) (float_of_int (int (length js)))"
    by (simp only: m ljs)
  also have "\<dots> = SolveFinishAoS bs js"
    by (simp only: SolveFinishAoS_sum)
  finally have avg: "snd (snd (SolveFinishSoA bodies contactJoints ?s)) = SolveFinishAoS bs js" .
  from wb avg show "snd (SolveFinishSoA bodies contactJoints ?s) = (js, SolveFinishAoS bs js)"
    by (simp add: prod_eq_iff)
  show "map body_motion (fst (SolveFinishSoA bodies contactJoints ?s)) = map body_motion bs"
    using finish_bodies_motion [OF len] by (simp add: SolveFinishSoA_def Let_def)
qed

section \<open>A scene of one joint of zero compInvMass\<close>

lemma relative_velocity_views:
  "relative_velocity_AoS l dV r1 r2 = relative_velocity_SoA l dV (imp_view r1) (imp_view r2)"
  "relative_displacingVelocity_AoS l dV r1 r2 = relative_velocity_SoA l dV (disp_view r1) (disp_view r2)"
  by (simp_all add: relative_velocity_AoS_def relative_displacingVelocity_AoS_def
      relative_velocity_SoA_def imp_view_def disp_view_def)

lemma solve_loop_passes_neutral:
  assumes "\<And>i. pass i s = (False, s)" and "i < C"
  shows "solve_loop_passes pass C i s = [(i, False)]"
  using assms(2) assms(1) [of i] by (rule solve_loop_passes_break)

lemma single_impulse_pass_AoS:
  assumes "impulse_update_AoS i 0 (False, bs, [j]) = (False, bs, [j])"
  shows "impulse_pass_AoS i (bs, [j]) = (False, bs, [j])"
  using assms
  by (simp add: impulse_pass_AoS_def SolveJointsImpulsesAoS_def impulse_joint_AoS_skip)

lemma single_displacement_pass_AoS:
  assumes "displacement_update_AoS i 0 (False, bs, [j]) = (False, bs, [j])"
  shows "displacement_pass_AoS i (bs, [j]) = (False, bs, [j])"
  using assms
  by (simp add: displacement_pass_AoS_def SolveJointsDisplacementAoS_def displacement_joint_AoS_skip)

lemma single_pass_SoA:
  assumes "lane i j (sb ! body1Index j) (sb ! body2Index j)
      = (j, sb ! body1Index j, sb ! body2Index j, False)"
  shows "fold (batch_SoA lane 1 i) (batch_starts 1 0 1) (False, sb, [j]) = (False, sb, [j])"
proof -
  have b: "batch_starts 1 0 1 = [0]" unfolding batch_starts_1 by simp
  have "batch_SoA lane 1 i 0 (False, sb, [j]) = (False, sb, [j])"
    unfolding batch_SoA_width1 using assms by (simp add: update_SoA1_neutral)
  then show ?thesis unfolding b by simp
qed

lemma float_two: "float_div (float_of_int 2) (float_of_int 1) = Finite 2"
  using round32_int [of 2] round32_int [of 1] by (simp add: float_of_int_def)

lemma prepared_nth:
  "b < length bodies \<Longrightarrow>
     SolvePrepareAoS bodies ! b = (bodies ! b)\<lparr>lastIteration := - 1, lastDisplacementIteration := - 1\<rparr>"
  by (simp add: SolvePrepareAoS_def)

lemma prepared_views:
  assumes "b < length bodies"
  shows "sb_velocity_x (imp_view (SolvePrepareAoS bodies ! b)) = sb_velocity_x (imp_view (bodies ! b))"
    "sb_velocity_y (imp_view (SolvePrepareAoS bodies ! b)) = sb_velocity_y (imp_view (bodies ! b))"
    "sb_angularVelocity (imp_view (SolvePrepareAoS bodies ! b)) = sb_angularVelocity (imp_view (bodies ! b))"
    "sb_velocity_x (disp_view (SolvePrepareAoS bodies ! b)) = sb_velocity_x (disp_view (bodies ! b))"
    "sb_velocity_y (disp_view (SolvePrepareAoS bodies ! b)) = sb_velocity_y (disp_view (bodies ! b))"
    "sb_angularVelocity (disp_view (SolvePrepareAoS bodies ! b)) = sb_angularVelocity (disp_view (bodies ! b))"
  using assms by (simp_all add: prepared_nth imp_view_def disp_view_def)

lemma relative_velocity_SoA_cong:
  assumes "sb_velocity_x a1 = sb_velocity_x b1" "sb_velocity_y a1 = sb_velocity_y b1"
    "sb_angularVelocity a1 = sb_angularVelocity b1"
    "sb_velocity_x a2 = sb_velocity_x b2" "sb_velocity_y a2 = sb_velocity_y b2"
    "sb_angularVelocity a2 = sb_angularVelocity b2"
  shows "relative_velocity_SoA l dV a1 a2 = relative_velocity_SoA l dV b1 b2"
  using assms by (simp add: relative_velocity_SoA_def)

lemma finite_body_cong:
  assumes "sb_velocity_x a = sb_velocity_x b" "sb_velocity_y a = sb_velocity_y b"
    "sb_angularVelocity a = sb_angularVelocity b"
  shows "finite_body a = finite_body b"
  using assms by (simp add: finite_body_def)

lemma degenerate_prepared:
  assumes valid: "body1Index j < length bodies" "body2Index j < length bodies"
    and fb: "finite_body (imp_view (bodies ! body1Index j))" "finite_body (imp_view (bodies ! body2Index j))"
      "finite_body (disp_view (bodies ! body1Index j))" "finite_body (disp_view (bodies ! body2Index j))"
    and dV: "relative_velocities_finite j (imp_view (bodies ! body1Index j))
        (imp_view (bodies ! body2Index j)) (disp_view (bodies ! body1Index j))
        (disp_view (bodies ! body2Index j))"
  shows "finite_body (imp_view (SolvePrepareAoS bodies ! body1Index j))"
    "finite_body (imp_view (SolvePrepareAoS bodies ! body2Index j))"
    "finite_body (disp_view (SolvePrepareAoS bodies ! body1Index j))"
    "finite_body (disp_view (SolvePrepareAoS bodies ! body2Index j))"
    "relative_velocities_finite j (imp_view (SolvePrepareAoS bodies ! body1Index j))
        (imp_view (SolvePrepareAoS bodies ! body2Index j))
        (disp_view (SolvePrepareAoS bodies ! body1Index j))
        (disp_view (SolvePrepareAoS bodies ! body2Index j))"
proof -
  note v1 = prepared_views [OF valid(1)]
  note v2 = prepared_views [OF valid(2)]
  show "finite_body (imp_view (SolvePrepareAoS bodies ! body1Index j))"
    using fb(1) finite_body_cong [OF v1(1,2,3)] by simp
  show "finite_body (imp_view (SolvePrepareAoS bodies ! body2Index j))"
    using fb(2) finite_body_cong [OF v2(1,2,3)] by simp
  show "finite_body (disp_view (SolvePrepareAoS bodies ! body1Index j))"
    using fb(3) finite_body_cong [OF v1(4,5,6)] by simp
  show "finite_body (disp_view (SolvePrepareAoS bodies ! body2Index j))"
    using fb(4) finite_body_cong [OF v2(4,5,6)] by simp
  show "relative_velocities_finite j (imp_view (SolvePrepareAoS bodies ! body1Index j))
        (imp_view (SolvePrepareAoS bodies ! body2Index j))
        (disp_view (SolvePrepareAoS bodies ! body1Index j))
        (disp_view (SolvePrepareAoS bodies ! body2Index j))"
    using dV unfolding relative_velocities_finite_def
      relative_velocity_SoA_cong [OF v1(1,2,3) v2(1,2,3)]
      relative_velocity_SoA_cong [OF v1(4,5,6) v2(4,5,6)] .
qed

lemma degenerate_updates_AoS:
  assumes deg: "degenerate (js ! k)" and ok: "accumulators_ok (js ! k)" and fin: "finite_joint (js ! k)"
    and fb: "finite_body (imp_view (bs ! body1Index (js ! k)))"
      "finite_body (imp_view (bs ! body2Index (js ! k)))"
      "finite_body (disp_view (bs ! body1Index (js ! k)))"
      "finite_body (disp_view (bs ! body2Index (js ! k)))"
    and dV: "relative_velocities_finite (js ! k) (imp_view (bs ! body1Index (js ! k)))
        (imp_view (bs ! body2Index (js ! k))) (disp_view (bs ! body1Index (js ! k)))
        (disp_view (bs ! body2Index (js ! k)))"
  shows "impulse_update_AoS i k (p, bs, js) = (p, bs, js)"
    and "displacement_update_AoS i k (p, bs, js) = (p, bs, js)"
proof -
  from dV show "impulse_update_AoS i k (p, bs, js) = (p, bs, js)"
    by (intro impulse_update_AoS_degenerate deg ok fin fb)
       (simp_all add: relative_velocities_finite_def relative_velocity_views)
  from dV show "displacement_update_AoS i k (p, bs, js) = (p, bs, js)"
    by (intro displacement_update_AoS_degenerate deg ok fin fb)
       (simp_all add: relative_velocities_finite_def relative_velocity_views)
qed

lemma degenerate_lanes:
  assumes deg: "degenerate j" and ok: "accumulators_ok j" and fin: "finite_joint j"
    and fb: "finite_body v1" "finite_body v2" "finite_body d1" "finite_body d2"
    and dV: "relative_velocities_finite j v1 v2 d1 d2"
  shows "impulse_lane i j v1 v2 = (j, v1, v2, False)"
    and "displacement_lane i j d1 d2 = (j, d1, d2, False)"
  using dV
  by (simp_all add: relative_velocities_finite_def impulse_lane_degenerate [OF deg ok fin fb(1,2)]
      displacement_lane_degenerate [OF deg ok fin fb(3,4)])


lemma single_joint_finish_AoS:
  assumes "body1Index j < length bodies" "body2Index j < length bodies"
  shows "SolveFinishAoS (SolvePrepareAoS bodies) [j] = Finite 2"
  using assms
  by (simp add: SolveFinishAoS_sum joint_iterations_AoS_def prepared_nth float_two)

lemma single_joint_AoS:
  assumes deg: "degenerate j" and ok: "accumulators_ok j" and fin: "finite_joint j"
    and valid: "body1Index j < length bodies" "body2Index j < length bodies"
    and fb: "finite_body (imp_view (bodies ! body1Index j))" "finite_body (imp_view (bodies ! body2Index j))"
      "finite_body (disp_view (bodies ! body1Index j))" "finite_body (disp_view (bodies ! body2Index j))"
    and dV: "relative_velocities_finite j (imp_view (bodies ! body1Index j))
        (imp_view (bodies ! body2Index j)) (disp_view (bodies ! body1Index j))
        (disp_view (bodies ! body2Index j))"
  shows "SolveJointsAoS bodies [j] C P = (SolvePrepareAoS bodies, [j], Finite 2)"
    and "0 < C \<Longrightarrow> 0 < P \<Longrightarrow> passes_AoS bodies [j] C P = ([(0, False)], [(0, False)])"
proof -
  let ?bs = "SolvePrepareAoS bodies"
  note pr = degenerate_prepared [OF valid fb dV]
  have u: "impulse_update_AoS i 0 (False, ?bs, [j]) = (False, ?bs, [j])"
    "displacement_update_AoS i 0 (False, ?bs, [j]) = (False, ?bs, [j])" for i
    using degenerate_updates_AoS [of "[j]" 0 ?bs i False] deg ok fin pr by simp_all
  have pi: "impulse_pass_AoS i (?bs, [j]) = (False, ?bs, [j])" for i
    by (rule single_impulse_pass_AoS) (rule u)
  have pd: "displacement_pass_AoS i (?bs, [j]) = (False, ?bs, [j])" for i
    by (rule single_displacement_pass_AoS) (rule u)
  have li: "solve_loop impulse_pass_AoS C 0 (?bs, [j]) = (?bs, [j])"
    by (rule solve_loop_neutral) (rule pi)
  have ld: "solve_loop displacement_pass_AoS P 0 (?bs, [j]) = (?bs, [j])"
    by (rule solve_loop_neutral) (rule pd)
  show "SolveJointsAoS bodies [j] C P = (SolvePrepareAoS bodies, [j], Finite 2)"
    by (simp add: SolveJointsAoS_def Let_def li ld single_joint_finish_AoS [OF valid])
  show "passes_AoS bodies [j] C P = ([(0, False)], [(0, False)])" if "0 < C" "0 < P"
    using solve_loop_passes_neutral [of impulse_pass_AoS "(?bs, [j])" 0 C, OF pi that(1)]
      solve_loop_passes_neutral [of displacement_pass_AoS "(?bs, [j])" 0 P, OF pd that(2)]
    by (simp add: passes_AoS_def Let_def li)
qed

lemma single_joint_SoA_Scalar:
  assumes deg: "degenerate j" and ok: "accumulators_ok j" and fin: "finite_joint j"
    and valid: "body1Index j < length bodies" "body2Index j < length bodies"
    and fb: "finite_body (imp_view (bodies ! body1Index j))" "finite_body (imp_view (bodies ! body2Index j))"
      "finite_body (disp_view (bodies ! body1Index j))" "finite_body (disp_view (bodies ! body2Index j))"
    and dV: "relative_velocities_finite j (imp_view (bodies ! body1Index j))
        (imp_view (bodies ! body2Index j)) (disp_view (bodies ! body1Index j))
        (disp_view (bodies ! body2Index j))"
    and ji: "length joint_index0 = 1"
  shows "SolveJointsSoA_Scalar bodies [j] joint_index0 C P = Some (bodies, [j], Finite 2)"
    and "0 < C \<Longrightarrow> 0 < P \<Longrightarrow>
      passes_SoA (impulse_pass_SoA_Scalar 1) (displacement_pass_SoA_Scalar 1) C P
        (the (SolvePrepareSoA bodies [j] joint_index0 1)) = ([(0, False)], [(0, False)])"
proof -
  let ?bs = "SolvePrepareAoS bodies"
  let ?s = "\<lparr>solveBodiesImpulse = map imp_view ?bs, solveBodiesDisplacement = map disp_view ?bs,
             joint_index_SoA = [0 ..< length [j]], joint_packed = [j], groupOffset_SoA = length [j]\<rparr>"
  have len: "length ?bs = length bodies" by (simp add: SolvePrepareAoS_def)
  note pr = degenerate_prepared [OF valid fb dV]
  have prep: "SolvePrepareSoA bodies [j] joint_index0 1 = Some ?s"
    by (rule prepare_scalar) (simp add: ji)
  have nth: "map imp_view ?bs ! body1Index j = imp_view (?bs ! body1Index j)"
    "map imp_view ?bs ! body2Index j = imp_view (?bs ! body2Index j)"
    "map disp_view ?bs ! body1Index j = disp_view (?bs ! body1Index j)"
    "map disp_view ?bs ! body2Index j = disp_view (?bs ! body2Index j)"
    using valid len by simp_all
  note lanes = degenerate_lanes [OF deg ok fin pr]
  have pi: "impulse_pass_SoA_Scalar 1 i (map imp_view ?bs, [j]) = (False, map imp_view ?bs, [j])" for i
    unfolding impulse_pass_SoA_Scalar_def SolveJointsImpulsesSoA_def fst_conv snd_conv
    by (rule single_pass_SoA) (simp add: nth lanes)
  have pd: "displacement_pass_SoA_Scalar 1 i (map disp_view ?bs, [j]) = (False, map disp_view ?bs, [j])" for i
    unfolding displacement_pass_SoA_Scalar_def SolveJointsDisplacementSoA_def fst_conv snd_conv
    by (rule single_pass_SoA) (simp add: nth lanes)
  have li: "solve_loop (impulse_pass_SoA_Scalar 1) C 0 (map imp_view ?bs, [j]) = (map imp_view ?bs, [j])"
    by (rule solve_loop_neutral) (rule pi)
  have ld: "solve_loop (displacement_pass_SoA_Scalar 1) P 0 (map disp_view ?bs, [j]) = (map disp_view ?bs, [j])"
    by (rule solve_loop_neutral) (rule pd)
  have run: "solve_SoA (impulse_pass_SoA_Scalar 1) (displacement_pass_SoA_Scalar 1) bodies [j] C P ?s
      = SolveFinishSoA bodies [j] ?s"
    unfolding solve_SoA_def Let_def by (simp add: li [unfolded One_nat_def] ld [unfolded One_nat_def])
  have v: "joints_valid (length ?bs) [j]" using valid len by (simp add: joints_valid_def)
  have "snd (SolveFinishSoA bodies [j] ?s) = ([j], SolveFinishAoS ?bs [j])"
    using SolveFinishSoA_scalar(1) [OF len v refl, of "length [j]"] by simp
  moreover have "fst (SolveFinishSoA bodies [j] ?s) = bodies"
    using finish_bodies_same [of bodies] by (simp add: SolveFinishSoA_def Let_def)
  ultimately have "SolveFinishSoA bodies [j] ?s = (bodies, [j], Finite 2)"
    by (simp add: prod_eq_iff single_joint_finish_AoS [OF valid])
  with run prep show "SolveJointsSoA_Scalar bodies [j] joint_index0 C P = Some (bodies, [j], Finite 2)"
    by (simp add: SolveJointsSoA_Scalar_def)
  show "passes_SoA (impulse_pass_SoA_Scalar 1) (displacement_pass_SoA_Scalar 1) C P
        (the (SolvePrepareSoA bodies [j] joint_index0 1)) = ([(0, False)], [(0, False)])"
    if "0 < C" "0 < P"
    using solve_loop_passes_neutral [of "impulse_pass_SoA_Scalar 1" "(map imp_view ?bs, [j])" 0 C, OF pi that(1)]
      solve_loop_passes_neutral [of "displacement_pass_SoA_Scalar 1" "(map disp_view ?bs, [j])" 0 P, OF pd that(2)]
    unfolding passes_SoA_def Let_def prep option.sel by (simp add: li [unfolded One_nat_def])
qed


lemma round32_values:
  "round32 1 = Finite 1" "round32 (- 1) = Finite (- 1)"
  "round32 2 = Finite 2" "round32 (- 2) = Finite (- 2)"
  "round32 (1 / 2) = Finite (1 / 2)" "round32 (- (1 / 2)) = Finite (- (1 / 2))"
  "round32 (1 / 4) = Finite (1 / 4)"
  using round32_int [of 1] round32_int [of "- 1"] round32_int [of 2] round32_int [of "- 2"]
    round32_dyadic [of 1 1] round32_dyadic [of "- 1" 1] round32_dyadic [of 1 2]
  by simp_all



lemma heavy_contact_ok:
  "degenerate heavy_contact" "accumulators_ok heavy_contact" "finite_joint heavy_contact"
  "body1Index heavy_contact = 0" "body2Index heavy_contact = 1"
  by (simp_all add: degenerate_def accumulators_ok_def finite_joint_def finite_limiter_def finite32_def
      heavy_contact_def contact_ab_def normal_row_def friction_row_def zero_cfloat_def
      kFrictionCoefficient_def round32_values)

lemma bodies_ab_finite:
  "finite_body (imp_view body_a)" "finite_body (imp_view body_b)"
  "finite_body (disp_view body_a)" "finite_body (disp_view body_b)"
  by (simp_all add: finite_body_def finite32_def imp_view_def disp_view_def body_a_def body_b_def
      round32_values)

lemma heavy_contact_velocities:
  "relative_velocities_finite heavy_contact (imp_view body_a) (imp_view body_b)
     (disp_view body_a) (disp_view body_b)"
  by (simp add: relative_velocities_finite_def is_finite_def relative_velocity_SoA_def
      subtract_projections_def minus_cfloat_def imp_view_def disp_view_def body_a_def body_b_def
      heavy_contact_def contact_ab_def normal_row_def friction_row_def zero_cfloat_def round32_values)









section \<open>The early-out test\<close>

text \<open>
  Claim C5.  In a pass with iteration index \<open>i\<close>, the AoS impulse kernel at position
  \<open>k\<close> and the template's impulse kernel at width 1 at position \<open>k\<close> return the flag,
  the bodies and the joints they were given when
  \<open>max (body1.lastIteration, body2.lastIteration) \<le> i - 2\<close> for the two bodies of the
  joint at \<open>k\<close>, read at that moment, and run the update on the joint otherwise.  The
  displacement kernels do so on \<^verbatim>\<open>lastDisplacementIteration\<close> (the tag of the
  displacement channel in the SoA layout).
\<close>

theorem early_out_skip_rule:
  "impulse_joint_AoS i k (p, bodies, joints) =
     (if max (lastIteration (bodies ! body1Index (joints ! k)))
             (lastIteration (bodies ! body2Index (joints ! k))) \<le> i - 2
      then (p, bodies, joints)
      else impulse_update_AoS i k (p, bodies, joints))
   \<and> displacement_joint_AoS i k (p, bodies, joints) =
     (if max (lastDisplacementIteration (bodies ! body1Index (joints ! k)))
             (lastDisplacementIteration (bodies ! body2Index (joints ! k))) \<le> i - 2
      then (p, bodies, joints)
      else displacement_update_AoS i k (p, bodies, joints))
   \<and> batch_SoA impulse_lane 1 i k (p, sb, jp) =
     (if max (sb_lastIteration (sb ! body1Index (jp ! k)))
             (sb_lastIteration (sb ! body2Index (jp ! k))) \<le> i - 2
      then (p, sb, jp)
      else update_SoA1 impulse_lane i k (p, sb, jp))
   \<and> batch_SoA displacement_lane 1 i k (p, sb, jp) =
     (if max (sb_lastIteration (sb ! body1Index (jp ! k)))
             (sb_lastIteration (sb ! body2Index (jp ! k))) \<le> i - 2
      then (p, sb, jp)
      else update_SoA1 displacement_lane i k (p, sb, jp))"
  by (simp only: impulse_joint_AoS_skip displacement_joint_AoS_skip batch_SoA_width1 simp_thms)

theorem early_out_skip_rule_witness:
  "impulse_joint_AoS 7 0 (False, [body_a, body_b], [contact_ab])
     = (False, [body_a, body_b], [contact_ab])
   \<and> impulse_joint_AoS 6 0 (False, [body_a, body_b], [contact_ab])
     = impulse_update_AoS 6 0 (False, [body_a, body_b], [contact_ab])
   \<and> displacement_joint_AoS 9 0 (False, [body_a, body_b], [contact_ab])
     = (False, [body_a, body_b], [contact_ab])
   \<and> displacement_joint_AoS 8 0 (False, [body_a, body_b], [contact_ab])
     = displacement_update_AoS 8 0 (False, [body_a, body_b], [contact_ab])
   \<and> batch_SoA impulse_lane 1 7 0 (False, [imp_view body_a, imp_view body_b], [contact_ab])
     = (False, [imp_view body_a, imp_view body_b], [contact_ab])
   \<and> batch_SoA impulse_lane 1 6 0 (False, [imp_view body_a, imp_view body_b], [contact_ab])
     = update_SoA1 impulse_lane 6 0 (False, [imp_view body_a, imp_view body_b], [contact_ab])"
  using early_out_skip_rule [of 7 0 False "[body_a, body_b]" "[contact_ab]"
      "[imp_view body_a, imp_view body_b]" "[contact_ab]"]
    early_out_skip_rule [of 6 0 False "[body_a, body_b]" "[contact_ab]"
      "[imp_view body_a, imp_view body_b]" "[contact_ab]"]
    early_out_skip_rule [of 9 0 False "[body_a, body_b]" "[contact_ab]"
      "[disp_view body_a, disp_view body_b]" "[contact_ab]"]
    early_out_skip_rule [of 8 0 False "[body_a, body_b]" "[contact_ab]"
      "[disp_view body_a, disp_view body_b]" "[contact_ab]"]
  by (simp add: contact_ab_def body_a_def body_b_def imp_view_def disp_view_def)

section \<open>Iteration budgets\<close>

lemma solve_SoA_extend:
  assumes "left_by_break (fst (passes_SoA imp disp C P s))"
    and "left_by_break (snd (passes_SoA imp disp C P s))"
  shows "solve_SoA imp disp bodies contactJoints (C + 10) (P + 10) s
       = solve_SoA imp disp bodies contactJoints C P s"
    and "passes_SoA imp disp (C + 10) (P + 10) s = passes_SoA imp disp C P s"
proof -
  let ?r = "solve_loop imp C 0 (solveBodiesImpulse s, joint_packed s)"
  from assms(1) have 1: "left_by_break (solve_loop_passes imp C 0 (solveBodiesImpulse s, joint_packed s))"
    by (simp add: passes_SoA_def Let_def)
  from assms(2) have 2: "left_by_break (solve_loop_passes disp P 0 (solveBodiesDisplacement s, snd ?r))"
    by (simp add: passes_SoA_def Let_def)
  note e1 = solve_loop_extend [OF 1, of 10, simplified]
  note e2 = solve_loop_extend [OF 2, of 10, simplified]
  show "solve_SoA imp disp bodies contactJoints (C + 10) (P + 10) s
       = solve_SoA imp disp bodies contactJoints C P s"
    unfolding solve_SoA_def Let_def by (simp add: e1 e2)
  show "passes_SoA imp disp (C + 10) (P + 10) s = passes_SoA imp disp C P s"
    unfolding passes_SoA_def Let_def by (simp add: e1 e2)
qed

lemma SolveJointsAoS_extend:
  assumes "left_by_break (fst (passes_AoS bodies contactJoints C P))"
    and "left_by_break (snd (passes_AoS bodies contactJoints C P))"
  shows "SolveJointsAoS bodies contactJoints (C + 10) (P + 10) = SolveJointsAoS bodies contactJoints C P"
    and "passes_AoS bodies contactJoints (C + 10) (P + 10) = passes_AoS bodies contactJoints C P"
proof -
  let ?s = "(SolvePrepareAoS bodies, contactJoints)"
  from assms(1) have 1: "left_by_break (solve_loop_passes impulse_pass_AoS C 0 ?s)"
    by (simp add: passes_AoS_def Let_def)
  from assms(2) have 2: "left_by_break (solve_loop_passes displacement_pass_AoS P 0
      (solve_loop impulse_pass_AoS C 0 ?s))"
    by (simp add: passes_AoS_def Let_def)
  note e1 = solve_loop_extend [OF 1, of 10, simplified]
  note e2 = solve_loop_extend [OF 2, of 10, simplified]
  show "SolveJointsAoS bodies contactJoints (C + 10) (P + 10) = SolveJointsAoS bodies contactJoints C P"
    unfolding SolveJointsAoS_def Let_def by (simp add: e1 e2)
  show "passes_AoS bodies contactJoints (C + 10) (P + 10) = passes_AoS bodies contactJoints C P"
    unfolding passes_AoS_def Let_def by (simp add: e1 e2)
qed

lemma SoA_driver_extend:
  assumes "left_by_break (fst (passes_SoA imp disp C P s))"
    and "left_by_break (snd (passes_SoA imp disp C P s))"
  shows "Some (solve_SoA imp disp bodies contactJoints (C + 10) (P + 10) s)
       = Some (solve_SoA imp disp bodies contactJoints C P s)"
  using solve_SoA_extend(1) [OF assms] by simp

lemma heavy_scene:
  "passes_AoS [body_a, body_b] [heavy_contact] 1 1 = ([(0, False)], [(0, False)])"
  "SolveJointsAoS [body_a, body_b] [heavy_contact] 1 1
     = (SolvePrepareAoS [body_a, body_b], [heavy_contact], Finite 2)"
  "SolveJointsSoA_Scalar [body_a, body_b] [heavy_contact] [0] 1 1
     = Some ([body_a, body_b], [heavy_contact], Finite 2)"
  "passes_SoA (impulse_pass_SoA_Scalar 1) (displacement_pass_SoA_Scalar 1) 1 1
     (the (SolvePrepareSoA [body_a, body_b] [heavy_contact] [0] 1)) = ([(0, False)], [(0, False)])"
  using single_joint_AoS [of heavy_contact "[body_a, body_b]" 1 1]
    single_joint_SoA_Scalar [of heavy_contact "[body_a, body_b]" "[0]" 1 1]
  by (simp_all add: heavy_contact_ok bodies_ab_finite heavy_contact_velocities)

lemma heavy_scene_prepared:
  "SolvePrepareSoA [body_a, body_b] [heavy_contact] [0] 1
     = Some (the (SolvePrepareSoA [body_a, body_b] [heavy_contact] [0] 1))"
  using prepare_scalar [of "[0]" "[heavy_contact]" "[body_a, body_b]"] by simp

text \<open>
  Claim C6.  For \<^verbatim>\<open>SolveJointsAoS\<close>, for the body \<open>solve_SoA\<close> that the SoA drivers share
  (with any pair of pass functions and from any prepared state), and for
  \<^verbatim>\<open>SolveJointsSoA_Scalar\<close>, the wide template drivers (\<^verbatim>\<open>SolveJointsSoA_SSE2\<close> is
  \<open>SolveJointsSoA_SIMD 4\<close>, \<^verbatim>\<open>SolveJointsSoA_AVX2\<close> is \<open>SolveJointsSoA_SIMD 8\<close>) and
  \<^verbatim>\<open>SolveJointsSoA_FMA\<close>: if with the budgets \<open>(C, P)\<close> both loops were left through
  \<^verbatim>\<open>break\<close>, after a pass that was not productive, then with the budgets
  \<open>(C + 10, P + 10)\<close> the two loops run the same passes (the same iteration indices
  with the same flags), and the call returns the same bodies, joints and average.
\<close>

theorem early_exit_fidelity:
  "(left_by_break (fst (passes_AoS bodies contactJoints C P))
      \<and> left_by_break (snd (passes_AoS bodies contactJoints C P)) \<longrightarrow>
      SolveJointsAoS bodies contactJoints (C + 10) (P + 10) = SolveJointsAoS bodies contactJoints C P
    \<and> passes_AoS bodies contactJoints (C + 10) (P + 10) = passes_AoS bodies contactJoints C P)
   \<and> (left_by_break (fst (passes_SoA imp disp C P s))
      \<and> left_by_break (snd (passes_SoA imp disp C P s)) \<longrightarrow>
      solve_SoA imp disp bodies contactJoints (C + 10) (P + 10) s
        = solve_SoA imp disp bodies contactJoints C P s
    \<and> passes_SoA imp disp (C + 10) (P + 10) s = passes_SoA imp disp C P s)
   \<and> (SolvePrepareSoA bodies contactJoints joint_index0 1 = Some s1
      \<and> left_by_break (fst (passes_SoA (impulse_pass_SoA_Scalar (length contactJoints))
            (displacement_pass_SoA_Scalar (length contactJoints)) C P s1))
      \<and> left_by_break (snd (passes_SoA (impulse_pass_SoA_Scalar (length contactJoints))
            (displacement_pass_SoA_Scalar (length contactJoints)) C P s1)) \<longrightarrow>
      SolveJointsSoA_Scalar bodies contactJoints joint_index0 (C + 10) (P + 10)
        = SolveJointsSoA_Scalar bodies contactJoints joint_index0 C P)
   \<and> (SolvePrepareSoA bodies contactJoints joint_index0 VN = Some sv
      \<and> left_by_break (fst (passes_SoA
            (wide_pass (SolveJointsImpulsesSoA VN) (SolveJointsImpulsesSoA 1)
               (groupOffset_SoA sv) (length contactJoints))
            (wide_pass (SolveJointsDisplacementSoA VN) (SolveJointsDisplacementSoA 1)
               (groupOffset_SoA sv) (length contactJoints)) C P sv))
      \<and> left_by_break (snd (passes_SoA
            (wide_pass (SolveJointsImpulsesSoA VN) (SolveJointsImpulsesSoA 1)
               (groupOffset_SoA sv) (length contactJoints))
            (wide_pass (SolveJointsDisplacementSoA VN) (SolveJointsDisplacementSoA 1)
               (groupOffset_SoA sv) (length contactJoints)) C P sv)) \<longrightarrow>
      SolveJointsSoA_SIMD VN bodies contactJoints joint_index0 (C + 10) (P + 10)
        = SolveJointsSoA_SIMD VN bodies contactJoints joint_index0 C P)
   \<and> (SolvePrepareSoA bodies contactJoints joint_index0 16 = Some sf
      \<and> left_by_break (fst (passes_SoA
            (wide_pass SolveJointsImpulsesSoA_FMA (SolveJointsImpulsesSoA 1)
               (groupOffset_SoA sf) (length contactJoints))
            (wide_pass SolveJointsDisplacementSoA_FMA (SolveJointsDisplacementSoA 1)
               (groupOffset_SoA sf) (length contactJoints)) C P sf))
      \<and> left_by_break (snd (passes_SoA
            (wide_pass SolveJointsImpulsesSoA_FMA (SolveJointsImpulsesSoA 1)
               (groupOffset_SoA sf) (length contactJoints))
            (wide_pass SolveJointsDisplacementSoA_FMA (SolveJointsDisplacementSoA 1)
               (groupOffset_SoA sf) (length contactJoints)) C P sf)) \<longrightarrow>
      SolveJointsSoA_FMA bodies contactJoints joint_index0 (C + 10) (P + 10)
        = SolveJointsSoA_FMA bodies contactJoints joint_index0 C P)"
proof (intro conjI impI; elim conjE)
  assume "left_by_break (fst (passes_AoS bodies contactJoints C P))"
    "left_by_break (snd (passes_AoS bodies contactJoints C P))"
  then show "SolveJointsAoS bodies contactJoints (C + 10) (P + 10) = SolveJointsAoS bodies contactJoints C P"
    "passes_AoS bodies contactJoints (C + 10) (P + 10) = passes_AoS bodies contactJoints C P"
    by (rule SolveJointsAoS_extend)+
next
  assume "left_by_break (fst (passes_SoA imp disp C P s))"
    "left_by_break (snd (passes_SoA imp disp C P s))"
  then show "solve_SoA imp disp bodies contactJoints (C + 10) (P + 10) s
        = solve_SoA imp disp bodies contactJoints C P s"
    "passes_SoA imp disp (C + 10) (P + 10) s = passes_SoA imp disp C P s"
    by (rule solve_SoA_extend)+
next
  assume "SolvePrepareSoA bodies contactJoints joint_index0 1 = Some s1"
    "left_by_break (fst (passes_SoA (impulse_pass_SoA_Scalar (length contactJoints))
            (displacement_pass_SoA_Scalar (length contactJoints)) C P s1))"
    "left_by_break (snd (passes_SoA (impulse_pass_SoA_Scalar (length contactJoints))
            (displacement_pass_SoA_Scalar (length contactJoints)) C P s1))"
  then show "SolveJointsSoA_Scalar bodies contactJoints joint_index0 (C + 10) (P + 10)
        = SolveJointsSoA_Scalar bodies contactJoints joint_index0 C P"
    by (simp add: SolveJointsSoA_Scalar_def SoA_driver_extend)
next
  assume "SolvePrepareSoA bodies contactJoints joint_index0 VN = Some sv"
    "left_by_break (fst (passes_SoA
            (wide_pass (SolveJointsImpulsesSoA VN) (SolveJointsImpulsesSoA 1)
               (groupOffset_SoA sv) (length contactJoints))
            (wide_pass (SolveJointsDisplacementSoA VN) (SolveJointsDisplacementSoA 1)
               (groupOffset_SoA sv) (length contactJoints)) C P sv))"
    "left_by_break (snd (passes_SoA
            (wide_pass (SolveJointsImpulsesSoA VN) (SolveJointsImpulsesSoA 1)
               (groupOffset_SoA sv) (length contactJoints))
            (wide_pass (SolveJointsDisplacementSoA VN) (SolveJointsDisplacementSoA 1)
               (groupOffset_SoA sv) (length contactJoints)) C P sv))"
  then show "SolveJointsSoA_SIMD VN bodies contactJoints joint_index0 (C + 10) (P + 10)
        = SolveJointsSoA_SIMD VN bodies contactJoints joint_index0 C P"
    by (simp add: SolveJointsSoA_SIMD_def SoA_driver_extend)
next
  assume "SolvePrepareSoA bodies contactJoints joint_index0 16 = Some sf"
    "left_by_break (fst (passes_SoA
            (wide_pass SolveJointsImpulsesSoA_FMA (SolveJointsImpulsesSoA 1)
               (groupOffset_SoA sf) (length contactJoints))
            (wide_pass SolveJointsDisplacementSoA_FMA (SolveJointsDisplacementSoA 1)
               (groupOffset_SoA sf) (length contactJoints)) C P sf))"
    "left_by_break (snd (passes_SoA
            (wide_pass SolveJointsImpulsesSoA_FMA (SolveJointsImpulsesSoA 1)
               (groupOffset_SoA sf) (length contactJoints))
            (wide_pass SolveJointsDisplacementSoA_FMA (SolveJointsDisplacementSoA 1)
               (groupOffset_SoA sf) (length contactJoints)) C P sf))"
  then show "SolveJointsSoA_FMA bodies contactJoints joint_index0 (C + 10) (P + 10)
        = SolveJointsSoA_FMA bodies contactJoints joint_index0 C P"
    by (simp add: SolveJointsSoA_FMA_def SoA_driver_extend)
qed

theorem early_exit_fidelity_witness:
  "left_by_break (fst (passes_AoS [body_a, body_b] [heavy_contact] 1 1))
   \<and> left_by_break (snd (passes_AoS [body_a, body_b] [heavy_contact] 1 1))
   \<and> SolveJointsAoS [body_a, body_b] [heavy_contact] 11 11
       = SolveJointsAoS [body_a, body_b] [heavy_contact] 1 1
   \<and> passes_AoS [body_a, body_b] [heavy_contact] 11 11 = ([(0, False)], [(0, False)])
   \<and> SolveJointsSoA_Scalar [body_a, body_b] [heavy_contact] [0] 11 11
       = Some ([body_a, body_b], [heavy_contact], Finite 2)"
  using early_exit_fidelity [of "[body_a, body_b]" "[heavy_contact]" 1 1 _ _ _ "[0]"
      "the (SolvePrepareSoA [body_a, body_b] [heavy_contact] [0] 1)"]
    heavy_scene_prepared
  by (simp add: heavy_scene heavy_scene [unfolded One_nat_def] left_by_break_def)

section \<open>The average-iterations diagnostic\<close>

lemma float_div_ints:
  assumes "\<bar>a\<bar> \<le> 2 ^ 24" and "0 < n" and "n \<le> 2 ^ 24"
  shows "float_div (float_of_int a) (float_of_int (int n)) = round32 (of_int a / of_nat n)"
proof -
  from assms(3) have "\<bar>int n\<bar> \<le> 2 ^ 24" by (simp; linarith)
  then have n: "float_of_int (int n) = Finite (of_nat n)"
    using round32_int [of "int n"] by (simp add: float_of_int_def)
  have a: "float_of_int a = Finite (of_int a)"
    using round32_int [of a] assms(1) by (simp add: float_of_int_def)
  from assms(2) show ?thesis by (simp add: a n)
qed

text \<open>
  Claim C7.  The \<^verbatim>\<open>float\<close> that \<^verbatim>\<open>SolveFinishAoS\<close> returns is
  \<^verbatim>\<open>float(iterationSum) / float(jointCount)\<close>, where \<^verbatim>\<open>iterationSum\<close> is the sum over the
  joints of \<open>(max (body1.lastIteration, body2.lastIteration) + 2)
  + (max (body1.lastDisplacementIteration, body2.lastDisplacementIteration) + 2)\<close>.
  \<^verbatim>\<open>SolveFinishSoA\<close> returns the same expression over the first \<^verbatim>\<open>jointCount\<close> packed
  joints, with the tags read from the impulse and the displacement channel.  With
  at least one joint, and the sum and the count at most \<open>2^24\<close> in absolute value
  (so that both conversions are exact), the result is the quotient of the sum by the
  count, rounded to \<^verbatim>\<open>float\<close>.
\<close>

theorem average_iterations_diagnostic:
  "SolveFinishAoS bodies contactJoints =
     float_div
       (float_of_int (\<Sum>j\<leftarrow>contactJoints.
          (max (lastIteration (bodies ! body1Index j)) (lastIteration (bodies ! body2Index j)) + 2)
        + (max (lastDisplacementIteration (bodies ! body1Index j))
               (lastDisplacementIteration (bodies ! body2Index j)) + 2)))
       (float_of_int (int (length contactJoints)))
   \<and> (length contactJoints \<le> length (joint_packed s) \<longrightarrow>
       snd (snd (SolveFinishSoA bodies contactJoints s)) =
         float_div
           (float_of_int (\<Sum>j\<leftarrow>take (length contactJoints) (joint_packed s).
              (max (sb_lastIteration (solveBodiesImpulse s ! body1Index j))
                   (sb_lastIteration (solveBodiesImpulse s ! body2Index j)) + 2)
            + (max (sb_lastIteration (solveBodiesDisplacement s ! body1Index j))
                   (sb_lastIteration (solveBodiesDisplacement s ! body2Index j)) + 2)))
           (float_of_int (int (length contactJoints))))
   \<and> (contactJoints \<noteq> [] \<and> length contactJoints \<le> 2 ^ 24
       \<and> \<bar>\<Sum>j\<leftarrow>contactJoints.
          (max (lastIteration (bodies ! body1Index j)) (lastIteration (bodies ! body2Index j)) + 2)
        + (max (lastDisplacementIteration (bodies ! body1Index j))
               (lastDisplacementIteration (bodies ! body2Index j)) + 2)\<bar> \<le> 2 ^ 24 \<longrightarrow>
       SolveFinishAoS bodies contactJoints =
         round32 (of_int (\<Sum>j\<leftarrow>contactJoints.
            (max (lastIteration (bodies ! body1Index j)) (lastIteration (bodies ! body2Index j)) + 2)
          + (max (lastDisplacementIteration (bodies ! body1Index j))
                 (lastDisplacementIteration (bodies ! body2Index j)) + 2))
          / of_nat (length contactJoints)))
   \<and> (contactJoints \<noteq> [] \<and> length contactJoints \<le> 2 ^ 24
       \<and> length contactJoints \<le> length (joint_packed s)
       \<and> \<bar>\<Sum>j\<leftarrow>take (length contactJoints) (joint_packed s).
              (max (sb_lastIteration (solveBodiesImpulse s ! body1Index j))
                   (sb_lastIteration (solveBodiesImpulse s ! body2Index j)) + 2)
            + (max (sb_lastIteration (solveBodiesDisplacement s ! body1Index j))
                   (sb_lastIteration (solveBodiesDisplacement s ! body2Index j)) + 2)\<bar> \<le> 2 ^ 24 \<longrightarrow>
       snd (snd (SolveFinishSoA bodies contactJoints s)) =
         round32 (of_int (\<Sum>j\<leftarrow>take (length contactJoints) (joint_packed s).
              (max (sb_lastIteration (solveBodiesImpulse s ! body1Index j))
                   (sb_lastIteration (solveBodiesImpulse s ! body2Index j)) + 2)
            + (max (sb_lastIteration (solveBodiesDisplacement s ! body1Index j))
                   (sb_lastIteration (solveBodiesDisplacement s ! body2Index j)) + 2))
          / of_nat (length contactJoints)))"
proof -
  have a: "SolveFinishAoS bodies contactJoints =
     float_div
       (float_of_int (\<Sum>j\<leftarrow>contactJoints.
          (max (lastIteration (bodies ! body1Index j)) (lastIteration (bodies ! body2Index j)) + 2)
        + (max (lastDisplacementIteration (bodies ! body1Index j))
               (lastDisplacementIteration (bodies ! body2Index j)) + 2)))
       (float_of_int (int (length contactJoints)))"
    using SolveFinishAoS_sum [of bodies contactJoints]
    unfolding joint_iterations_AoS_def [abs_def] .
  have b: "snd (snd (SolveFinishSoA bodies contactJoints s)) =
         float_div
           (float_of_int (\<Sum>j\<leftarrow>take (length contactJoints) (joint_packed s).
              (max (sb_lastIteration (solveBodiesImpulse s ! body1Index j))
                   (sb_lastIteration (solveBodiesImpulse s ! body2Index j)) + 2)
            + (max (sb_lastIteration (solveBodiesDisplacement s ! body1Index j))
                   (sb_lastIteration (solveBodiesDisplacement s ! body2Index j)) + 2)))
           (float_of_int (int (length contactJoints)))"
    if "length contactJoints \<le> length (joint_packed s)"
    using SolveFinishSoA_sum [OF that, of bodies]
    unfolding joint_iterations_SoA_def [abs_def] .
  have c: "float_div (float_of_int x) (float_of_int (int (length contactJoints)))
      = round32 (of_int x / of_nat (length contactJoints))"
    if "contactJoints \<noteq> []" "length contactJoints \<le> 2 ^ 24" "\<bar>x\<bar> \<le> 2 ^ 24" for x
    using that by (intro float_div_ints) simp_all
  show ?thesis
  proof (intro conjI impI; (elim conjE)?)
    show "SolveFinishAoS bodies contactJoints =
     float_div
       (float_of_int (\<Sum>j\<leftarrow>contactJoints.
          (max (lastIteration (bodies ! body1Index j)) (lastIteration (bodies ! body2Index j)) + 2)
        + (max (lastDisplacementIteration (bodies ! body1Index j))
               (lastDisplacementIteration (bodies ! body2Index j)) + 2)))
       (float_of_int (int (length contactJoints)))"
      by (rule a)
  qed (simp_all only: a b c simp_thms)
qed

theorem average_iterations_diagnostic_witness:
  "SolveFinishAoS [body_a, body_b] [contact_ab] = Finite 16
   \<and> snd (snd (SolveFinishSoA [body_a, body_b] [contact_ab]
        \<lparr>solveBodiesImpulse = [imp_view body_a, imp_view body_b],
         solveBodiesDisplacement = [disp_view body_a, disp_view body_b],
         joint_index_SoA = [0], joint_packed = [contact_ab], groupOffset_SoA = 1\<rparr>)) = Finite 16"
  using average_iterations_diagnostic [of "[body_a, body_b]" "[contact_ab]"
      "\<lparr>solveBodiesImpulse = [imp_view body_a, imp_view body_b],
         solveBodiesDisplacement = [disp_view body_a, disp_view body_b],
         joint_index_SoA = [0], joint_packed = [contact_ab], groupOffset_SoA = 1\<rparr>"]
    round32_int [of 16] round32_int [of 1]
  by (simp add: contact_ab_def body_a_def body_b_def imp_view_def disp_view_def float_of_int_def)

end
